theory Spec2Isabelle
  imports Complex_Main
begin

section \<open>JavaScript numbers\<close>

text \<open>
  The simulation driver of \<^verbatim>\<open>src/simulation.ts\<close> computes on JavaScript numbers:
  IEEE-754 binary64 values.  A number is \<open>NaN\<close>, one of the two infinities, or a
  finite value, kept as the real number it denotes.  The two zeros are identified:
  the driver divides constants only and never inspects the sign of a zero.

  Arithmetic on finite values is the exact operation followed by rounding to the
  nearest binary64 value, ties to even (\<open>fl\<close>).  A value has a 53-bit significand
  and an exponent of the unit in the last place between \<open>-1074\<close> and \<open>971\<close>;
  a result that rounds to \<open>2 ^ 1024\<close> or beyond is an infinity.
\<close>

datatype number = NaN | PInf | NInf | Fin real

definition round_half_even :: "real \<Rightarrow> int" where
  "round_half_even t =
     (let f = \<lfloor>t\<rfloor>; d = t - of_int f in
        if d < 1 / 2 then f
        else if 1 / 2 < d then f + 1
        else if even f then f else f + 1)"

definition ulp_exponent :: "real \<Rightarrow> int" where
  "ulp_exponent a = max (\<lfloor>log 2 \<bar>a\<bar>\<rfloor> - 52) (- 1074)"

definition fl :: "real \<Rightarrow> number" where
  "fl a =
     (if a = 0 then Fin 0
      else
        let e = ulp_exponent a;
            r = of_int (round_half_even (a / 2 powr of_int e)) * 2 powr of_int e
        in if 2 ^ 1024 \<le> \<bar>r\<bar> then (if 0 < a then PInf else NInf) else Fin r)"

text \<open>\<open>a + b\<close>, \<open>a - b\<close> and \<open>a * b\<close> of JavaScript.\<close>

fun fadd :: "number \<Rightarrow> number \<Rightarrow> number" where
  "fadd (Fin a) (Fin b) = fl (a + b)"
| "fadd NaN _ = NaN"
| "fadd _ NaN = NaN"
| "fadd PInf NInf = NaN"
| "fadd NInf PInf = NaN"
| "fadd PInf _ = PInf"
| "fadd _ PInf = PInf"
| "fadd NInf _ = NInf"
| "fadd _ NInf = NInf"

fun fsub :: "number \<Rightarrow> number \<Rightarrow> number" where
  "fsub (Fin a) (Fin b) = fl (a - b)"
| "fsub NaN _ = NaN"
| "fsub _ NaN = NaN"
| "fsub PInf PInf = NaN"
| "fsub NInf NInf = NaN"
| "fsub PInf _ = PInf"
| "fsub _ NInf = PInf"
| "fsub NInf _ = NInf"
| "fsub _ PInf = NInf"

definition inf_of_sign :: "real \<Rightarrow> number" where
  "inf_of_sign a = (if a = 0 then NaN else if 0 < a then PInf else NInf)"

fun fmul :: "number \<Rightarrow> number \<Rightarrow> number" where
  "fmul (Fin a) (Fin b) = fl (a * b)"
| "fmul NaN _ = NaN"
| "fmul _ NaN = NaN"
| "fmul PInf PInf = PInf"
| "fmul PInf NInf = NInf"
| "fmul NInf PInf = NInf"
| "fmul NInf NInf = PInf"
| "fmul PInf (Fin b) = inf_of_sign b"
| "fmul NInf (Fin b) = inf_of_sign (- b)"
| "fmul (Fin a) PInf = inf_of_sign a"
| "fmul (Fin a) NInf = inf_of_sign (- a)"

text \<open>The comparisons \<open>a < b\<close>, \<open>a <= b\<close> and \<open>a >= b\<close>: false as soon as one side is \<open>NaN\<close>.\<close>

fun flt :: "number \<Rightarrow> number \<Rightarrow> bool" where
  "flt (Fin a) (Fin b) = (a < b)"
| "flt NaN _ = False"
| "flt _ NaN = False"
| "flt NInf NInf = False"
| "flt NInf _ = True"
| "flt PInf _ = False"
| "flt _ PInf = True"
| "flt _ NInf = False"

fun fle :: "number \<Rightarrow> number \<Rightarrow> bool" where
  "fle (Fin a) (Fin b) = (a \<le> b)"
| "fle NaN _ = False"
| "fle _ NaN = False"
| "fle NInf _ = True"
| "fle _ PInf = True"
| "fle PInf _ = False"
| "fle _ NInf = False"

definition fge :: "number \<Rightarrow> number \<Rightarrow> bool" where
  "fge a b = fle b a"

text \<open>
  A property that is absent reads as \<open>undefined\<close>, modelled by \<open>None\<close>.
  In arithmetic and in the global \<open>isNaN\<close>, \<open>undefined\<close> converts to \<open>NaN\<close>.
\<close>

fun ToNumber :: "number option \<Rightarrow> number" where
  "ToNumber None = NaN"
| "ToNumber (Some a) = a"

definition isNaN :: "number option \<Rightarrow> bool" where
  "isNaN v = (ToNumber v = NaN)"

text \<open>A loop counter or an array index, as a number.\<close>

definition num_of_nat :: "nat \<Rightarrow> number" where
  "num_of_nat i = fl (real i)"

text \<open>
  The parts of \<open>Math\<close> that the driver uses.  \<open>Math.PI\<close> is the binary64 value
  \<open>0x400921FB54442D18\<close>, and \<open>Math.sqrt\<close> is the correctly rounded square root
  of IEEE 754.
\<close>

definition Math_PI :: number where
  "Math_PI = Fin (884279719003555 / 2 ^ 48)"

fun Math_sqrt :: "number \<Rightarrow> number" where
  "Math_sqrt (Fin a) = (if a < 0 then NaN else fl (sqrt a))"
| "Math_sqrt PInf = PInf"
| "Math_sqrt _ = NaN"

text \<open>
  ECMAScript leaves the precision of \<open>Math.cos\<close>, \<open>Math.sin\<close> and \<open>Math.pow\<close> to
  the engine that runs the program, and engines differ in the last bit.  The
  three functions are therefore given with the engine, which every definition
  that calls one of them takes as its first argument.
\<close>

record engine =
  Math_cos :: "number \<Rightarrow> number"
  Math_sin :: "number \<Rightarrow> number"
  Math_pow :: "number \<Rightarrow> number \<Rightarrow> number"

section \<open>Nodes\<close>

text \<open>
  \<open>SimulationNodeDatum\<close> of \<^verbatim>\<open>src/util.ts\<close>: every property is optional.
  For \<open>fx\<close> and \<open>fy\<close> the driver tests \<open>!= null\<close>, which \<open>null\<close> and \<open>undefined\<close>
  both fail, so \<open>None\<close> stands for the two of them.
\<close>

record node =
  node_index :: "number option"
  node_x :: "number option"
  node_y :: "number option"
  node_vx :: "number option"
  node_vy :: "number option"
  node_fx :: "number option"
  node_fy :: "number option"

definition initialRadius :: number where
  "initialRadius = Fin 10"

definition initialAngle :: number where
  "initialAngle = fmul Math_PI (fsub (Fin 3) (Math_sqrt (Fin 5)))"

text \<open>The body of the loop of \<open>initializeNodes\<close>, for the node at index \<open>i\<close>.\<close>

definition snap_fixed :: "node \<Rightarrow> node" where
  "snap_fixed nd =
     (let nd1 = (case node_fx nd of None \<Rightarrow> nd | Some f \<Rightarrow> nd\<lparr>node_x := Some f\<rparr>)
      in (case node_fy nd1 of None \<Rightarrow> nd1 | Some f \<Rightarrow> nd1\<lparr>node_y := Some f\<rparr>))"

definition phyllotaxis_x :: "engine \<Rightarrow> nat \<Rightarrow> number" where
  "phyllotaxis_x M i =
     (let radius = fmul initialRadius (Math_sqrt (fadd (Fin (1 / 2)) (num_of_nat i)));
          angle = fmul (num_of_nat i) initialAngle
      in fmul radius (Math_cos M angle))"

definition phyllotaxis_y :: "engine \<Rightarrow> nat \<Rightarrow> number" where
  "phyllotaxis_y M i =
     (let radius = fmul initialRadius (Math_sqrt (fadd (Fin (1 / 2)) (num_of_nat i)));
          angle = fmul (num_of_nat i) initialAngle
      in fmul radius (Math_sin M angle))"

definition initializeNode :: "engine \<Rightarrow> nat \<Rightarrow> node \<Rightarrow> node" where
  "initializeNode M i nd0 =
     (let nd = nd0\<lparr>node_index := Some (num_of_nat i)\<rparr>;
          nd = snap_fixed nd;
          nd = (if isNaN (node_x nd) \<or> isNaN (node_y nd)
                then nd\<lparr>node_x := Some (phyllotaxis_x M i), node_y := Some (phyllotaxis_y M i)\<rparr>
                else nd);
          nd = (if isNaN (node_vx nd) \<or> isNaN (node_vy nd)
                then nd\<lparr>node_vy := Some (Fin 0), node_vx := Some (Fin 0)\<rparr>
                else nd)
      in nd)"

text \<open>The loop itself: \<open>for (let i = 0; i < nodes.length; ++i)\<close>, from index \<open>i\<close> on.\<close>

function initializeNodes_from :: "engine \<Rightarrow> nat \<Rightarrow> node list \<Rightarrow> node list" where
  "initializeNodes_from M i nodes =
     (if i < length nodes
      then initializeNodes_from M (Suc i) (nodes[i := initializeNode M i (nodes ! i)])
      else nodes)"
  by pat_completeness auto
termination
  by (relation "measure (\<lambda>(M, i, nodes). length nodes - i)") auto

declare initializeNodes_from.simps [simp del]

definition initializeNodes_array :: "engine \<Rightarrow> node list \<Rightarrow> node list" where
  "initializeNodes_array M nodes = initializeNodes_from M 0 nodes"

section \<open>The property decorator\<close>

text \<open>
  \<open>property\<close> of \<^verbatim>\<open>src/util.ts\<close> turns a private field into a method that reads
  the field when called with no argument and writes it when called with one.
  The private field \<open>self[privateKey]\<close> is given by a function that reads it and
  one that writes it.  A call that throws is a value: \<open>Throw e self\<close> holds the
  error and the object as the call left it; \<open>Normal self\<close> is a call that returned
  the object.  (The message of the error also prints the refused value.  No
  property of the driver passes \<open>onGet\<close>.)
\<close>

datatype error = InvalidValue string | TypeError

datatype 's completion = Normal 's | Throw error 's

record ('s, 't) property_options =
  onSet :: "('s \<Rightarrow> 't \<Rightarrow> 't \<Rightarrow> 's) option"
  validator :: "('t \<Rightarrow> bool) option"
  transform :: "('t \<Rightarrow> 't) option"

definition property_get :: "('s, 't) property_options \<Rightarrow> ('s \<Rightarrow> 't) \<Rightarrow> 's \<Rightarrow> 't" where
  "property_get opts rd self =
     (let currentValue = rd self
      in case transform opts of Some t \<Rightarrow> t currentValue | None \<Rightarrow> currentValue)"

definition property_set ::
  "('s, 't) property_options \<Rightarrow> string \<Rightarrow> ('s \<Rightarrow> 't) \<Rightarrow> ('t \<Rightarrow> 's \<Rightarrow> 's) \<Rightarrow> 's \<Rightarrow> 't \<Rightarrow> 's completion" where
  "property_set opts name rd wr self v =
     (if (case validator opts of Some ok \<Rightarrow> \<not> ok v | None \<Rightarrow> False)
      then Throw (InvalidValue name) self
      else
        let newValue = (case transform opts of Some t \<Rightarrow> t v | None \<Rightarrow> v);
            oldValue = rd self;
            self1 = wr newValue self
        in Normal (case onSet opts of Some h \<Rightarrow> h self1 oldValue newValue | None \<Rightarrow> self1))"

section \<open>Forces and the simulation\<close>

text \<open>
  \<open>Force\<close> of \<^verbatim>\<open>src/force.d.ts\<close>: a function of \<open>alpha\<close> that modifies the nodes,
  with an optional \<open>initialize\<close> that receives the array of nodes and the random
  source.  A force is a closure: what it keeps between calls (and the state of
  the random source it draws from) is the component \<open>'e\<close> of the simulation,
  which a call may change together with the nodes.  The nodes are the shared
  array that the simulation holds.  The random source itself is a value of
  type \<open>'r\<close>.  \<open>initialize\<close> reads the nodes and updates what the force
  keeps; it leaves the nodes as they are, as the forces of the library do.
\<close>

record ('e, 'r) force =
  call :: "number \<Rightarrow> 'e \<Rightarrow> node list \<Rightarrow> 'e \<times> node list"
  initialize :: "(node list \<Rightarrow> 'r \<Rightarrow> 'e \<Rightarrow> 'e) option"

text \<open>
  A JavaScript \<open>Map\<close> keeps its entries in insertion order: \<open>set\<close> on a key
  that is present replaces the value in place, on a new key it appends;
  \<open>forEach\<close> visits the entries from the first to the last.
\<close>

fun Map_get :: "('k \<times> 'v) list \<Rightarrow> 'k \<Rightarrow> 'v option" where
  "Map_get [] k = None"
| "Map_get ((k', v') # m) k = (if k' = k then Some v' else Map_get m k)"

fun Map_set :: "('k \<times> 'v) list \<Rightarrow> 'k \<Rightarrow> 'v \<Rightarrow> ('k \<times> 'v) list" where
  "Map_set [] k v = [(k, v)]"
| "Map_set ((k', v') # m) k v = (if k' = k then (k, v) # m else (k', v') # Map_set m k v)"

fun Map_delete :: "('k \<times> 'v) list \<Rightarrow> 'k \<Rightarrow> ('k \<times> 'v) list" where
  "Map_delete [] k = []"
| "Map_delete ((k', v') # m) k = (if k' = k then Map_delete m k else (k', v') # Map_delete m k)"

text \<open>
  The fields of \<open>Simulation\<close>.  The timer and the event dispatcher are
  collaborators outside the driver and are left out.
\<close>

record ('e, 'r) simulation =
  priv_alpha :: number
  priv_alphaMin :: number
  priv_alphaDecay :: number
  priv_alphaTarget :: number
  priv_velocityDecay :: number
  priv_nodes :: "node list"
  priv_randomSource :: 'r
  forces :: "(string \<times> ('e, 'r) force) list"
  force_state :: 'e

text \<open>
  A new simulation.  The default random source \<open>lcg()\<close> is defined outside
  \<^verbatim>\<open>src/simulation.ts\<close>; it and the initial state of the closures are parameters.
  The default of \<open>alphaDecay\<close> is computed with the \<open>Math.pow\<close> of the engine.
\<close>

definition new_Simulation :: "engine \<Rightarrow> 'r \<Rightarrow> 'e \<Rightarrow> ('e, 'r) simulation" where
  "new_Simulation M lcg e =
     \<lparr> priv_alpha = Fin 1,
       priv_alphaMin = fl (1 / 1000),
       priv_alphaDecay = fsub (Fin 1) (Math_pow M (fl (1 / 1000)) (fl (1 / 300))),
       priv_alphaTarget = Fin 0,
       priv_velocityDecay = fl (6 / 10),
       priv_nodes = [],
       priv_randomSource = lcg,
       forces = [],
       force_state = e \<rparr>"

definition initializeNodes :: "engine \<Rightarrow> ('e, 'r) simulation \<Rightarrow> ('e, 'r) simulation" where
  "initializeNodes M self = self\<lparr>priv_nodes := initializeNodes_array M (priv_nodes self)\<rparr>"

definition initializeForce :: "('e, 'r) simulation \<Rightarrow> ('e, 'r) force \<Rightarrow> ('e, 'r) simulation" where
  "initializeForce self f =
     (case initialize f of
        Some init \<Rightarrow> self\<lparr>force_state := init (priv_nodes self) (priv_randomSource self) (force_state self)\<rparr>
      | None \<Rightarrow> self)"

fun forEach_initializeForce ::
  "(string \<times> ('e, 'r) force) list \<Rightarrow> ('e, 'r) simulation \<Rightarrow> ('e, 'r) simulation" where
  "forEach_initializeForce [] self = self"
| "forEach_initializeForce ((name, f) # m) self = forEach_initializeForce m (initializeForce self f)"

text \<open>The validator of the five scalar parameters: \<open>value >= 0 && value <= 1\<close>.\<close>

definition in_unit_interval :: "number \<Rightarrow> bool" where
  "in_unit_interval v = (fge v (Fin 0) \<and> fle v (Fin 1))"

definition scalar_options :: "(('e, 'r) simulation, number) property_options" where
  "scalar_options = \<lparr> onSet = None, validator = Some in_unit_interval, transform = None \<rparr>"

definition velocityDecay_options :: "(('e, 'r) simulation, number) property_options" where
  "velocityDecay_options =
     \<lparr> onSet = None, validator = Some in_unit_interval, transform = Some (\<lambda>v. fsub (Fin 1) v) \<rparr>"

definition nodes_options :: "engine \<Rightarrow> (('e, 'r) simulation, node list) property_options" where
  "nodes_options M =
     \<lparr> onSet = Some (\<lambda>self oldValue newValue.
                   let self1 = initializeNodes M self in forEach_initializeForce (forces self1) self1),
       validator = None, transform = None \<rparr>"

definition randomSource_options :: "(('e, 'r) simulation, 'r) property_options" where
  "randomSource_options = \<lparr> onSet = None, validator = None, transform = None \<rparr>"

text \<open>Each decorated field, called with no argument (\<open>_get\<close>) and with one (\<open>_set\<close>).\<close>

definition alpha_get :: "('e, 'r) simulation \<Rightarrow> number" where
  "alpha_get = property_get scalar_options priv_alpha"

definition alpha_set :: "('e, 'r) simulation \<Rightarrow> number \<Rightarrow> ('e, 'r) simulation completion" where
  "alpha_set = property_set scalar_options ''alpha'' priv_alpha (\<lambda>v self. self\<lparr>priv_alpha := v\<rparr>)"

definition alphaMin_get :: "('e, 'r) simulation \<Rightarrow> number" where
  "alphaMin_get = property_get scalar_options priv_alphaMin"

definition alphaMin_set :: "('e, 'r) simulation \<Rightarrow> number \<Rightarrow> ('e, 'r) simulation completion" where
  "alphaMin_set =
     property_set scalar_options ''alphaMin'' priv_alphaMin (\<lambda>v self. self\<lparr>priv_alphaMin := v\<rparr>)"

definition alphaDecay_get :: "('e, 'r) simulation \<Rightarrow> number" where
  "alphaDecay_get = property_get scalar_options priv_alphaDecay"

definition alphaDecay_set :: "('e, 'r) simulation \<Rightarrow> number \<Rightarrow> ('e, 'r) simulation completion" where
  "alphaDecay_set =
     property_set scalar_options ''alphaDecay'' priv_alphaDecay (\<lambda>v self. self\<lparr>priv_alphaDecay := v\<rparr>)"

definition alphaTarget_get :: "('e, 'r) simulation \<Rightarrow> number" where
  "alphaTarget_get = property_get scalar_options priv_alphaTarget"

definition alphaTarget_set :: "('e, 'r) simulation \<Rightarrow> number \<Rightarrow> ('e, 'r) simulation completion" where
  "alphaTarget_set =
     property_set scalar_options ''alphaTarget'' priv_alphaTarget (\<lambda>v self. self\<lparr>priv_alphaTarget := v\<rparr>)"

definition velocityDecay_get :: "('e, 'r) simulation \<Rightarrow> number" where
  "velocityDecay_get = property_get velocityDecay_options priv_velocityDecay"

definition velocityDecay_set :: "('e, 'r) simulation \<Rightarrow> number \<Rightarrow> ('e, 'r) simulation completion" where
  "velocityDecay_set =
     property_set velocityDecay_options ''velocityDecay'' priv_velocityDecay
       (\<lambda>v self. self\<lparr>priv_velocityDecay := v\<rparr>)"

definition nodes_get :: "engine \<Rightarrow> ('e, 'r) simulation \<Rightarrow> node list" where
  "nodes_get M = property_get (nodes_options M) priv_nodes"

definition nodes_set ::
  "engine \<Rightarrow> ('e, 'r) simulation \<Rightarrow> node list \<Rightarrow> ('e, 'r) simulation completion" where
  "nodes_set M =
     property_set (nodes_options M) ''nodes'' priv_nodes (\<lambda>v self. self\<lparr>priv_nodes := v\<rparr>)"

definition randomSource_get :: "('e, 'r) simulation \<Rightarrow> 'r" where
  "randomSource_get = property_get randomSource_options priv_randomSource"

definition randomSource_set :: "('e, 'r) simulation \<Rightarrow> 'r \<Rightarrow> ('e, 'r) simulation completion" where
  "randomSource_set =
     property_set randomSource_options ''randomSource'' priv_randomSource
       (\<lambda>v self. self\<lparr>priv_randomSource := v\<rparr>)"

text \<open>
  \<open>force(name)\<close> and \<open>force(name, force)\<close>.  The second argument is \<open>None\<close> when
  the call has one argument, \<open>Some None\<close> for \<open>null\<close> (or any falsy value) and
  \<open>Some (Some f)\<close> for a force.  The method returns the simulation or the force
  found; \<open>Found None\<close> is \<open>undefined\<close>.
\<close>

datatype ('e, 'r) force_result = This "('e, 'r) simulation" | Found "('e, 'r) force option"

definition force ::
  "('e, 'r) simulation \<Rightarrow> string \<Rightarrow> ('e, 'r) force option option \<Rightarrow> ('e, 'r) force_result" where
  "force self name arg =
     (case arg of
        Some None \<Rightarrow> This (self\<lparr>forces := Map_delete (forces self) name\<rparr>)
      | Some (Some f) \<Rightarrow>
          (let self1 = initializeForce self f
           in This (self1\<lparr>forces := Map_set (forces self1) name f\<rparr>))
      | None \<Rightarrow> Found (Map_get (forces self) name))"

section \<open>tick\<close>

text \<open>
  The body of the inner loop of \<open>tick\<close> for one node.  In
  \<open>node.x += node.vx *= velocityDecay\<close> the old \<open>node.x\<close> is read first, then the
  velocity is scaled and stored, then the sum is stored.
\<close>

definition step_x :: "number \<Rightarrow> node \<Rightarrow> node" where
  "step_x velocityDecay nd =
     (case node_fx nd of
        None \<Rightarrow>
          (let v = fmul (ToNumber (node_vx nd)) velocityDecay
           in nd\<lparr>node_vx := Some v, node_x := Some (fadd (ToNumber (node_x nd)) v)\<rparr>)
      | Some f \<Rightarrow> nd\<lparr>node_x := Some f, node_vx := Some (Fin 0)\<rparr>)"

definition step_y :: "number \<Rightarrow> node \<Rightarrow> node" where
  "step_y velocityDecay nd =
     (case node_fy nd of
        None \<Rightarrow>
          (let v = fmul (ToNumber (node_vy nd)) velocityDecay
           in nd\<lparr>node_vy := Some v, node_y := Some (fadd (ToNumber (node_y nd)) v)\<rparr>)
      | Some f \<Rightarrow> nd\<lparr>node_y := Some f, node_vy := Some (Fin 0)\<rparr>)"

definition step_node :: "number \<Rightarrow> node \<Rightarrow> node" where
  "step_node velocityDecay nd = step_y velocityDecay (step_x velocityDecay nd)"

text \<open>
  \<open>for (let i = 0; i < n; ++i)\<close>, from index \<open>i\<close> on.  The bound \<open>n\<close> is the length
  that \<open>tick\<close> read before its first iteration.  Where the array has become
  shorter, \<open>this._nodes[i]\<close> is \<open>undefined\<close> and reading its \<open>fx\<close> throws a
  \<open>TypeError\<close>.
\<close>

function tick_nodes ::
  "nat \<Rightarrow> nat \<Rightarrow> ('e, 'r) simulation \<Rightarrow> ('e, 'r) simulation completion" where
  "tick_nodes i n self =
     (if i < n
      then (if i < length (priv_nodes self)
            then tick_nodes (Suc i) n
                   (self\<lparr>priv_nodes :=
                      (priv_nodes self)[i := step_node (priv_velocityDecay self) (priv_nodes self ! i)]\<rparr>)
            else Throw TypeError self)
      else Normal self)"
  by pat_completeness auto
termination
  by (relation "measure (\<lambda>(i, n, self). n - i)") auto

declare tick_nodes.simps [simp del]

text \<open>\<open>this.forces.forEach((force) => { force(this._alpha); })\<close>\<close>

fun forEach_force ::
  "(string \<times> ('e, 'r) force) list \<Rightarrow> ('e, 'r) simulation \<Rightarrow> ('e, 'r) simulation" where
  "forEach_force [] self = self"
| "forEach_force ((name, f) # m) self =
     forEach_force m
       (case call f (priv_alpha self) (force_state self) (priv_nodes self) of
          (e, nodes) \<Rightarrow> self\<lparr>force_state := e, priv_nodes := nodes\<rparr>)"

text \<open>One iteration of the outer loop of \<open>tick\<close>.\<close>

definition tick_iteration :: "nat \<Rightarrow> ('e, 'r) simulation \<Rightarrow> ('e, 'r) simulation completion" where
  "tick_iteration n self =
     (let self1 = self\<lparr>priv_alpha :=
                    fadd (priv_alpha self)
                      (fmul (fsub (priv_alphaTarget self) (priv_alpha self)) (priv_alphaDecay self))\<rparr>;
          self2 = forEach_force (forces self1) self1
      in tick_nodes 0 n self2)"

fun tick_loop :: "nat \<Rightarrow> nat \<Rightarrow> ('e, 'r) simulation \<Rightarrow> ('e, 'r) simulation completion" where
  "tick_loop 0 n self = Normal self"
| "tick_loop (Suc k) n self =
     (case tick_iteration n self of
        Normal self1 \<Rightarrow> tick_loop k n self1
      | Throw e self1 \<Rightarrow> Throw e self1)"

text \<open>\<open>tick(iterations?)\<close>: \<open>None\<close> is the call with no argument.\<close>

definition tick :: "('e, 'r) simulation \<Rightarrow> nat option \<Rightarrow> ('e, 'r) simulation completion" where
  "tick self iterations =
     (let n = length (priv_nodes self);
          iterations = (case iterations of None \<Rightarrow> 1 | Some k \<Rightarrow> k)
      in tick_loop iterations n self)"

section \<open>find\<close>

text \<open>
  The loop of \<open>find\<close> over the nodes that remain, with the closest node so far
  and the squared radius it has to beat.
\<close>

definition distance2 :: "number \<Rightarrow> number \<Rightarrow> node \<Rightarrow> number" where
  "distance2 qx qy nd =
     (let dx = fsub qx (ToNumber (node_x nd));
          dy = fsub qy (ToNumber (node_y nd))
      in fadd (fmul dx dx) (fmul dy dy))"

fun find_loop ::
  "number \<Rightarrow> number \<Rightarrow> node list \<Rightarrow> node option \<times> number \<Rightarrow> node option \<times> number" where
  "find_loop qx qy [] (closest, radius) = (closest, radius)"
| "find_loop qx qy (nd # rest) (closest, radius) =
     (let d2 = distance2 qx qy nd
      in if flt d2 radius then find_loop qx qy rest (Some nd, d2)
         else find_loop qx qy rest (closest, radius))"

definition find ::
  "('e, 'r) simulation \<Rightarrow> number \<Rightarrow> number \<Rightarrow> number option \<Rightarrow> node option" where
  "find self qx qy radius =
     (let radius = (case radius of None \<Rightarrow> PInf | Some r \<Rightarrow> fmul r r)
      in fst (find_loop qx qy (priv_nodes self) (None, radius)))"

text \<open>\<open>forceSimulation(nodesData?)\<close>\<close>

definition forceSimulation ::
  "engine \<Rightarrow> 'r \<Rightarrow> 'e \<Rightarrow> node list option \<Rightarrow> ('e, 'r) simulation completion" where
  "forceSimulation M lcg e nodesData =
     nodes_set M (new_Simulation M lcg e) (case nodesData of None \<Rightarrow> [] | Some a \<Rightarrow> a)"

section \<open>Notions of the specification\<close>

text \<open>
  The specification leaves the mutation of the set of nodes during a tick out
  of its scope, and \<open>simulation.nodes\<close> asks to be called again when nodes are
  added or removed.  A force within that scope changes the nodes it is given and
  not their number.
\<close>

definition keeps_length :: "('e, 'r) force \<Rightarrow> bool" where
  "keeps_length f = (\<forall>a e nodes. length (snd (call f a e nodes)) = length nodes)"

text \<open>A node honours its fixed position: \<open>x\<close> is \<open>fx\<close> and \<open>vx\<close> is zero where \<open>fx\<close> is defined, and the same for \<open>y\<close>.\<close>

definition fixed_snapped :: "node \<Rightarrow> bool" where
  "fixed_snapped nd =
     ((case node_fx nd of None \<Rightarrow> True
       | Some f \<Rightarrow> node_x nd = Some f \<and> node_vx nd = Some (Fin 0)) \<and>
      (case node_fy nd of None \<Rightarrow> True
       | Some f \<Rightarrow> node_y nd = Some f \<and> node_vy nd = Some (Fin 0)))"

text \<open>
  One iteration of \<open>tick\<close> in the words of the specification: the new alpha;
  then every registered force, in the order of the force map, called with the new
  alpha; then the integration of every node.
\<close>

definition spec_alpha :: "('e, 'r) simulation \<Rightarrow> number" where
  "spec_alpha self =
     fadd (priv_alpha self) (fmul (fsub (priv_alphaTarget self) (priv_alpha self)) (priv_alphaDecay self))"

definition spec_forces ::
  "number \<Rightarrow> (string \<times> ('e, 'r) force) list \<Rightarrow> 'e \<times> node list \<Rightarrow> 'e \<times> node list" where
  "spec_forces a m start = foldl (\<lambda>(e, nodes) (name, f). call f a e nodes) start m"

definition spec_integrate :: "number \<Rightarrow> node \<Rightarrow> node" where
  "spec_integrate d nd =
     nd\<lparr> node_vx := Some (case node_fx nd of None \<Rightarrow> fmul (ToNumber (node_vx nd)) d | Some f \<Rightarrow> Fin 0),
         node_x := Some (case node_fx nd of
                           None \<Rightarrow> fadd (ToNumber (node_x nd)) (fmul (ToNumber (node_vx nd)) d)
                         | Some f \<Rightarrow> f),
         node_vy := Some (case node_fy nd of None \<Rightarrow> fmul (ToNumber (node_vy nd)) d | Some f \<Rightarrow> Fin 0),
         node_y := Some (case node_fy nd of
                           None \<Rightarrow> fadd (ToNumber (node_y nd)) (fmul (ToNumber (node_vy nd)) d)
                         | Some f \<Rightarrow> f) \<rparr>"

definition spec_tick :: "('e, 'r) simulation \<Rightarrow> ('e, 'r) simulation" where
  "spec_tick self =
     (let a = spec_alpha self;
          (e, nodes) = spec_forces a (forces self) (force_state self, priv_nodes self)
      in self\<lparr> priv_alpha := a, force_state := e,
               priv_nodes := map (spec_integrate (priv_velocityDecay self)) nodes \<rparr>)"

text \<open>\<open>tick(1)\<close> called \<open>k\<close> times; a call that throws ends the sequence.\<close>

fun tick_times :: "nat \<Rightarrow> ('e, 'r) simulation \<Rightarrow> ('e, 'r) simulation completion" where
  "tick_times 0 self = Normal self"
| "tick_times (Suc k) self =
     (case tick self (Some 1) of
        Normal self1 \<Rightarrow> tick_times k self1
      | Throw e self1 \<Rightarrow> Throw e self1)"

text \<open>A number of the interval \<open>[0, 1]\<close>.\<close>

definition within_0_1 :: "number \<Rightarrow> bool" where
  "within_0_1 v = (case v of Fin a \<Rightarrow> 0 \<le> a \<and> a \<le> 1 | _ \<Rightarrow> False)"

text \<open>
  What the test \<open>isNaN(node.x) || isNaN(node.y)\<close> of \<open>initializeNodes\<close> reads: the
  coordinate of the node as it was given, or the fixed coordinate where one is
  defined.
\<close>

definition given_x :: "node \<Rightarrow> number option" where
  "given_x nd = (case node_fx nd of None \<Rightarrow> node_x nd | Some f \<Rightarrow> Some f)"

definition given_y :: "node \<Rightarrow> number option" where
  "given_y nd = (case node_fy nd of None \<Rightarrow> node_y nd | Some f \<Rightarrow> Some f)"

definition is_finite :: "number option \<Rightarrow> bool" where
  "is_finite v = (case v of Some (Fin a) \<Rightarrow> True | _ \<Rightarrow> False)"

definition is_infinite :: "number option \<Rightarrow> bool" where
  "is_infinite v = (v = Some PInf \<or> v = Some NInf)"

text \<open>The nodes of the simulation that a call returned; no node when it threw.\<close>

definition returned_nodes :: "('e, 'r) simulation completion \<Rightarrow> node list" where
  "returned_nodes c = (case c of Normal self \<Rightarrow> priv_nodes self | Throw e self \<Rightarrow> [])"

text \<open>
  An engine whose cosine and sine of a finite binary64 value (a value that
  rounding leaves as it is) are finite numbers within \<open>2 ^ - 52\<close> of the exact
  value, which is twice the unit in the last place of a value between \<open>1 / 2\<close>
  and \<open>1\<close>.  Nothing is asked of its \<open>Math.pow\<close>, nor of the last bits of its
  cosine and sine.
\<close>

definition accurate :: "engine \<Rightarrow> bool" where
  "accurate M =
     (\<forall>a. fl a = Fin a \<longrightarrow>
          (\<exists>c. Math_cos M (Fin a) = Fin c \<and> \<bar>c - cos a\<bar> \<le> 1 / 2 ^ 52) \<and>
          (\<exists>s. Math_sin M (Fin a) = Fin s \<and> \<bar>s - sin a\<bar> \<le> 1 / 2 ^ 52))"

text \<open>A number within a tolerance of a real value.\<close>

definition close_to :: "real \<Rightarrow> real \<Rightarrow> number option \<Rightarrow> bool" where
  "close_to tol expected v = (case v of Some (Fin a) \<Rightarrow> \<bar>a - expected\<bar> \<le> tol | _ \<Rightarrow> False)"

text \<open>
  The phyllotaxis position of the specification, in real numbers:
  \<open>(R cos t, R sin t)\<close> with \<open>R = 10 sqrt (0.5 + i)\<close> and \<open>t = i pi (3 - sqrt 5)\<close>.
\<close>

definition spec_radius :: "nat \<Rightarrow> real" where
  "spec_radius i = 10 * sqrt (1 / 2 + real i)"

definition spec_angle :: "nat \<Rightarrow> real" where
  "spec_angle i = real i * (pi * (3 - sqrt 5))"

definition spec_phyllotaxis :: "nat \<Rightarrow> real \<times> real" where
  "spec_phyllotaxis i = (spec_radius i * cos (spec_angle i), spec_radius i * sin (spec_angle i))"

text \<open>
  A node placed at the phyllotaxis position of the index \<open>i\<close>: each coordinate
  is a finite number within \<open>R (i + 1) / 2 ^ 48\<close> of the coordinate of the
  specification.  The bound covers the rounding of the operations and the error
  of the engine; for the first three indices it is below \<open>2 / 10 ^ 13\<close>.
\<close>

definition phyllotaxis_tolerance :: "nat \<Rightarrow> real" where
  "phyllotaxis_tolerance i = spec_radius i * real (i + 1) / 2 ^ 48"

definition at_phyllotaxis :: "nat \<Rightarrow> node \<Rightarrow> bool" where
  "at_phyllotaxis i nd =
     (close_to (phyllotaxis_tolerance i) (fst (spec_phyllotaxis i)) (node_x nd) \<and>
      close_to (phyllotaxis_tolerance i) (snd (spec_phyllotaxis i)) (node_y nd))"


section \<open>Example simulations\<close>

text \<open>
  An engine for the examples: its \<open>Math.cos\<close>, \<open>Math.sin\<close> and \<open>Math.pow\<close> round
  the exact value to the nearest binary64 value.
\<close>

definition rounding_engine :: engine where
  "rounding_engine =
     \<lparr> Math_cos = (\<lambda>v. case v of Fin a \<Rightarrow> fl (cos a) | _ \<Rightarrow> NaN),
       Math_sin = (\<lambda>v. case v of Fin a \<Rightarrow> fl (sin a) | _ \<Rightarrow> NaN),
       Math_pow = (\<lambda>v w. case (v, w) of
                     (Fin a, Fin b) \<Rightarrow> if 0 < a then fl (a powr b) else NaN
                   | _ \<Rightarrow> NaN) \<rparr>"

text \<open>The object \<open>{}\<close>, and nodes given by some of their properties.\<close>

definition empty_node :: node where
  "empty_node =
     \<lparr> node_index = None, node_x = None, node_y = None, node_vx = None, node_vy = None,
       node_fx = None, node_fy = None \<rparr>"

definition free_node :: node where
  "free_node =
     empty_node\<lparr> node_x := Some (Fin 0), node_y := Some (Fin 0),
                 node_vx := Some (Fin 0), node_vy := Some (Fin 0) \<rparr>"

definition pinned_node :: node where
  "pinned_node =
     empty_node\<lparr> node_x := Some (Fin 5), node_y := Some (Fin 5),
                 node_vx := Some (Fin 3), node_vy := Some (Fin 3),
                 node_fx := Some (Fin 2), node_fy := Some (Fin 4) \<rparr>"

text \<open>
  Two forces that count their calls in the state of the closures: the first
  sets every \<open>vx\<close> to alpha, the second adds one to every \<open>vx\<close>.
\<close>

definition set_vx_force :: "(nat, unit) force" where
  "set_vx_force =
     \<lparr> call = (\<lambda>a e nodes. (Suc e, map (\<lambda>nd. nd\<lparr>node_vx := Some a\<rparr>) nodes)),
       initialize = None \<rparr>"

definition add_vx_force :: "(nat, unit) force" where
  "add_vx_force =
     \<lparr> call = (\<lambda>a e nodes.
                (Suc e, map (\<lambda>nd. nd\<lparr>node_vx := Some (fadd (ToNumber (node_vx nd)) (Fin 1))\<rparr>) nodes)),
       initialize = None \<rparr>"

definition example_simulation :: "(nat, unit) simulation" where
  "example_simulation =
     \<lparr> priv_alpha = Fin 0, priv_alphaMin = Fin 0, priv_alphaDecay = Fin 1, priv_alphaTarget = Fin 1,
       priv_velocityDecay = Fin 1, priv_nodes = [free_node, pinned_node], priv_randomSource = (),
       forces = [(''set'', set_vx_force), (''add'', add_vx_force)], force_state = 0 \<rparr>"

text \<open>A force whose \<open>initialize\<close> adds the number of nodes it receives to the state of the closures.\<close>

definition probe_force :: "(nat, unit) force" where
  "probe_force =
     \<lparr> call = (\<lambda>a e nodes. (e, nodes)),
       initialize = Some (\<lambda>nodes random e. e + length nodes) \<rparr>"

text \<open>The node \<open>{x: 3, vx: 7, vy: NaN}\<close>.\<close>

definition half_given_node :: node where
  "half_given_node =
     empty_node\<lparr> node_x := Some (Fin 3), node_vx := Some (Fin 7), node_vy := Some NaN \<rparr>"

text \<open>The nodes \<open>{x: 5, y: 0}\<close>, \<open>{x: 10, y: 16}\<close> and \<open>{x: -10, y: -4}\<close> of the tests of \<open>find\<close>.\<close>

definition node_a :: node where
  "node_a = empty_node\<lparr> node_x := Some (Fin 5), node_y := Some (Fin 0) \<rparr>"

definition node_b :: node where
  "node_b = empty_node\<lparr> node_x := Some (Fin 10), node_y := Some (Fin 16) \<rparr>"

definition node_c :: node where
  "node_c = empty_node\<lparr> node_x := Some (Fin (- 10)), node_y := Some (Fin (- 4)) \<rparr>"

definition find_simulation :: "(nat, unit) simulation" where
  "find_simulation = example_simulation\<lparr> priv_nodes := [node_a, node_b, node_c], forces := [] \<rparr>"

text \<open>The nodes \<open>{fx: 5}\<close> and \<open>{x: Infinity, y: 0}\<close>.\<close>

definition fixed_x_node :: node where
  "fixed_x_node = empty_node\<lparr> node_fx := Some (Fin 5) \<rparr>"

definition infinite_node :: node where
  "infinite_node = empty_node\<lparr> node_x := Some PInf, node_y := Some (Fin 0) \<rparr>"

text \<open>The node \<open>{x: NaN, y: 1, fx: 0, fy: 0}\<close>.\<close>

definition fixed_NaN_node :: node where
  "fixed_NaN_node =
     empty_node\<lparr> node_x := Some NaN, node_y := Some (Fin 1),
                 node_fx := Some (Fin 0), node_fy := Some (Fin 0) \<rparr>"


section \<open>Taylor polynomials\<close>

text \<open>
  The sum of \<open>d m * a ^ m / m!\<close> over \<open>k \<le> m < n\<close>, divided by \<open>a ^ k / k!\<close>, in
  the form of Horner.  With the signs of the derivatives of the cosine or of the
  sine at zero for \<open>d\<close>, it is the Taylor polynomial that bounds the value of
  \<open>cos\<close> or \<open>sin\<close> below.
\<close>

function horner :: "(nat \<Rightarrow> real) \<Rightarrow> real \<Rightarrow> nat \<Rightarrow> nat \<Rightarrow> real" where
  "horner d a k n = (if n \<le> k then 0 else d k + a / real (Suc k) * horner d a (Suc k) n)"
  by pat_completeness auto
termination
  by (relation "measure (\<lambda>(d, a, k, n). n - k)") auto

declare horner.simps [simp del]

definition cos_d :: "nat \<Rightarrow> real" where
  "cos_d m = (if even m then (- 1) ^ (m div 2) else 0)"

definition sin_d :: "nat \<Rightarrow> real" where
  "sin_d m = (if even m then 0 else (- 1) ^ ((m - Suc 0) div 2))"


section \<open>Rounding\<close>

lemma fl_zero: "fl 0 = Fin 0"
  by (simp add: fl_def)

lemma round_half_even_of_int: "round_half_even (of_int z) = z"
  by (simp add: round_half_even_def)

lemma round_half_even_le: "t \<le> of_int N \<Longrightarrow> round_half_even t \<le> N"
proof -
  assume a: "t \<le> of_int N"
  have f: "\<lfloor>t\<rfloor> \<le> N" using a by (simp add: floor_le_iff) 
  show ?thesis
  proof (cases "\<lfloor>t\<rfloor> = N")
    case True
    then have "t = of_int N" using a by (metis of_int_floor_le order_antisym)
    then show ?thesis by (simp add: round_half_even_of_int)
  next
    case False
    then have "\<lfloor>t\<rfloor> + 1 \<le> N" using f by simp
    then show ?thesis by (auto simp: round_half_even_def Let_def)
  qed
qed

lemma round_half_even_ge: "of_int N \<le> t \<Longrightarrow> N \<le> round_half_even t"
proof -
  assume a: "of_int N \<le> t"
  have f: "N \<le> \<lfloor>t\<rfloor>" using a by (simp add: le_floor_iff)
  then show ?thesis by (auto simp: round_half_even_def Let_def)
qed

lemma round_half_even_abs_le:
  assumes "\<bar>t\<bar> \<le> of_int N"
  shows "\<bar>real_of_int (round_half_even t)\<bar> \<le> of_int N"
proof -
  have "t \<le> of_int N" "of_int (- N) \<le> t" using assms by auto
  then have "round_half_even t \<le> N" "- N \<le> round_half_even t"
    using round_half_even_le round_half_even_ge by blast+
  then have "\<bar>round_half_even t\<bar> \<le> N" by simp
  then show ?thesis by (metis of_int_abs of_int_le_iff)
qed

text \<open>Rounding to the nearest integer, and the rounded square root, by squaring.\<close>

lemma round_half_even_eq:
  assumes "of_int m - 1 / 2 < t" "t < of_int m + 1 / 2"
  shows "round_half_even t = m"
proof (cases "of_int m \<le> t")
  case True
  then have "\<lfloor>t\<rfloor> = m" using assms(2) by (intro floor_unique) auto
  then show ?thesis using assms(2) by (simp add: round_half_even_def Let_def)
next
  case False
  then have "\<lfloor>t\<rfloor> = m - 1" using assms(1) by (intro floor_unique) auto
  then show ?thesis using assms(1) by (simp add: round_half_even_def Let_def)
qed

lemma ulp_exponent_eq:
  assumes "2 ^ 52 \<le> \<bar>a\<bar> / 2 powr of_int e" "\<bar>a\<bar> / 2 powr of_int e < 2 ^ 53" "- 1074 \<le> e"
  shows "ulp_exponent a = e"
proof -
  have p: "(0::real) < 2 powr of_int e" by simp
  have a0: "0 < \<bar>a\<bar>" using assms(1) p
    by (metis abs_ge_zero divide_eq_0_iff less_eq_real_def not_le zero_less_numeral zero_less_power)
  have "(2::real) powr of_int (e + 52) = 2 powr of_int e * 2 ^ 52"
    by (simp add: powr_add)
  then have l: "2 powr of_int (e + 52) \<le> \<bar>a\<bar>"
    using assms(1) p by (simp add: pos_le_divide_eq mult.commute)
  have "(2::real) powr of_int (e + 52 + 1) = 2 powr of_int e * 2 ^ 53"
    by (simp add: powr_add)
  then have u: "\<bar>a\<bar> < 2 powr of_int (e + 52 + 1)"
    using assms(2) p by (simp add: pos_divide_less_eq mult.commute)
  have "\<lfloor>log 2 \<bar>a\<bar>\<rfloor> = e + 52"
    using floor_log_eq_powr_iff[of "\<bar>a\<bar>" 2 "e + 52"] a0 l u by simp
  then show ?thesis using assms(3) by (simp add: ulp_exponent_def)
qed

lemma fl_eval_int:
  assumes "2 ^ 52 \<le> \<bar>a\<bar> / 2 powr of_int e" "\<bar>a\<bar> / 2 powr of_int e < 2 ^ 53" "- 1074 \<le> e" "e \<le> 970"
  shows "fl a = Fin (of_int (round_half_even (a / 2 powr of_int e)) * 2 powr of_int e)"
proof -
  have e: "ulp_exponent a = e" using assms(1-3) by (rule ulp_exponent_eq)
  have p: "(0::real) < 2 powr of_int e" by simp
  have a0: "a \<noteq> 0" using assms(1) by auto
  define t where "t = a / 2 powr of_int e"
  have "\<bar>t\<bar> = \<bar>a\<bar> / 2 powr of_int e" by (simp add: t_def)
  then have "\<bar>t\<bar> \<le> of_int (2 ^ 53)" using assms(2) by simp
  then have "\<bar>real_of_int (round_half_even t)\<bar> \<le> of_int (2 ^ 53)"
    by (rule round_half_even_abs_le)
  then have "\<bar>real_of_int (round_half_even t)\<bar> \<le> 2 ^ 53" by simp
  then have "\<bar>real_of_int (round_half_even t) * 2 powr of_int e\<bar> \<le> 2 ^ 53 * 2 powr of_int e"
    by (simp add: abs_mult)
  also have "\<dots> \<le> 2 ^ 53 * 2 ^ 970"
  proof -
    have "(2::real) powr real_of_int e \<le> 2 powr real_of_int 970"
      by (rule powr_mono) (use assms(4) in auto)
    moreover have "(2::real) powr real_of_int 970 = 2 ^ 970" by simp
    ultimately show ?thesis by simp
  qed
  also have "\<dots> < 2 ^ 1024" by simp
  finally have "\<not> 2 ^ 1024 \<le> \<bar>real_of_int (round_half_even t) * 2 powr of_int e\<bar>" by simp
  then show ?thesis using a0 e by (simp add: fl_def Let_def t_def)
qed

text \<open>The same for a value below \<open>2 ^ 53\<close>, with the exponent \<open>- k\<close>.\<close>

lemma fl_eval:
  assumes "2 ^ 52 \<le> \<bar>a\<bar> * 2 ^ k" "\<bar>a\<bar> * 2 ^ k < 2 ^ 53" "k \<le> 1074"
  shows "fl a = Fin (of_int (round_half_even (a * 2 ^ k)) / 2 ^ k)"
proof -
  have p: "(2::real) powr - real k = 1 / 2 ^ k"
    by (simp add: powr_minus powr_realpow inverse_eq_divide)
  have "fl a = Fin (of_int (round_half_even (a / 2 powr of_int (- int k))) * 2 powr of_int (- int k))"
    by (rule fl_eval_int) (use assms p in simp_all)
  then show ?thesis by (simp add: p)
qed

text \<open>A value with a 53-bit significand rounds to itself.\<close>

lemma fl_exact:
  assumes "a = of_int m * 2 powr of_int e" "\<bar>m\<bar> < 2 ^ 53" "- 1074 \<le> e" "\<bar>a\<bar> < 2 ^ 1024"
  shows "fl a = Fin a"
proof (cases "a = 0")
  case True
  then show ?thesis by (simp add: fl_def)
next
  case False
  define e' where "e' = ulp_exponent a"
  have m0: "m \<noteq> 0" using False assms(1) by auto
  have a0: "0 < \<bar>a\<bar>" using False by simp
  have "\<bar>a\<bar> = of_int \<bar>m\<bar> * 2 powr of_int e" by (simp add: assms(1) abs_mult)
  also have "\<dots> < 2 ^ 53 * 2 powr of_int e"
  proof -
    have "real_of_int \<bar>m\<bar> < 2 ^ 53" using assms(2) by (metis of_int_less_iff of_int_numeral of_int_power)
    then show ?thesis by simp
  qed
  also have "\<dots> = 2 powr of_int (e + 53)" by (simp add: powr_add)
  finally have "\<bar>a\<bar> < 2 powr of_int (e + 53)" .
  then have "log 2 \<bar>a\<bar> < of_int (e + 53)" using a0 by (simp add: log_less_iff)
  then have "\<lfloor>log 2 \<bar>a\<bar>\<rfloor> < e + 53" by (simp add: floor_less_iff)
  then have le: "e' \<le> e" using assms(3) by (simp add: e'_def ulp_exponent_def)
  define d where "d = nat (e - e')"
  have "(2::real) powr of_int e = 2 powr of_int e' * 2 powr of_int (e - e')"
    by (simp add: powr_add[symmetric])
  also have "(2::real) powr of_int (e - e') = 2 ^ d"
    using le by (simp add: d_def powr_realpow[symmetric])
  finally have pe: "(2::real) powr of_int e = 2 powr of_int e' * 2 ^ d" .
  have "a / 2 powr of_int e' = of_int (m * 2 ^ d)"
    by (simp add: assms(1) pe)
  then have r: "round_half_even (a / 2 powr of_int e') = m * 2 ^ d"
    by (simp only: round_half_even_of_int)
  have "of_int (m * 2 ^ d) * 2 powr of_int e' = a"
    by (simp add: assms(1) pe)
  then show ?thesis using False assms(4) r
    by (simp add: fl_def Let_def e'_def[symmetric])
qed

text \<open>A value that rounding returns is a binary64 value: rounding it again returns it.\<close>

lemma fl_idem:
  assumes "fl x = Fin r"
  shows "fl r = Fin r"
proof (cases "x = 0")
  case True
  then show ?thesis using assms by (simp add: fl_def)
next
  case False
  define e where "e = ulp_exponent x"
  define t where "t = x / 2 powr of_int e"
  define N where "N = round_half_even t"
  have r: "r = of_int N * 2 powr of_int e" and nov: "\<bar>r\<bar> < 2 ^ 1024"
    using assms False by (simp_all add: fl_def Let_def e_def t_def N_def split: if_splits)
  have e0: "- 1074 \<le> e" by (simp add: e_def ulp_exponent_def)
  have x0: "0 < \<bar>x\<bar>" using False by simp
  have "\<lfloor>log 2 \<bar>x\<bar>\<rfloor> - 52 \<le> e" by (simp add: e_def ulp_exponent_def)
  then have "log 2 \<bar>x\<bar> < of_int (e + 53)" by linarith
  then have "\<bar>x\<bar> < 2 powr of_int (e + 53)" using x0 by (simp add: log_less_iff)
  also have "\<dots> = 2 ^ 53 * 2 powr of_int e" by (simp add: powr_add)
  finally have "\<bar>x\<bar> / 2 powr of_int e < 2 ^ 53" by (simp add: pos_divide_less_eq)
  then have "\<bar>t\<bar> \<le> of_int (2 ^ 53)" by (simp add: t_def)
  then have "\<bar>real_of_int N\<bar> \<le> of_int (2 ^ 53)" unfolding N_def by (rule round_half_even_abs_le)
  then have "real_of_int \<bar>N\<bar> \<le> real_of_int (2 ^ 53)" by simp
  then have N53: "\<bar>N\<bar> \<le> 2 ^ 53" by (simp only: of_int_le_iff)
  show ?thesis
  proof (cases "\<bar>N\<bar> < 2 ^ 53")
    case True
    show ?thesis using r True e0 nov by (rule fl_exact)
  next
    case False
    then have "\<bar>N\<bar> = 2 ^ 53" using N53 by simp
    then consider "N = 2 ^ 53" | "N = - (2 ^ 53)" by (auto simp: abs_if split: if_splits)
    then show ?thesis
    proof cases
      case 1
      have "r = of_int 1 * 2 powr of_int (e + 53)" by (simp add: r 1 powr_add)
      then show ?thesis using _ _ nov by (rule fl_exact) (use e0 in simp_all)
    next
      case 2
      have "r = of_int (- 1) * 2 powr of_int (e + 53)" by (simp add: r 2 powr_add)
      then show ?thesis using _ _ nov by (rule fl_exact) (use e0 in simp_all)
    qed
  qed
qed

lemma fl_of_nat: "n < 2 ^ 53 \<Longrightarrow> fl (real n) = Fin (real n)"
proof -
  assume "n < 2 ^ 53"
  then have "\<bar>int n\<bar> < 2 ^ 53" by (metis abs_of_nat of_nat_less_iff of_nat_numeral of_nat_power)
  moreover have "real n < 2 ^ 1024"
  proof -
    have "real n < 2 ^ 53" using \<open>n < 2 ^ 53\<close>
      by (metis of_nat_less_iff of_nat_numeral of_nat_power)
    moreover have "(2::real) ^ 53 < 2 ^ 1024" by (rule power_strict_increasing) auto
    ultimately show ?thesis by linarith
  qed
  ultimately show ?thesis
    using fl_exact[of "real n" "int n" 0] by simp
qed

lemma fl_of_int: "\<bar>m\<bar> < 2 ^ 53 \<Longrightarrow> fl (of_int m) = Fin (of_int m)"
proof -
  assume m: "\<bar>m\<bar> < 2 ^ 53"
  then have "real_of_int \<bar>m\<bar> < 2 ^ 53" by (metis of_int_less_iff of_int_numeral of_int_power)
  moreover have "(2::real) ^ 53 < 2 ^ 1024" by (rule power_strict_increasing) auto
  ultimately have "\<bar>real_of_int m\<bar> < 2 ^ 1024" by simp
  then show ?thesis using fl_exact[of "of_int m" m 0] m by simp
qed

lemma fl_one: "fl 1 = Fin 1"
  using fl_of_int[of 1] by simp

lemma fl_numeral: "numeral n < (2::int) ^ 53 \<Longrightarrow> fl (numeral n) = Fin (numeral n)"
  using fl_of_int[of "numeral n"] by simp

lemma fl_neg_numeral: "numeral n < (2::int) ^ 53 \<Longrightarrow> fl (- numeral n) = Fin (- numeral n)"
  using fl_of_int[of "- numeral n"] by simp

text \<open>A multiple of \<open>2 ^ - 53\<close> in \<open>[0, 1]\<close> is a binary64 value.\<close>

lemma fl_dyadic53:
  assumes "k \<le> 2 ^ 53"
  shows "fl (real k / 2 ^ 53) = Fin (real k / 2 ^ 53)"
proof (cases "k = 2 ^ 53")
  case True
  then show ?thesis by (simp add: fl_one)
next
  case False
  then have "k < 2 ^ 53" using assms by simp
  then have m: "\<bar>int k\<bar> < 2 ^ 53"
    by (metis abs_of_nat of_nat_less_iff of_nat_numeral of_nat_power)
  have rk: "real k < 2 ^ 53" using \<open>k < 2 ^ 53\<close>
    by (metis of_nat_less_iff of_nat_numeral of_nat_power)
  have p: "(2::real) powr of_int (- 53) = 1 / 2 ^ 53"
    by (simp add: powr_minus inverse_eq_divide)
  have a: "real k / 2 ^ 53 = of_int (int k) * 2 powr of_int (- 53)"
    unfolding p by simp
  have "real k / 2 ^ 53 < 1" using rk by simp
  then have b: "\<bar>real k / 2 ^ 53\<bar> < 2 ^ 1024"
    by (simp add: less_trans[of _ 1])
  show ?thesis using fl_exact[OF a m _ b] by simp
qed

text \<open>Rounding keeps a bound that is a power of two, and the sign.\<close>

lemma fl_bounded:
  assumes "\<bar>a\<bar> \<le> 2 ^ n" "n \<le> 1023"
  shows "\<exists>r. fl a = Fin r \<and> \<bar>r\<bar> \<le> 2 ^ n \<and> (0 \<le> a \<longrightarrow> 0 \<le> r) \<and> (a \<le> 0 \<longrightarrow> r \<le> 0)"
proof (cases "a = 0")
  case True
  then show ?thesis by (simp add: fl_def)
next
  case False
  define e where "e = ulp_exponent a"
  define t where "t = a / 2 powr of_int e"
  define r where "r = real_of_int (round_half_even t) * 2 powr of_int e"
  have a0: "0 < \<bar>a\<bar>" using False by simp
  have "log 2 \<bar>a\<bar> \<le> log 2 (2 ^ n)" using a0 assms(1) by (simp del: log_pow_cancel)
  then have "log 2 \<bar>a\<bar> \<le> real n" by simp
  then have "\<lfloor>log 2 \<bar>a\<bar>\<rfloor> \<le> int n" by (simp add: floor_le_iff)
  then have le: "e \<le> int n" by (simp add: e_def ulp_exponent_def)
  define d where "d = nat (int n - e)"
  have "(2::real) ^ n = 2 powr of_int (int n)" by (simp add: powr_realpow)
  also have "\<dots> = 2 powr of_int e * 2 powr of_int (int n - e)" by (simp add: powr_add[symmetric])
  also have "(2::real) powr of_int (int n - e) = 2 ^ d"
    using le by (simp add: d_def powr_realpow[symmetric])
  finally have pn: "(2::real) ^ n = 2 powr of_int e * 2 ^ d" .
  have "\<bar>t\<bar> = \<bar>a\<bar> / 2 powr of_int e" by (simp add: t_def)
  also have "\<dots> \<le> 2 ^ n / 2 powr of_int e" using assms(1) by (simp add: divide_right_mono)
  also have "\<dots> = of_int (2 ^ d)" by (simp add: pn)
  finally have "\<bar>real_of_int (round_half_even t)\<bar> \<le> of_int (2 ^ d)"
    by (rule round_half_even_abs_le)
  then have "\<bar>r\<bar> \<le> of_int (2 ^ d) * 2 powr of_int e"
    by (simp add: r_def abs_mult)
  then have rb: "\<bar>r\<bar> \<le> 2 ^ n" by (simp add: pn mult.commute)
  have "(2::real) ^ n < 2 ^ 1024" by (rule power_strict_increasing) (use assms(2) in auto)
  then have nov: "\<not> 2 ^ 1024 \<le> \<bar>r\<bar>" using rb by linarith
  have pos: "0 \<le> a \<Longrightarrow> 0 \<le> r"
  proof -
    assume "0 \<le> a"
    then have "of_int 0 \<le> t" by (simp add: t_def)
    then have "0 \<le> round_half_even t" by (rule round_half_even_ge)
    then show ?thesis by (simp add: r_def)
  qed
  have neg: "a \<le> 0 \<Longrightarrow> r \<le> 0"
  proof -
    assume "a \<le> 0"
    then have "t \<le> of_int 0" by (simp add: t_def divide_nonpos_pos)
    then have "round_half_even t \<le> 0" by (rule round_half_even_le)
    then show ?thesis by (simp add: r_def mult_nonpos_nonneg)
  qed
  have "fl a = Fin r" using False nov by (simp add: fl_def Let_def e_def t_def r_def)
  then show ?thesis using rb pos neg by blast
qed

lemma round_half_even_error: "\<bar>real_of_int (round_half_even t) - t\<bar> \<le> 1 / 2"
proof -
  have "of_int \<lfloor>t\<rfloor> \<le> t" "t < of_int \<lfloor>t\<rfloor> + 1" by linarith+
  then show ?thesis by (auto simp: round_half_even_def Let_def)
qed

text \<open>The error of rounding is at most half a unit in the last place.\<close>

lemma fl_error_ulp:
  assumes "\<bar>a\<bar> \<le> 2 ^ n" "n \<le> 1023"
  shows "\<exists>r. fl a = Fin r \<and> \<bar>r - a\<bar> \<le> 2 powr of_int (ulp_exponent a) / 2"
proof (cases "a = 0")
  case True
  then show ?thesis by (simp add: fl_def)
next
  case False
  obtain r where r: "fl a = Fin r" using fl_bounded[OF assms] by blast
  define e where "e = ulp_exponent a"
  define t where "t = a / 2 powr of_int e"
  have rv: "r = real_of_int (round_half_even t) * 2 powr of_int e"
    using r False by (simp add: fl_def Let_def e_def t_def split: if_splits)
  have at: "a = t * 2 powr of_int e" by (simp add: t_def)
  have "\<bar>r - a\<bar> = \<bar>real_of_int (round_half_even t) - t\<bar> * 2 powr of_int e"
    unfolding rv by (subst at) (simp add: abs_mult flip: left_diff_distrib)
  also have "\<dots> \<le> 1 / 2 * 2 powr of_int e"
    by (rule mult_right_mono[OF round_half_even_error]) simp
  finally show ?thesis using r by (simp add: e_def)
qed

text \<open>Away from the subnormal numbers it is at most \<open>2 ^ - 53\<close> of the value.\<close>

lemma fl_error:
  assumes "1 / 2 \<le> \<bar>a\<bar>" "\<bar>a\<bar> \<le> 2 ^ n" "n \<le> 1023"
  shows "\<exists>r. fl a = Fin r \<and> \<bar>r - a\<bar> \<le> \<bar>a\<bar> / 2 ^ 53"
proof -
  obtain r where r: "fl a = Fin r" "\<bar>r - a\<bar> \<le> 2 powr of_int (ulp_exponent a) / 2"
    using fl_error_ulp[OF assms(2,3)] by blast
  have a0: "0 < \<bar>a\<bar>" using assms(1) by simp
  have "log 2 (1 / 2) \<le> log 2 \<bar>a\<bar>" using assms(1) a0 by (subst log_le_cancel_iff) simp_all
  then have "- 1 \<le> log 2 \<bar>a\<bar>" by (simp add: log_divide)
  then have "- 1 \<le> \<lfloor>log 2 \<bar>a\<bar>\<rfloor>" by (simp add: le_floor_iff)
  then have e: "ulp_exponent a = \<lfloor>log 2 \<bar>a\<bar>\<rfloor> - 52" by (simp add: ulp_exponent_def)
  have "2 powr of_int (ulp_exponent a) = 2 powr (of_int \<lfloor>log 2 \<bar>a\<bar>\<rfloor>) / (2::real) powr 52"
    unfolding e by (simp add: powr_diff)
  also have "\<dots> \<le> 2 powr (log 2 \<bar>a\<bar>) / (2::real) powr 52"
    by (rule divide_right_mono) (simp_all add: powr_mono)
  also have "\<dots> = \<bar>a\<bar> / 2 ^ 52" using a0 by (simp add: powr_realpow[symmetric])
  finally have "2 powr of_int (ulp_exponent a) / 2 \<le> \<bar>a\<bar> / 2 ^ 53" by simp
  then show ?thesis using r by fastforce
qed

text \<open>In general it is at most \<open>2 ^ - 53\<close> of the value plus one.\<close>

lemma fl_error_1:
  assumes "\<bar>a\<bar> \<le> 2 ^ n" "n \<le> 1023"
  shows "\<exists>r. fl a = Fin r \<and> \<bar>r - a\<bar> \<le> (\<bar>a\<bar> + 1) / 2 ^ 53"
proof (cases "1 / 2 \<le> \<bar>a\<bar>")
  case True
  from fl_error[OF True assms] obtain r where "fl a = Fin r" "\<bar>r - a\<bar> \<le> \<bar>a\<bar> / 2 ^ 53" by blast
  moreover have "\<bar>a\<bar> / 2 ^ 53 \<le> (\<bar>a\<bar> + 1) / 2 ^ 53" by (simp add: divide_right_mono)
  ultimately show ?thesis by fastforce
next
  case False
  then have a1: "\<bar>a\<bar> \<le> 2 ^ 0" by simp
  obtain r where r: "fl a = Fin r" "\<bar>r - a\<bar> \<le> 2 powr of_int (ulp_exponent a) / 2"
    using fl_error_ulp[OF a1] by auto
  show ?thesis
  proof (cases "a = 0")
    case True
    then show ?thesis by (simp add: fl_def)
  next
    case False
    then have "log 2 \<bar>a\<bar> \<le> log 2 1" using a1 by (subst log_le_cancel_iff) simp_all
    then have "\<lfloor>log 2 \<bar>a\<bar>\<rfloor> \<le> 0" by (simp add: floor_le_iff)
    then have "ulp_exponent a \<le> - 52" by (simp add: ulp_exponent_def)
    then have "2 powr of_int (ulp_exponent a) \<le> (2::real) powr of_int (- 52)"
      by (intro powr_mono) simp_all
    also have "\<dots> = 1 / 2 ^ 52" by (simp add: powr_minus_divide)
    finally have "2 powr of_int (ulp_exponent a) / 2 \<le> (1::real) / 2 ^ 53" by simp
    also have "\<dots> \<le> (\<bar>a\<bar> + 1) / 2 ^ 53" by (simp add: divide_right_mono)
    finally show ?thesis using r by fastforce
  qed
qed

section \<open>Values of rounded operations\<close>

lemma sqrt_4_power: "sqrt (4 ^ n) = 2 ^ n"
proof -
  have "(4::real) ^ n = (2 ^ n)\<^sup>2" by (induction n) (auto simp: power2_eq_square)
  then show ?thesis by simp
qed

lemma fl_sqrt_eval:
  assumes "0 \<le> a"
    and "(of_int m - 1 / 2)\<^sup>2 < a * 4 ^ k" "a * 4 ^ k < (of_int m + 1 / 2)\<^sup>2"
    and "2 ^ 52 < m" "m < 2 ^ 53" "k \<le> 1074"
  shows "fl (sqrt a) = Fin (of_int m / 2 ^ k)"
proof -
  define t where "t = sqrt a * 2 ^ k"
  have t: "t = sqrt (a * 4 ^ k)"
    by (simp add: t_def real_sqrt_mult sqrt_4_power)
  have m0: "(0::real) \<le> of_int m - 1 / 2"
  proof -
    have "1 \<le> m" using assms(4) by simp
    then have "(1::real) \<le> of_int m" by simp
    then show ?thesis by simp
  qed
  have lo: "of_int m - 1 / 2 < t" unfolding t using assms(2) m0 by (intro real_less_rsqrt) 
  have hi: "t < of_int m + 1 / 2" unfolding t using assms(3) m0 by (intro real_less_lsqrt) auto
  have r: "round_half_even t = m" using lo hi by (rule round_half_even_eq)
  have "(2::real) ^ 52 + 1 \<le> of_int m"
  proof -
    have "(2::int) ^ 52 + 1 \<le> m" using assms(4) by simp
    then have "real_of_int (2 ^ 52 + 1) \<le> of_int m" by (simp only: of_int_le_iff)
    then show ?thesis by simp
  qed
  then have l52: "2 ^ 52 \<le> t" using lo by linarith
  have "real_of_int m \<le> 2 ^ 53 - 1"
  proof -
    have "m \<le> 2 ^ 53 - 1" using assms(5) by simp
    then have "real_of_int m \<le> of_int (2 ^ 53 - 1)" by (simp only: of_int_le_iff)
    then show ?thesis by simp
  qed
  then have u53: "t < 2 ^ 53" using hi by linarith
  have "0 \<le> sqrt a" using assms(1) by simp
  then have "\<bar>sqrt a\<bar> * 2 ^ k = t" by (simp add: t_def)
  then show ?thesis
    using fl_eval[of "sqrt a" k] l52 u53 assms(6) r by (simp add: t_def)
qed

lemma fl_sqrt_half: "fl (sqrt (1 / 2)) = Fin (6369051672525773 / 2 ^ 53)"
  using fl_sqrt_eval[of "1 / 2" 6369051672525773 53] by (simp add: power2_eq_square)

lemma fl_tenth: "fl (1 / 10) = Fin (3602879701896397 / 2 ^ 55)"
  by (subst fl_eval[where k = 56]) (simp_all add: round_half_even_def)

lemma fl_six_tenths:
  "fl (6 / 10) = Fin (5404319552844595 / 2 ^ 53)" "fl (3 / 5) = Fin (5404319552844595 / 2 ^ 53)"
  by (subst fl_eval[where k = 53], simp_all add: round_half_even_def)+

lemma fl_four_tenths:
  "fl (4 / 10) = Fin (3602879701896397 / 2 ^ 53)" "fl (2 / 5) = Fin (3602879701896397 / 2 ^ 53)"
  by (subst fl_eval[where k = 54], simp_all add: round_half_even_def)+

lemma num_of_nat_small: "i < 2 ^ 53 \<Longrightarrow> num_of_nat i = Fin (real i)"
  by (simp add: num_of_nat_def fl_of_nat)

section \<open>The loops\<close>

lemma initializeNodes_from_length: "length (initializeNodes_from M i nodes) = length nodes"
proof (induction M i nodes rule: initializeNodes_from.induct)
  case (1 M i nodes)
  show ?case
  proof (cases "i < length nodes")
    case True
    then show ?thesis using 1 by (subst initializeNodes_from.simps) simp
  next
    case False
    then show ?thesis by (subst initializeNodes_from.simps) simp
  qed
qed

lemma initializeNodes_from_nth:
  "j < length nodes \<Longrightarrow>
   initializeNodes_from M i nodes ! j = (if i \<le> j then initializeNode M j (nodes ! j) else nodes ! j)"
proof (induction M i nodes rule: initializeNodes_from.induct)
  case (1 M i nodes)
  show ?case
  proof (cases "i < length nodes")
    case True
    have "initializeNodes_from M i nodes = initializeNodes_from M (Suc i) (nodes[i := initializeNode M i (nodes ! i)])"
      using True by (subst initializeNodes_from.simps) simp
    then show ?thesis using 1(1)[OF True] 1(2) True
      by (cases "i = j") (auto simp: nth_list_update)
  next
    case False
    then show ?thesis using 1(2) by (subst initializeNodes_from.simps) simp
  qed
qed

lemma initializeNodes_array_length: "length (initializeNodes_array M nodes) = length nodes"
  by (simp add: initializeNodes_array_def initializeNodes_from_length)

lemma initializeNodes_array_nth:
  "j < length nodes \<Longrightarrow> initializeNodes_array M nodes ! j = initializeNode M j (nodes ! j)"
  by (simp add: initializeNodes_array_def initializeNodes_from_nth)

lemma initializeNodes_array_eq:
  "initializeNodes_array M nodes = map (\<lambda>(i, nd). initializeNode M i nd) (enumerate 0 nodes)"
  by (rule nth_equalityI)
     (simp_all add: initializeNodes_array_length initializeNodes_array_nth nth_enumerate_eq)

lemma initializeNode_fields:
  "node_index (initializeNode M i nd) = Some (num_of_nat i)"
  "node_fx (initializeNode M i nd) = node_fx nd"
  "node_fy (initializeNode M i nd) = node_fy nd"
  "node_x (initializeNode M i nd) =
     (if isNaN (given_x nd) \<or> isNaN (given_y nd) then Some (phyllotaxis_x M i) else given_x nd)"
  "node_y (initializeNode M i nd) =
     (if isNaN (given_x nd) \<or> isNaN (given_y nd) then Some (phyllotaxis_y M i) else given_y nd)"
  "node_vx (initializeNode M i nd) =
     (if isNaN (node_vx nd) \<or> isNaN (node_vy nd) then Some (Fin 0) else node_vx nd)"
  "node_vy (initializeNode M i nd) =
     (if isNaN (node_vx nd) \<or> isNaN (node_vy nd) then Some (Fin 0) else node_vy nd)"
  by (simp_all add: initializeNode_def snap_fixed_def given_x_def given_y_def Let_def
        split: option.splits)

lemma forEach_initializeForce_nodes: "priv_nodes (forEach_initializeForce m self) = priv_nodes self"
  by (induction m self rule: forEach_initializeForce.induct)
     (auto simp: initializeForce_def split: option.splits)

lemma nodes_set_eq:
  "nodes_set M self arr =
     Normal (forEach_initializeForce (forces self)
               (self\<lparr>priv_nodes := initializeNodes_array M arr\<rparr>))"
  by (simp add: nodes_set_def property_set_def nodes_options_def initializeNodes_def Let_def)

lemma nodes_set_nth:
  "i < length arr \<Longrightarrow>
   \<exists>self'. nodes_set M self arr = Normal self' \<and> length (priv_nodes self') = length arr \<and>
     priv_nodes self' ! i = initializeNode M i (arr ! i)"
  by (simp add: nodes_set_eq forEach_initializeForce_nodes initializeNodes_array_length
        initializeNodes_array_nth)

lemma returned_nodes_nodes_set:
  "returned_nodes (nodes_set M self arr) = map (\<lambda>(i, nd). initializeNode M i nd) (enumerate 0 arr)"
  by (simp add: returned_nodes_def nodes_set_eq forEach_initializeForce_nodes initializeNodes_array_eq)

text \<open>
  The inner loop of \<open>tick\<close> steps the first \<open>n\<close> nodes and leaves the others; it
  throws, after stepping every node, when the array holds fewer than \<open>n\<close>.
\<close>

lemma tick_nodes_eq:
  "i \<le> length (priv_nodes self) \<Longrightarrow>
   tick_nodes i n self =
     (if n \<le> length (priv_nodes self)
      then Normal (self\<lparr>priv_nodes :=
             take i (priv_nodes self)
             @ map (step_node (priv_velocityDecay self)) (take (n - i) (drop i (priv_nodes self)))
             @ drop (max i n) (priv_nodes self)\<rparr>)
      else Throw TypeError (self\<lparr>priv_nodes :=
             take i (priv_nodes self)
             @ map (step_node (priv_velocityDecay self)) (drop i (priv_nodes self))\<rparr>))"
proof (induction i n self rule: tick_nodes.induct)
  case (1 i n self)
  let ?ns = "priv_nodes self"
  let ?vd = "priv_velocityDecay self"
  show ?case
  proof (cases "i < n")
    case False
    then show ?thesis using 1(2) by (subst tick_nodes.simps) (simp add: max_def)
  next
    case True
    show ?thesis
    proof (cases "i < length ?ns")
      case False
      then have "i = length ?ns" using 1(2) by simp
      then show ?thesis using True by (subst tick_nodes.simps) simp
    next
      case il: True
      define self1 where "self1 = self\<lparr>priv_nodes := ?ns[i := step_node ?vd (?ns ! i)]\<rparr>"
      have s: "tick_nodes i n self = tick_nodes (Suc i) n self1"
        using True il by (subst tick_nodes.simps) (simp add: self1_def)
      have len: "length (priv_nodes self1) = length ?ns" by (simp add: self1_def)
      have ih: "tick_nodes (Suc i) n self1 =
         (if n \<le> length (priv_nodes self1)
          then Normal (self1\<lparr>priv_nodes :=
             take (Suc i) (priv_nodes self1)
             @ map (step_node (priv_velocityDecay self1)) (take (n - Suc i) (drop (Suc i) (priv_nodes self1)))
             @ drop (max (Suc i) n) (priv_nodes self1)\<rparr>)
          else Throw TypeError (self1\<lparr>priv_nodes :=
             take (Suc i) (priv_nodes self1)
             @ map (step_node (priv_velocityDecay self1)) (drop (Suc i) (priv_nodes self1))\<rparr>))"
        using 1(1)[OF True il] il len unfolding self1_def by simp
      have t1: "take (Suc i) (priv_nodes self1) = take i ?ns @ [step_node ?vd (?ns ! i)]"
        using il by (simp add: self1_def take_Suc_conv_app_nth)
      have d1: "drop (Suc i) (priv_nodes self1) = drop (Suc i) ?ns"
        by (simp add: self1_def)
      have d2: "drop i ?ns = ?ns ! i # drop (Suc i) ?ns"
        using il by (simp add: Cons_nth_drop_Suc)
      have t2: "take (n - i) (drop i ?ns) = ?ns ! i # take (n - Suc i) (drop (Suc i) ?ns)"
      proof -
        have "n - i = Suc (n - Suc i)" using True by simp
        then show ?thesis by (simp add: d2)
      qed
      have m: "max (Suc i) n = max i n" using True by simp
      have d3: "drop (max i n) (priv_nodes self1) = drop (max i n) ?ns"
        using True by (simp add: self1_def max_def)
      show ?thesis
        unfolding s ih by (simp add: t1 d1 t2 m d3 len) (simp add: self1_def d2)
    qed
  qed
qed

lemma tick_nodes_0:
  "tick_nodes 0 n self =
     (if n \<le> length (priv_nodes self)
      then Normal (self\<lparr>priv_nodes :=
             map (step_node (priv_velocityDecay self)) (take n (priv_nodes self))
             @ drop n (priv_nodes self)\<rparr>)
      else Throw TypeError (self\<lparr>priv_nodes :=
             map (step_node (priv_velocityDecay self)) (priv_nodes self)\<rparr>))"
  using tick_nodes_eq[of 0 self n] by simp

section \<open>One iteration of tick\<close>

lemma step_node_spec: "step_node d nd = spec_integrate d nd"
  by (cases "node_fx nd"; cases "node_fy nd")
     (simp_all add: step_node_def step_x_def step_y_def spec_integrate_def Let_def)

lemma spec_integrate_snapped: "fixed_snapped (spec_integrate d nd)"
  by (simp add: fixed_snapped_def spec_integrate_def split: option.splits)

lemma forEach_force_spec:
  "forEach_force m self =
     (case spec_forces (priv_alpha self) m (force_state self, priv_nodes self) of
        (e, nodes) \<Rightarrow> self\<lparr>force_state := e, priv_nodes := nodes\<rparr>)"
proof (induction m self rule: forEach_force.induct)
  case (1 self)
  then show ?case by (simp add: spec_forces_def)
next
  case (2 name f m self)
  then show ?case by (simp add: spec_forces_def split: prod.splits)
qed

lemma spec_forces_length:
  "\<forall>(name, f) \<in> set m. keeps_length f \<Longrightarrow>
   length (snd (spec_forces a m (e, nodes))) = length nodes"
proof (induction m arbitrary: e nodes)
  case Nil
  then show ?case by (simp add: spec_forces_def)
next
  case (Cons p m)
  obtain name f where p: "p = (name, f)" by (cases p)
  obtain e1 nodes1 where c: "call f a e nodes = (e1, nodes1)" by (cases "call f a e nodes")
  have k: "keeps_length f" using Cons.prems p by simp
  have l: "length nodes1 = length nodes"
    using k c unfolding keeps_length_def by (metis snd_conv)
  have "length (snd (spec_forces a m (e1, nodes1))) = length nodes1"
    using Cons.IH Cons.prems by simp
  then show ?case using l by (simp add: spec_forces_def p c)
qed

lemma tick_iteration_eq:
  "tick_iteration n self =
     (case spec_forces (spec_alpha self) (forces self) (force_state self, priv_nodes self) of
        (e, nodes) \<Rightarrow>
          if n \<le> length nodes
          then Normal (self\<lparr> priv_alpha := spec_alpha self, force_state := e,
                 priv_nodes := map (spec_integrate (priv_velocityDecay self)) (take n nodes) @ drop n nodes \<rparr>)
          else Throw TypeError (self\<lparr> priv_alpha := spec_alpha self, force_state := e,
                 priv_nodes := map (spec_integrate (priv_velocityDecay self)) nodes \<rparr>))"
  by (simp add: tick_iteration_def Let_def forEach_force_spec tick_nodes_0 spec_alpha_def
        step_node_spec[abs_def] split: prod.splits)

lemma tick_iteration_spec:
  assumes "\<forall>(name, f) \<in> set (forces self). keeps_length f"
  shows "tick_iteration (length (priv_nodes self)) self = Normal (spec_tick self)"
proof -
  obtain e nodes where s: "spec_forces (spec_alpha self) (forces self) (force_state self, priv_nodes self) = (e, nodes)"
    by (cases "spec_forces (spec_alpha self) (forces self) (force_state self, priv_nodes self)")
  have "length nodes = length (priv_nodes self)"
    using spec_forces_length[OF assms, of "spec_alpha self" "force_state self" "priv_nodes self"] s by simp
  then show ?thesis by (simp add: tick_iteration_eq s spec_tick_def)
qed

lemma spec_tick_forces: "forces (spec_tick self) = forces self"
  by (simp add: spec_tick_def Let_def split: prod.splits)

lemma spec_tick_length:
  "\<forall>(name, f) \<in> set (forces self). keeps_length f \<Longrightarrow>
   length (priv_nodes (spec_tick self)) = length (priv_nodes self)"
  using spec_forces_length[of "forces self" "spec_alpha self" "force_state self" "priv_nodes self"]
  by (cases "spec_forces (spec_alpha self) (forces self) (force_state self, priv_nodes self)")
     (simp add: spec_tick_def Let_def)

lemma spec_tick_snapped: "nd \<in> set (priv_nodes (spec_tick self)) \<Longrightarrow> fixed_snapped nd"
  by (auto simp: spec_tick_def Let_def spec_integrate_snapped split: prod.splits)

text \<open>The outer loop under forces that keep the number of nodes.\<close>

lemma tick_loop_spec:
  "\<forall>(name, f) \<in> set (forces self). keeps_length f \<Longrightarrow>
   tick_loop k (length (priv_nodes self)) self = Normal ((spec_tick ^^ k) self)"
proof (induction k arbitrary: self)
  case 0
  then show ?case by simp
next
  case (Suc k)
  have "tick_loop k (length (priv_nodes (spec_tick self))) (spec_tick self)
          = Normal ((spec_tick ^^ k) (spec_tick self))"
    by (rule Suc.IH) (use Suc.prems in \<open>simp add: spec_tick_forces\<close>)
  then show ?case
    using Suc.prems by (simp add: tick_iteration_spec spec_tick_length funpow_swap1)
qed

lemma tick_times_spec:
  "\<forall>(name, f) \<in> set (forces self). keeps_length f \<Longrightarrow>
   tick_times k self = Normal ((spec_tick ^^ k) self)"
proof (induction k arbitrary: self)
  case 0
  then show ?case by simp
next
  case (Suc k)
  have t: "tick self (Some 1) = Normal (spec_tick self)"
    using tick_loop_spec[OF Suc.prems, of 1] by (simp add: tick_def)
  have "tick_times k (spec_tick self) = Normal ((spec_tick ^^ k) (spec_tick self))"
    by (rule Suc.IH) (use Suc.prems in \<open>simp add: spec_tick_forces\<close>)
  then show ?case using t by (simp add: funpow_swap1)
qed

text \<open>
  Whatever the forces do: when the last iteration returns, it has stepped every
  node below the length that \<open>tick\<close> read at its start.
\<close>

lemma tick_iteration_snapped:
  assumes "tick_iteration n self = Normal self'" "i < n"
  shows "fixed_snapped (priv_nodes self' ! i)"
proof -
  obtain e nodes where s: "spec_forces (spec_alpha self) (forces self) (force_state self, priv_nodes self) = (e, nodes)"
    by (cases "spec_forces (spec_alpha self) (forces self) (force_state self, priv_nodes self)")
  have n: "n \<le> length nodes" using assms(1) by (simp add: tick_iteration_eq s split: if_splits)
  then have "priv_nodes self' = map (spec_integrate (priv_velocityDecay self)) (take n nodes) @ drop n nodes"
    using assms(1) by (auto simp: tick_iteration_eq s)
  then have "priv_nodes self' ! i = spec_integrate (priv_velocityDecay self) (nodes ! i)"
    using assms(2) n by (simp add: nth_append)
  then show ?thesis by (simp add: spec_integrate_snapped)
qed

lemma tick_loop_snapped:
  "tick_loop (Suc k) n self = Normal self' \<Longrightarrow> i < n \<Longrightarrow> fixed_snapped (priv_nodes self' ! i)"
proof (induction k arbitrary: self)
  case 0
  then show ?case
    by (auto split: completion.splits dest: tick_iteration_snapped)
next
  case (Suc k)
  from Suc.prems(1) obtain self1 where
    "tick_iteration n self = Normal self1" "tick_loop (Suc k) n self1 = Normal self'"
    by (cases "tick_iteration n self") auto
  then show ?case using Suc.IH Suc.prems(2) by blast
qed

lemma example_keeps_length: "keeps_length set_vx_force \<and> keeps_length add_vx_force"
  by (simp add: keeps_length_def set_vx_force_def add_vx_force_def)

lemma example_forces_keep_length:
  "\<forall>(name, f) \<in> set (forces example_simulation). keeps_length f"
  using example_keeps_length by (simp add: example_simulation_def)

lemma example_spec_tick:
  "spec_tick example_simulation =
     example_simulation
       \<lparr> priv_alpha := Fin 1, force_state := 2,
         priv_nodes :=
           [free_node\<lparr>node_vx := Some (Fin 2), node_x := Some (Fin 2)\<rparr>,
            pinned_node\<lparr>node_vx := Some (Fin 0), node_x := Some (Fin 2),
                         node_vy := Some (Fin 0), node_y := Some (Fin 4)\<rparr>] \<rparr>"
  by (simp add: spec_tick_def spec_alpha_def spec_forces_def spec_integrate_def example_simulation_def
        set_vx_force_def add_vx_force_def free_node_def pinned_node_def empty_node_def
        fl_one fl_zero fl_numeral Let_def)

section \<open>Bounds of the cosine and the sine\<close>

lemma horner_sum:
  "k \<le> n \<Longrightarrow> horner d a k n = (\<Sum>m<n - k. d (k + m) * a ^ m * fact k / fact (k + m))"
proof (induction d a k n rule: horner.induct)
  case (1 d a k n)
  show ?case
  proof (cases "n \<le> k")
    case True
    then show ?thesis by (subst horner.simps) simp
  next
    case False
    then have kn: "Suc k \<le> n" by simp
    obtain j where j: "n - k = Suc j" "n - Suc k = j" using False by (cases "n - k") auto
    have "horner d a k n = d k + a / real (Suc k) * horner d a (Suc k) n"
      using False by (subst horner.simps) simp
    also have "horner d a (Suc k) n = (\<Sum>m<j. d (Suc k + m) * a ^ m * fact (Suc k) / fact (Suc k + m))"
      using 1(1)[OF False kn] j by simp
    also have "a / real (Suc k) * \<dots> = (\<Sum>m<j. d (k + Suc m) * a ^ Suc m * fact k / fact (k + Suc m))"
      by (simp add: sum_distrib_left field_simps del: of_nat_Suc)
    also have "d k + \<dots> = (\<Sum>m<Suc j. d (k + m) * a ^ m * fact k / fact (k + m))"
      by (subst sum.lessThan_Suc_shift) simp
    finally show ?thesis by (simp add: j)
  qed
qed

lemma horner_cos: "horner cos_d a 0 n = (\<Sum>m<n. cos_coeff m * a ^ m)"
  by (simp add: horner_sum cos_d_def cos_coeff_def) (rule sum.cong, simp_all)

lemma horner_sin: "horner sin_d a 0 n = (\<Sum>m<n. sin_coeff m * a ^ m)"
  by (simp add: horner_sum sin_d_def sin_coeff_def) (rule sum.cong, simp_all)

lemma cos_taylor: "\<bar>cos a - horner cos_d a 0 n\<bar> \<le> \<bar>a\<bar> ^ n / fact n"
proof -
  obtain t where "cos a = (\<Sum>m<n. cos_coeff m * a ^ m) + (cos (t + 1 / 2 * real n * pi) / fact n) * a ^ n"
    using Maclaurin_cos_expansion[of a n] by blast
  then have "\<bar>cos a - horner cos_d a 0 n\<bar> = \<bar>cos (t + 1 / 2 * real n * pi)\<bar> * (\<bar>a\<bar> ^ n / fact n)"
    by (simp add: horner_cos abs_mult power_abs)
  also have "\<dots> \<le> 1 * (\<bar>a\<bar> ^ n / fact n)"
    by (rule mult_right_mono) simp_all
  finally show ?thesis by simp
qed

lemma sin_taylor: "\<bar>sin a - horner sin_d a 0 n\<bar> \<le> \<bar>a\<bar> ^ n / fact n"
  using Maclaurin_sin_bound[of a n] by (simp add: horner_sin inverse_eq_divide)

lemma horner_end: "horner d a n n = 0"
  by (subst horner.simps) simp

lemma horner_step:
  assumes "k < n" "0 \<le> a"
    and "lo \<le> horner d a (Suc k) n" "horner d a (Suc k) n \<le> hi"
    and "lo' \<le> d k + a / real (Suc k) * lo" "d k + a / real (Suc k) * hi \<le> hi'"
  shows "lo' \<le> horner d a k n \<and> horner d a k n \<le> hi'"
proof -
  have h: "horner d a k n = d k + a / real (Suc k) * horner d a (Suc k) n"
    using assms(1) by (subst horner.simps) simp
  have c: "0 \<le> a / real (Suc k)" using assms(2) by simp
  have "a / real (Suc k) * lo \<le> a / real (Suc k) * horner d a (Suc k) n"
    using c assms(3) by (rule mult_left_mono[rotated])
  moreover have "a / real (Suc k) * horner d a (Suc k) n \<le> a / real (Suc k) * hi"
    using c assms(4) by (rule mult_left_mono[rotated])
  ultimately show ?thesis using h assms(5,6) by linarith
qed

lemma cos_angle_1:
  "(- 228204614474022974029825601 / 2 ^ 88) \<le> cos (5404236753554427 / 2 ^ 51 :: real) \<and> cos (5404236753554427 / 2 ^ 51 :: real) \<le> (- 114102307237011487013900801 / 2 ^ 87)"
proof -
  define a where "a = (5404236753554427 / 2 ^ 51 :: real)"
  have a0: "0 \<le> a" by (simp add: a_def)
  have h30: "0 \<le> horner cos_d a 30 30 \<and> horner cos_d a 30 30 \<le> 0"
    by (simp add: horner_end)
  have h29: "0 \<le> horner cos_d a 29 30 \<and> horner cos_d a 29 30 \<le> 0"
    by (rule horner_step[where lo = "0" and hi = "0"])
       (use h30 a0 in \<open>simp_all add: a_def cos_d_def\<close>)
  have h28: "1 \<le> horner cos_d a 28 30 \<and> horner cos_d a 28 30 \<le> 1"
    by (rule horner_step[where lo = "0" and hi = "0"])
       (use h29 a0 in \<open>simp_all add: a_def cos_d_def\<close>)
  have h27: "(106107520531919889010374363 / 2 ^ 90) \<le> horner cos_d a 27 30 \<and> horner cos_d a 27 30 \<le> (26526880132979972252593591 / 2 ^ 88)"
    by (rule horner_step[where lo = "1" and hi = "1"])
       (use h28 a0 in \<open>simp_all add: a_def cos_d_def\<close>)
  have h26: "(- 38390887630822895368709383 / 2 ^ 85) \<le> horner cos_d a 26 30 \<and> horner cos_d a 26 30 \<le> (- 1228508404186332651798700255 / 2 ^ 90)"
    by (rule horner_step[where lo = "(106107520531919889010374363 / 2 ^ 90)" and hi = "(26526880132979972252593591 / 2 ^ 88)"])
       (use h27 a0 in \<open>simp_all add: a_def cos_d_def\<close>)
  have h25: "(- 56699519181919700657167623 / 2 ^ 89) \<le> horner cos_d a 25 30 \<and> horner cos_d a 25 30 \<le> (- 113399038363839401314335245 / 2 ^ 90)"
    by (rule horner_step[where lo = "(- 38390887630822895368709383 / 2 ^ 85)" and hi = "(- 1228508404186332651798700255 / 2 ^ 90)"])
       (use h26 a0 in \<open>simp_all add: a_def cos_d_def\<close>)
  have h24: "(613526949195494068599676433 / 2 ^ 89) \<le> horner cos_d a 24 30 \<and> horner cos_d a 24 30 \<le> (1227053898390988137199352867 / 2 ^ 90)"
    by (rule horner_step[where lo = "(- 56699519181919700657167623 / 2 ^ 89)" and hi = "(- 113399038363839401314335245 / 2 ^ 90)"])
       (use h25 a0 in \<open>simp_all add: a_def cos_d_def\<close>)
  have h23: "(61351754938199382701078477 / 2 ^ 89) \<le> horner cos_d a 23 30 \<and> horner cos_d a 23 30 \<le> (122703509876398765402156955 / 2 ^ 90)"
    by (rule horner_step[where lo = "(613526949195494068599676433 / 2 ^ 89)" and hi = "(1227053898390988137199352867 / 2 ^ 90)"])
       (use h24 a0 in \<open>simp_all add: a_def cos_d_def\<close>)
  have h22: "(- 612568195471777014414661785 / 2 ^ 89) \<le> horner cos_d a 22 30 \<and> horner cos_d a 22 30 \<le> (- 1225136390943554028829323569 / 2 ^ 90)"
    by (rule horner_step[where lo = "(61351754938199382701078477 / 2 ^ 89)" and hi = "(122703509876398765402156955 / 2 ^ 90)"])
       (use h23 a0 in \<open>simp_all add: a_def cos_d_def\<close>)
  have h21: "(- 133649194984863530068089887 / 2 ^ 90) \<le> horner cos_d a 21 30 \<and> horner cos_d a 21 30 \<le> (- 133649194984863530068089885 / 2 ^ 90)"
    by (rule horner_step[where lo = "(- 612568195471777014414661785 / 2 ^ 89)" and hi = "(- 1225136390943554028829323569 / 2 ^ 90)"])
       (use h22 a0 in \<open>simp_all add: a_def cos_d_def\<close>)
  have h20: "(611333039793963766535942531 / 2 ^ 89) \<le> horner cos_d a 20 30 \<and> horner cos_d a 20 30 \<le> (1222666079587927533071885063 / 2 ^ 90)"
    by (rule horner_step[where lo = "(- 133649194984863530068089887 / 2 ^ 90)" and hi = "(- 133649194984863530068089885 / 2 ^ 90)"])
       (use h21 a0 in \<open>simp_all add: a_def cos_d_def\<close>)
  have h19: "(73358840831187823237462543 / 2 ^ 89) \<le> horner cos_d a 19 30 \<and> horner cos_d a 19 30 \<le> (4584927551949238952341409 / 2 ^ 85)"
    by (rule horner_step[where lo = "(611333039793963766535942531 / 2 ^ 89)" and hi = "(1222666079587927533071885063 / 2 ^ 90)"])
       (use h20 a0 in \<open>simp_all add: a_def cos_d_def\<close>)
  have h18: "(- 609703781717933941877681955 / 2 ^ 89) \<le> horner cos_d a 18 30 \<and> horner cos_d a 18 30 \<le> (- 1219407563435867883755363909 / 2 ^ 90)"
    by (rule horner_step[where lo = "(73358840831187823237462543 / 2 ^ 89)" and hi = "(4584927551949238952341409 / 2 ^ 85)"])
       (use h19 a0 in \<open>simp_all add: a_def cos_d_def\<close>)
  have h17: "(- 81292592063863690854596191 / 2 ^ 89) \<le> horner cos_d a 17 30 \<and> horner cos_d a 17 30 \<le> (- 40646296031931845427298095 / 2 ^ 88)"
    by (rule horner_step[where lo = "(- 609703781717933941877681955 / 2 ^ 89)" and hi = "(- 1219407563435867883755363909 / 2 ^ 90)"])
       (use h18 a0 in \<open>simp_all add: a_def cos_d_def\<close>)
  have h16: "(1214987188485073901543871693 / 2 ^ 90) \<le> horner cos_d a 16 30 \<and> horner cos_d a 16 30 \<le> (607493594242536950771935847 / 2 ^ 89)"
    by (rule horner_step[where lo = "(- 81292592063863690854596191 / 2 ^ 89)" and hi = "(- 40646296031931845427298095 / 2 ^ 88)"])
       (use h17 a0 in \<open>simp_all add: a_def cos_d_def\<close>)
  have h15: "(182245286059723356836123867 / 2 ^ 90) \<le> horner cos_d a 15 30 \<and> horner cos_d a 15 30 \<le> (45561321514930839209030967 / 2 ^ 88)"
    by (rule horner_step[where lo = "(1214987188485073901543871693 / 2 ^ 90)" and hi = "(607493594242536950771935847 / 2 ^ 89)"])
       (use h16 a0 in \<open>simp_all add: a_def cos_d_def\<close>)
  have h14: "(- 1208781240263065878944901355 / 2 ^ 90) \<le> horner cos_d a 14 30 \<and> horner cos_d a 14 30 \<le> (- 604390620131532939472450677 / 2 ^ 89)"
    by (rule horner_step[where lo = "(182245286059723356836123867 / 2 ^ 90)" and hi = "(45561321514930839209030967 / 2 ^ 88)"])
       (use h15 a0 in \<open>simp_all add: a_def cos_d_def\<close>)
  have h13: "(- 207216466386939610246262321 / 2 ^ 90) \<le> horner cos_d a 13 30 \<and> horner cos_d a 13 30 \<le> (- 12951029149183725640391395 / 2 ^ 86)"
    by (rule horner_step[where lo = "(- 1208781240263065878944901355 / 2 ^ 90)" and hi = "(- 604390620131532939472450677 / 2 ^ 89)"])
       (use h14 a0 in \<open>simp_all add: a_def cos_d_def\<close>)
  have h12: "(599842638876422504282784713 / 2 ^ 89) \<le> horner cos_d a 12 30 \<and> horner cos_d a 12 30 \<le> (299921319438211252141392357 / 2 ^ 88)"
    by (rule horner_step[where lo = "(- 207216466386939610246262321 / 2 ^ 90)" and hi = "(- 12951029149183725640391395 / 2 ^ 86)"])
       (use h13 a0 in \<open>simp_all add: a_def cos_d_def\<close>)
  have h11: "(119966689743901421540430831 / 2 ^ 89) \<le> horner cos_d a 11 30 \<and> horner cos_d a 11 30 \<le> (7497918108993838846276927 / 2 ^ 85)"
    by (rule horner_step[where lo = "(599842638876422504282784713 / 2 ^ 89)" and hi = "(299921319438211252141392357 / 2 ^ 88)"])
       (use h12 a0 in \<open>simp_all add: a_def cos_d_def\<close>)
  have h10: "(- 592795870171996597991530033 / 2 ^ 89) \<le> horner cos_d a 10 30 \<and> horner cos_d a 10 30 \<le> (- 37049741885749787374470627 / 2 ^ 85)"
    by (rule horner_step[where lo = "(119966689743901421540430831 / 2 ^ 89)" and hi = "(7497918108993838846276927 / 2 ^ 85)"])
       (use h11 a0 in \<open>simp_all add: a_def cos_d_def\<close>)
  have h9: "(- 284537658229558452853126673 / 2 ^ 90) \<le> horner cos_d a 9 30 \<and> horner cos_d a 9 30 \<le> (- 17783603639347403303320417 / 2 ^ 86)"
    by (rule horner_step[where lo = "(- 592795870171996597991530033 / 2 ^ 89)" and hi = "(- 37049741885749787374470627 / 2 ^ 85)"])
       (use h10 a0 in \<open>simp_all add: a_def cos_d_def\<close>)
  have h8: "(1162064492927153745728029753 / 2 ^ 90) \<le> horner cos_d a 8 30 \<and> horner cos_d a 8 30 \<le> (581032246463576872864014877 / 2 ^ 89)"
    by (rule horner_step[where lo = "(- 284537658229558452853126673 / 2 ^ 90)" and hi = "(- 17783603639347403303320417 / 2 ^ 86)"])
       (use h9 a0 in \<open>simp_all add: a_def cos_d_def\<close>)
  have h7: "(348614006699805176468240819 / 2 ^ 90) \<le> horner cos_d a 7 30 \<and> horner cos_d a 7 30 \<le> (87153501674951294117060205 / 2 ^ 88)"
    by (rule horner_step[where lo = "(1162064492927153745728029753 / 2 ^ 90)" and hi = "(581032246463576872864014877 / 2 ^ 89)"])
       (use h8 a0 in \<open>simp_all add: a_def cos_d_def\<close>)
  have h6: "(- 559208534110696514090103943 / 2 ^ 89) \<le> horner cos_d a 6 30 \<and> horner cos_d a 6 30 \<le> (- 279604267055348257045051971 / 2 ^ 88)"
    by (rule horner_step[where lo = "(348614006699805176468240819 / 2 ^ 90)" and hi = "(87153501674951294117060205 / 2 ^ 88)"])
       (use h7 a0 in \<open>simp_all add: a_def cos_d_def\<close>)
  have h5: "(- 447359973205377619278775769 / 2 ^ 90) \<le> horner cos_d a 5 30 \<and> horner cos_d a 5 30 \<le> (- 447359973205377619278775767 / 2 ^ 90)"
    by (rule horner_step[where lo = "(- 559208534110696514090103943 / 2 ^ 89)" and hi = "(- 279604267055348257045051971 / 2 ^ 88)"])
       (use h6 a0 in \<open>simp_all add: a_def cos_d_def\<close>)
  have h4: "(1023210542056319922132477687 / 2 ^ 90) \<le> horner cos_d a 4 30 \<and> horner cos_d a 4 30 \<le> (1023210542056319922132477689 / 2 ^ 90)"
    by (rule horner_step[where lo = "(- 447359973205377619278775769 / 2 ^ 90)" and hi = "(- 447359973205377619278775767 / 2 ^ 90)"])
       (use h5 a0 in \<open>simp_all add: a_def cos_d_def\<close>)
  have h3: "(613916919301472837657295637 / 2 ^ 90) \<le> horner cos_d a 3 30 \<and> horner cos_d a 3 30 \<le> (613916919301472837657295639 / 2 ^ 90)"
    by (rule horner_step[where lo = "(1023210542056319922132477687 / 2 ^ 90)" and hi = "(1023210542056319922132477689 / 2 ^ 90)"])
       (use h4 a0 in \<open>simp_all add: a_def cos_d_def\<close>)
  have h2: "(- 23337938389836595918419465 / 2 ^ 85) \<le> horner cos_d a 2 30 \<and> horner cos_d a 2 30 \<le> (- 373407014237385534694711439 / 2 ^ 89)"
    by (rule horner_step[where lo = "(613916919301472837657295637 / 2 ^ 90)" and hi = "(613916919301472837657295639 / 2 ^ 90)"])
       (use h3 a0 in \<open>simp_all add: a_def cos_d_def\<close>)
  have h1: "(- 896163103892488923167961423 / 2 ^ 90) \<le> horner cos_d a 1 30 \<and> horner cos_d a 1 30 \<le> (- 224040775973122230791990355 / 2 ^ 88)"
    by (rule horner_step[where lo = "(- 23337938389836595918419465 / 2 ^ 85)" and hi = "(- 373407014237385534694711439 / 2 ^ 89)"])
       (use h2 a0 in \<open>simp_all add: a_def cos_d_def numeral_2_eq_2[symmetric]\<close>)
  have h0: "(- 456409228948045948057627205 / 2 ^ 89) \<le> horner cos_d a 0 30 \<and> horner cos_d a 0 30 \<le> (- 456409228948045948057627201 / 2 ^ 89)"
    by (rule horner_step[where lo = "(- 896163103892488923167961423 / 2 ^ 90)" and hi = "(- 224040775973122230791990355 / 2 ^ 88)"])
       (use h1 a0 in \<open>simp_all add: a_def cos_d_def\<close>)
  have "\<bar>a\<bar> \<le> (5 / 2 ^ 1)" by (simp add: a_def)
  then have "\<bar>a\<bar> ^ 30 \<le> (5 / 2 ^ 1) ^ 30" by (rule power_mono) simp
  then have "\<bar>a\<bar> ^ 30 / fact 30 \<le> (5 / 2 ^ 1) ^ 30 / fact 30" by (rule divide_right_mono) simp
  also have "\<dots> \<le> (2023997 / 2 ^ 89)" by (simp add: fact_numeral power_divide)
  finally have r: "\<bar>a\<bar> ^ 30 / fact 30 \<le> (2023997 / 2 ^ 89)" .
  have "\<bar>cos a - horner cos_d a 0 30\<bar> \<le> (2023997 / 2 ^ 89)"
    using cos_taylor[of a 30] r by linarith
  moreover have "((- 228204614474022974029825601 / 2 ^ 88) :: real) \<le> (- 456409228948045948057627205 / 2 ^ 89) - (2023997 / 2 ^ 89)" "((- 456409228948045948057627201 / 2 ^ 89) :: real) + (2023997 / 2 ^ 89) \<le> (- 114102307237011487013900801 / 2 ^ 87)" by simp_all
  ultimately have "(- 228204614474022974029825601 / 2 ^ 88) \<le> cos a \<and> cos a \<le> (- 114102307237011487013900801 / 2 ^ 87)"
    using h0 by linarith
  then show ?thesis by (simp add: a_def)
qed

lemma sin_angle_1:
  "(418108240707501950529632483 / 2 ^ 89) \<le> sin (5404236753554427 / 2 ^ 51 :: real) \<and> sin (5404236753554427 / 2 ^ 51 :: real) \<le> (836216481415003901067360965 / 2 ^ 90)"
proof -
  define a where "a = (5404236753554427 / 2 ^ 51 :: real)"
  have a0: "0 \<le> a" by (simp add: a_def)
  have h30: "0 \<le> horner sin_d a 30 30 \<and> horner sin_d a 30 30 \<le> 0"
    by (simp add: horner_end)
  have h29: "1 \<le> horner sin_d a 29 30 \<and> horner sin_d a 29 30 \<le> 1"
    by (rule horner_step[where lo = "0" and hi = "0"])
       (use h30 a0 in \<open>simp_all add: a_def sin_d_def\<close>)
  have h28: "(12806080064197227984010699 / 2 ^ 87) \<le> horner sin_d a 28 30 \<and> horner sin_d a 28 30 \<le> (102448640513577823872085593 / 2 ^ 90)"
    by (rule horner_step[where lo = "1" and hi = "1"])
       (use h29 a0 in \<open>simp_all add: a_def sin_d_def\<close>)
  have h27: "(- 1229158861779370418909074323 / 2 ^ 90) \<le> horner sin_d a 27 30 \<and> horner sin_d a 27 30 \<le> (- 614579430889685209454537161 / 2 ^ 89)"
    by (rule horner_step[where lo = "(12806080064197227984010699 / 2 ^ 87)" and hi = "(102448640513577823872085593 / 2 ^ 90)"])
       (use h28 a0 in \<open>simp_all add: a_def sin_d_def\<close>)
  have h26: "(- 27314222886718637773705079 / 2 ^ 88) \<le> horner sin_d a 26 30 \<and> horner sin_d a 26 30 \<le> (- 54628445773437275547410157 / 2 ^ 89)"
    by (rule horner_step[where lo = "(- 1229158861779370418909074323 / 2 ^ 90)" and hi = "(- 614579430889685209454537161 / 2 ^ 89)"])
       (use h27 a0 in \<open>simp_all add: a_def sin_d_def\<close>)
  have h25: "(1227854942273574497182313713 / 2 ^ 90) \<le> horner sin_d a 25 30 \<and> horner sin_d a 25 30 \<le> (613927471136787248591156857 / 2 ^ 89)"
    by (rule horner_step[where lo = "(- 27314222886718637773705079 / 2 ^ 88)" and hi = "(- 54628445773437275547410157 / 2 ^ 89)"])
       (use h26 a0 in \<open>simp_all add: a_def sin_d_def\<close>)
  have h24: "(14734033564485883550512359 / 2 ^ 87) \<le> horner sin_d a 24 30 \<and> horner sin_d a 24 30 \<le> (117872268515887068404098873 / 2 ^ 90)"
    by (rule horner_step[where lo = "(1227854942273574497182313713 / 2 ^ 90)" and hi = "(613927471136787248591156857 / 2 ^ 89)"])
       (use h25 a0 in \<open>simp_all add: a_def sin_d_def\<close>)
  have h23: "(- 613076496512631150878845559 / 2 ^ 89) \<le> horner sin_d a 23 30 \<and> horner sin_d a 23 30 \<le> (- 1226152993025262301757691117 / 2 ^ 90)"
    by (rule horner_step[where lo = "(14734033564485883550512359 / 2 ^ 87)" and hi = "(117872268515887068404098873 / 2 ^ 90)"])
       (use h24 a0 in \<open>simp_all add: a_def sin_d_def\<close>)
  have h22: "(- 127944439012276657402033285 / 2 ^ 90) \<le> horner sin_d a 22 30 \<and> horner sin_d a 22 30 \<le> (- 31986109753069164350508321 / 2 ^ 88)"
    by (rule horner_step[where lo = "(- 613076496512631150878845559 / 2 ^ 89)" and hi = "(- 1226152993025262301757691117 / 2 ^ 90)"])
       (use h23 a0 in \<open>simp_all add: a_def sin_d_def\<close>)
  have h21: "(1223982677963665540168179209 / 2 ^ 90) \<le> horner sin_d a 21 30 \<and> horner sin_d a 21 30 \<le> (611991338981832770084089605 / 2 ^ 89)"
    by (rule horner_step[where lo = "(- 127944439012276657402033285 / 2 ^ 90)" and hi = "(- 31986109753069164350508321 / 2 ^ 88)"])
       (use h22 a0 in \<open>simp_all add: a_def sin_d_def\<close>)
  have h20: "(139881591473219267414285387 / 2 ^ 90) \<le> horner sin_d a 20 30 \<and> horner sin_d a 20 30 \<le> (34970397868304816853571347 / 2 ^ 88)"
    by (rule horner_step[where lo = "(1223982677963665540168179209 / 2 ^ 90)" and hi = "(611991338981832770084089605 / 2 ^ 89)"])
       (use h21 a0 in \<open>simp_all add: a_def sin_d_def\<close>)
  have h19: "(- 610577252741398854213711953 / 2 ^ 89) \<le> horner sin_d a 19 30 \<and> horner sin_d a 19 30 \<le> (- 1221154505482797708427423905 / 2 ^ 90)"
    by (rule horner_step[where lo = "(139881591473219267414285387 / 2 ^ 90)" and hi = "(34970397868304816853571347 / 2 ^ 88)"])
       (use h20 a0 in \<open>simp_all add: a_def sin_d_def\<close>)
  have h18: "(- 38562183039160412591927299 / 2 ^ 88) \<le> horner sin_d a 18 30 \<and> horner sin_d a 18 30 \<le> (- 154248732156641650367709195 / 2 ^ 90)"
    by (rule horner_step[where lo = "(- 610577252741398854213711953 / 2 ^ 89)" and hi = "(- 1221154505482797708427423905 / 2 ^ 90)"])
       (use h19 a0 in \<open>simp_all add: a_def sin_d_def\<close>)
  have h17: "(608686928381351147466464143 / 2 ^ 89) \<le> horner sin_d a 17 30 \<and> horner sin_d a 17 30 \<le> (38042933023834446716654009 / 2 ^ 85)"
    by (rule horner_step[where lo = "(- 38562183039160412591927299 / 2 ^ 88)" and hi = "(- 154248732156641650367709195 / 2 ^ 90)"])
       (use h18 a0 in \<open>simp_all add: a_def sin_d_def\<close>)
  have h16: "(42965477839168259852602927 / 2 ^ 88) \<le> horner sin_d a 16 30 \<and> horner sin_d a 16 30 \<le> (85930955678336519705205855 / 2 ^ 89)"
    by (rule horner_step[where lo = "(608686928381351147466464143 / 2 ^ 89)" and hi = "(38042933023834446716654009 / 2 ^ 85)"])
       (use h17 a0 in \<open>simp_all add: a_def sin_d_def\<close>)
  have h15: "(- 1212161147544948993297556805 / 2 ^ 90) \<le> horner sin_d a 15 30 \<and> horner sin_d a 15 30 \<le> (- 303040286886237248324389201 / 2 ^ 88)"
    by (rule horner_step[where lo = "(42965477839168259852602927 / 2 ^ 88)" and hi = "(85930955678336519705205855 / 2 ^ 89)"])
       (use h16 a0 in \<open>simp_all add: a_def sin_d_def\<close>)
  have h14: "(- 193942812174237742369784083 / 2 ^ 90) \<le> horner sin_d a 14 30 \<and> horner sin_d a 14 30 \<le> (- 96971406087118871184892041 / 2 ^ 89)"
    by (rule horner_step[where lo = "(- 1212161147544948993297556805 / 2 ^ 90)" and hi = "(- 303040286886237248324389201 / 2 ^ 88)"])
       (use h15 a0 in \<open>simp_all add: a_def sin_d_def\<close>)
  have h13: "(1204693209436213050187690105 / 2 ^ 90) \<le> horner sin_d a 13 30 \<and> horner sin_d a 13 30 \<le> (602346604718106525093845053 / 2 ^ 89)"
    by (rule horner_step[where lo = "(- 193942812174237742369784083 / 2 ^ 90)" and hi = "(- 96971406087118871184892041 / 2 ^ 89)"])
       (use h14 a0 in \<open>simp_all add: a_def sin_d_def\<close>)
  have h12: "(222401492750054656344040883 / 2 ^ 90) \<le> horner sin_d a 12 30 \<and> horner sin_d a 12 30 \<le> (55600373187513664086010221 / 2 ^ 88)"
    by (rule horner_step[where lo = "(1204693209436213050187690105 / 2 ^ 90)" and hi = "(602346604718106525093845053 / 2 ^ 89)"])
       (use h13 a0 in \<open>simp_all add: a_def sin_d_def\<close>)
  have h11: "(- 596730211107819521167775721 / 2 ^ 89) \<le> horner sin_d a 11 30 \<and> horner sin_d a 11 30 \<le> (- 1193460422215639042335551441 / 2 ^ 90)"
    by (rule horner_step[where lo = "(222401492750054656344040883 / 2 ^ 90)" and hi = "(55600373187513664086010221 / 2 ^ 88)"])
       (use h12 a0 in \<open>simp_all add: a_def sin_d_def\<close>)
  have h10: "(- 32548421925613261324955271 / 2 ^ 87) \<le> horner sin_d a 10 30 \<and> horner sin_d a 10 30 \<le> (- 260387375404906090599642167 / 2 ^ 90)"
    by (rule horner_step[where lo = "(- 596730211107819521167775721 / 2 ^ 89)" and hi = "(- 1193460422215639042335551441 / 2 ^ 90)"])
       (use h11 a0 in \<open>simp_all add: a_def sin_d_def\<close>)
  have h9: "(293862006659911927199989567 / 2 ^ 88) \<le> horner sin_d a 9 30 \<and> horner sin_d a 9 30 \<le> (1175448026639647708799958269 / 2 ^ 90)"
    by (rule horner_step[where lo = "(- 32548421925613261324955271 / 2 ^ 87)" and hi = "(- 260387375404906090599642167 / 2 ^ 90)"])
       (use h10 a0 in \<open>simp_all add: a_def sin_d_def\<close>)
  have h8: "(78362001177562798160265137 / 2 ^ 88) \<le> horner sin_d a 8 30 \<and> horner sin_d a 8 30 \<le> (313448004710251192641060549 / 2 ^ 90)"
    by (rule horner_step[where lo = "(293862006659911927199989567 / 2 ^ 88)" and hi = "(1175448026639647708799958269 / 2 ^ 90)"])
       (use h9 a0 in \<open>simp_all add: a_def sin_d_def\<close>)
  have h7: "(- 1143907078568328211292966251 / 2 ^ 90) \<le> horner sin_d a 7 30 \<and> horner sin_d a 7 30 \<le> (- 1143907078568328211292966249 / 2 ^ 90)"
    by (rule horner_step[where lo = "(78362001177562798160265137 / 2 ^ 88)" and hi = "(313448004710251192641060549 / 2 ^ 90)"])
       (use h8 a0 in \<open>simp_all add: a_def sin_d_def\<close>)
  have h6: "(- 392190703827187580282500001 / 2 ^ 90) \<le> horner sin_d a 6 30 \<and> horner sin_d a 6 30 \<le> (- 12255959494599611883828125 / 2 ^ 85)"
    by (rule horner_step[where lo = "(- 1143907078568328211292966251 / 2 ^ 90)" and hi = "(- 1143907078568328211292966249 / 2 ^ 90)"])
       (use h7 a0 in \<open>simp_all add: a_def sin_d_def\<close>)
  have h5: "(1081066161247605155094484289 / 2 ^ 90) \<le> horner sin_d a 5 30 \<and> horner sin_d a 5 30 \<le> (540533080623802577547242145 / 2 ^ 89)"
    by (rule horner_step[where lo = "(- 392190703827187580282500001 / 2 ^ 90)" and hi = "(- 12255959494599611883828125 / 2 ^ 85)"])
       (use h6 a0 in \<open>simp_all add: a_def sin_d_def\<close>)
  have h4: "(129725951794907965041756607 / 2 ^ 88) \<le> horner sin_d a 4 30 \<and> horner sin_d a 4 30 \<le> (518903807179631860167026429 / 2 ^ 90)"
    by (rule horner_step[where lo = "(1081066161247605155094484289 / 2 ^ 90)" and hi = "(540533080623802577547242145 / 2 ^ 89)"])
       (use h5 a0 in \<open>simp_all add: a_def sin_d_def\<close>)
  have h3: "(- 231650631259012349470468485 / 2 ^ 88) \<le> horner sin_d a 3 30 \<and> horner sin_d a 3 30 \<le> (- 463301262518024698940936969 / 2 ^ 89)"
    by (rule horner_step[where lo = "(129725951794907965041756607 / 2 ^ 88)" and hi = "(518903807179631860167026429 / 2 ^ 90)"])
       (use h4 a0 in \<open>simp_all add: a_def sin_d_def\<close>)
  have h2: "(- 185317665721686851480472893 / 2 ^ 88) \<le> horner sin_d a 2 30 \<and> horner sin_d a 2 30 \<le> (- 741270662886747405921891569 / 2 ^ 90)"
    by (rule horner_step[where lo = "(- 231650631259012349470468485 / 2 ^ 88)" and hi = "(- 463301262518024698940936969 / 2 ^ 89)"])
       (use h3 a0 in \<open>simp_all add: a_def sin_d_def\<close>)
  have h1: "(174214436091495662213404503 / 2 ^ 89) \<le> horner sin_d a 1 30 \<and> horner sin_d a 1 30 \<le> (174214436091495662213404505 / 2 ^ 89)"
    by (rule horner_step[where lo = "(- 185317665721686851480472893 / 2 ^ 88)" and hi = "(- 741270662886747405921891569 / 2 ^ 90)"])
       (use h2 a0 in \<open>simp_all add: a_def sin_d_def numeral_2_eq_2[symmetric]\<close>)
  have h0: "(13065882522109435954114265 / 2 ^ 84) \<le> horner sin_d a 0 30 \<and> horner sin_d a 0 30 \<le> (836216481415003901063312971 / 2 ^ 90)"
    by (rule horner_step[where lo = "(174214436091495662213404503 / 2 ^ 89)" and hi = "(174214436091495662213404505 / 2 ^ 89)"])
       (use h1 a0 in \<open>simp_all add: a_def sin_d_def\<close>)
  have "\<bar>a\<bar> \<le> (5 / 2 ^ 1)" by (simp add: a_def)
  then have "\<bar>a\<bar> ^ 30 \<le> (5 / 2 ^ 1) ^ 30" by (rule power_mono) simp
  then have "\<bar>a\<bar> ^ 30 / fact 30 \<le> (5 / 2 ^ 1) ^ 30 / fact 30" by (rule divide_right_mono) simp
  also have "\<dots> \<le> (2023997 / 2 ^ 89)" by (simp add: fact_numeral power_divide)
  finally have r: "\<bar>a\<bar> ^ 30 / fact 30 \<le> (2023997 / 2 ^ 89)" .
  have "\<bar>sin a - horner sin_d a 0 30\<bar> \<le> (2023997 / 2 ^ 89)"
    using sin_taylor[of a 30] r by linarith
  moreover have "((418108240707501950529632483 / 2 ^ 89) :: real) \<le> (13065882522109435954114265 / 2 ^ 84) - (2023997 / 2 ^ 89)" "((836216481415003901063312971 / 2 ^ 90) :: real) + (2023997 / 2 ^ 89) \<le> (836216481415003901067360965 / 2 ^ 90)" by simp_all
  ultimately have "(418108240707501950529632483 / 2 ^ 89) \<le> sin a \<and> sin a \<le> (836216481415003901067360965 / 2 ^ 90)"
    using h0 by linarith
  then show ?thesis by (simp add: a_def)
qed

lemma cos_angle_2:
  "(108227805090666146756520519 / 2 ^ 90) \<le> cos (5404236753554427 / 2 ^ 50 :: real) \<and> cos (5404236753554427 / 2 ^ 50 :: real) \<le> (108227805090666146756921307 / 2 ^ 90)"
proof -
  define a where "a = (5404236753554427 / 2 ^ 50 :: real)"
  have a0: "0 \<le> a" by (simp add: a_def)
  have h42: "0 \<le> horner cos_d a 42 42 \<and> horner cos_d a 42 42 \<le> 0"
    by (simp add: horner_end)
  have h41: "0 \<le> horner cos_d a 41 42 \<and> horner cos_d a 41 42 \<le> 0"
    by (rule horner_step[where lo = "0" and hi = "0"])
       (use h42 a0 in \<open>simp_all add: a_def cos_d_def\<close>)
  have h40: "1 \<le> horner cos_d a 40 42 \<and> horner cos_d a 40 42 \<le> 1"
    by (rule horner_step[where lo = "0" and hi = "0"])
       (use h41 a0 in \<open>simp_all add: a_def cos_d_def\<close>)
  have h39: "(37137632186171961153631027 / 2 ^ 88) \<le> horner cos_d a 39 42 \<and> horner cos_d a 39 42 \<le> (148550528744687844614524109 / 2 ^ 90)"
    by (rule horner_step[where lo = "1" and hi = "1"])
       (use h40 a0 in \<open>simp_all add: a_def cos_d_def\<close>)
  have h38: "(- 1219657177401072574735225455 / 2 ^ 90) \<le> horner cos_d a 38 42 \<and> horner cos_d a 38 42 \<le> (- 1219657177401072574735225453 / 2 ^ 90)"
    by (rule horner_step[where lo = "(37137632186171961153631027 / 2 ^ 88)" and hi = "(148550528744687844614524109 / 2 ^ 90)"])
       (use h39 a0 in \<open>simp_all add: a_def cos_d_def\<close>)
  have h37: "(- 154059598875642678766026601 / 2 ^ 90) \<le> horner cos_d a 37 42 \<and> horner cos_d a 37 42 \<le> (- 19257449859455334845753325 / 2 ^ 87)"
    by (rule horner_step[where lo = "(- 1219657177401072574735225455 / 2 ^ 90)" and hi = "(- 1219657177401072574735225453 / 2 ^ 90)"])
       (use h38 a0 in \<open>simp_all add: a_def cos_d_def\<close>)
  have h36: "(608977117683547213919370133 / 2 ^ 89) \<le> horner cos_d a 36 42 \<and> horner cos_d a 36 42 \<le> (1217954235367094427838740267 / 2 ^ 90)"
    by (rule horner_step[where lo = "(- 154059598875642678766026601 / 2 ^ 90)" and hi = "(- 19257449859455334845753325 / 2 ^ 87)"])
       (use h37 a0 in \<open>simp_all add: a_def cos_d_def\<close>)
  have h35: "(81195705010369556152575529 / 2 ^ 89) \<le> horner cos_d a 35 42 \<and> horner cos_d a 35 42 \<le> (162391410020739112305151059 / 2 ^ 90)"
    by (rule horner_step[where lo = "(608977117683547213919370133 / 2 ^ 89)" and hi = "(1217954235367094427838740267 / 2 ^ 90)"])
       (use h36 a0 in \<open>simp_all add: a_def cos_d_def\<close>)
  have h34: "(- 607834779274874051894144137 / 2 ^ 89) \<le> horner cos_d a 34 42 \<and> horner cos_d a 34 42 \<le> (- 1215669558549748103788288273 / 2 ^ 90)"
    by (rule horner_step[where lo = "(81195705010369556152575529 / 2 ^ 89)" and hi = "(162391410020739112305151059 / 2 ^ 90)"])
       (use h35 a0 in \<open>simp_all add: a_def cos_d_def\<close>)
  have h33: "(- 171621308236462315156694475 / 2 ^ 90) \<le> horner cos_d a 33 42 \<and> horner cos_d a 33 42 \<le> (- 85810654118231157578347237 / 2 ^ 89)"
    by (rule horner_step[where lo = "(- 607834779274874051894144137 / 2 ^ 89)" and hi = "(- 1215669558549748103788288273 / 2 ^ 90)"])
       (use h34 a0 in \<open>simp_all add: a_def cos_d_def\<close>)
  have h32: "(1212977322363838651596979249 / 2 ^ 90) \<le> horner cos_d a 32 42 \<and> horner cos_d a 32 42 \<le> (606488661181919325798489625 / 2 ^ 89)"
    by (rule horner_step[where lo = "(- 171621308236462315156694475 / 2 ^ 90)" and hi = "(- 85810654118231157578347237 / 2 ^ 89)"])
       (use h33 a0 in \<open>simp_all add: a_def cos_d_def\<close>)
  have h31: "(181943810760495734896962465 / 2 ^ 90) \<le> horner cos_d a 31 42 \<and> horner cos_d a 31 42 \<le> (90971905380247867448481233 / 2 ^ 89)"
    by (rule horner_step[where lo = "(1212977322363838651596979249 / 2 ^ 90)" and hi = "(606488661181919325798489625 / 2 ^ 89)"])
       (use h32 a0 in \<open>simp_all add: a_def cos_d_def\<close>)
  have h30: "(- 1209768526014290068211411503 / 2 ^ 90) \<le> horner cos_d a 30 42 \<and> horner cos_d a 30 42 \<le> (- 604884263007145034105705751 / 2 ^ 89)"
    by (rule horner_step[where lo = "(181943810760495734896962465 / 2 ^ 90)" and hi = "(90971905380247867448481233 / 2 ^ 89)"])
       (use h31 a0 in \<open>simp_all add: a_def cos_d_def\<close>)
  have h29: "(- 24194999824311063568369887 / 2 ^ 87) \<le> horner cos_d a 29 42 \<and> horner cos_d a 29 42 \<le> (- 193559998594488508546959095 / 2 ^ 90)"
    by (rule horner_step[where lo = "(- 1209768526014290068211411503 / 2 ^ 90)" and hi = "(- 604884263007145034105705751 / 2 ^ 89)"])
       (use h30 a0 in \<open>simp_all add: a_def cos_d_def\<close>)
  have h28: "(602951506560859027537188149 / 2 ^ 89) \<le> horner cos_d a 28 42 \<and> horner cos_d a 28 42 \<le> (1205903013121718055074376299 / 2 ^ 90)"
    by (rule horner_step[where lo = "(- 24194999824311063568369887 / 2 ^ 87)" and hi = "(- 193559998594488508546959095 / 2 ^ 90)"])
       (use h29 a0 in \<open>simp_all add: a_def cos_d_def\<close>)
  have h27: "(51680765894841299136626271 / 2 ^ 88) \<le> horner cos_d a 27 42 \<and> horner cos_d a 27 42 \<le> (206723063579365196546505085 / 2 ^ 90)"
    by (rule horner_step[where lo = "(602951506560859027537188149 / 2 ^ 89)" and hi = "(1205903013121718055074376299 / 2 ^ 90)"])
       (use h28 a0 in \<open>simp_all add: a_def cos_d_def\<close>)
  have h26: "(- 150148729435419432628029469 / 2 ^ 87) \<le> horner cos_d a 26 42 \<and> horner cos_d a 26 42 \<le> (- 1201189835483355461024235751 / 2 ^ 90)"
    by (rule horner_step[where lo = "(51680765894841299136626271 / 2 ^ 88)" and hi = "(206723063579365196546505085 / 2 ^ 90)"])
       (use h27 a0 in \<open>simp_all add: a_def cos_d_def\<close>)
  have h25: "(- 27719340741190992258293957 / 2 ^ 87) \<le> horner cos_d a 25 42 \<and> horner cos_d a 25 42 \<le> (- 221754725929527938066351655 / 2 ^ 90)"
    by (rule horner_step[where lo = "(- 150148729435419432628029469 / 2 ^ 87)" and hi = "(- 1201189835483355461024235751 / 2 ^ 90)"])
       (use h26 a0 in \<open>simp_all add: a_def cos_d_def\<close>)
  have h24: "(1195363784225426502430101437 / 2 ^ 90) \<le> horner cos_d a 24 42 \<and> horner cos_d a 24 42 \<le> (1195363784225426502430101439 / 2 ^ 90)"
    by (rule horner_step[where lo = "(- 27719340741190992258293957 / 2 ^ 87)" and hi = "(- 221754725929527938066351655 / 2 ^ 90)"])
       (use h25 a0 in \<open>simp_all add: a_def cos_d_def\<close>)
  have h23: "(239069094024193277456434053 / 2 ^ 90) \<le> horner cos_d a 23 42 \<and> horner cos_d a 23 42 \<le> (119534547012096638728217027 / 2 ^ 89)"
    by (rule horner_step[where lo = "(1195363784225426502430101437 / 2 ^ 90)" and hi = "(1195363784225426502430101439 / 2 ^ 90)"])
       (use h24 a0 in \<open>simp_all add: a_def cos_d_def\<close>)
  have h22: "(- 594024061598229010113937343 / 2 ^ 89) \<le> horner cos_d a 22 42 \<and> horner cos_d a 22 42 \<le> (- 1188048123196458020227874685 / 2 ^ 90)"
    by (rule horner_step[where lo = "(239069094024193277456434053 / 2 ^ 90)" and hi = "(119534547012096638728217027 / 2 ^ 89)"])
       (use h23 a0 in \<open>simp_all add: a_def cos_d_def\<close>)
  have h21: "(- 259206528256330553601076925 / 2 ^ 90) \<le> horner cos_d a 21 42 \<and> horner cos_d a 21 42 \<le> (- 64801632064082638400269231 / 2 ^ 88)"
    by (rule horner_step[where lo = "(- 594024061598229010113937343 / 2 ^ 89)" and hi = "(- 1188048123196458020227874685 / 2 ^ 90)"])
       (use h22 a0 in \<open>simp_all add: a_def cos_d_def\<close>)
  have h20: "(1178693740550064613510521435 / 2 ^ 90) \<le> horner cos_d a 20 42 \<and> horner cos_d a 20 42 \<le> (294673435137516153377630359 / 2 ^ 88)"
    by (rule horner_step[where lo = "(- 259206528256330553601076925 / 2 ^ 90)" and hi = "(- 64801632064082638400269231 / 2 ^ 88)"])
       (use h21 a0 in \<open>simp_all add: a_def cos_d_def\<close>)
  have h19: "(141441081821574005225056213 / 2 ^ 89) \<le> horner cos_d a 19 42 \<and> horner cos_d a 19 42 \<le> (70720540910787002612528107 / 2 ^ 88)"
    by (rule horner_step[where lo = "(1178693740550064613510521435 / 2 ^ 90)" and hi = "(294673435137516153377630359 / 2 ^ 88)"])
       (use h20 a0 in \<open>simp_all add: a_def cos_d_def\<close>)
  have h18: "(- 583238083269551250266504381 / 2 ^ 89) \<le> horner cos_d a 18 42 \<and> horner cos_d a 18 42 \<le> (- 1166476166539102500533008761 / 2 ^ 90)"
    by (rule horner_step[where lo = "(141441081821574005225056213 / 2 ^ 89)" and hi = "(70720540910787002612528107 / 2 ^ 88)"])
       (use h19 a0 in \<open>simp_all add: a_def cos_d_def\<close>)
  have h17: "(- 311055545338742513086497167 / 2 ^ 90) \<le> horner cos_d a 17 42 \<and> horner cos_d a 17 42 \<le> (- 155527772669371256543248583 / 2 ^ 89)"
    by (rule horner_step[where lo = "(- 583238083269551250266504381 / 2 ^ 89)" and hi = "(- 1166476166539102500533008761 / 2 ^ 90)"])
       (use h18 a0 in \<open>simp_all add: a_def cos_d_def\<close>)
  have h16: "(1150113936789359574331269181 / 2 ^ 90) \<le> horner cos_d a 16 42 \<and> horner cos_d a 16 42 \<le> (1150113936789359574331269183 / 2 ^ 90)"
    by (rule horner_step[where lo = "(- 311055545338742513086497167 / 2 ^ 90)" and hi = "(- 155527772669371256543248583 / 2 ^ 89)"])
       (use h17 a0 in \<open>simp_all add: a_def cos_d_def\<close>)
  have h15: "(345028894786615916743565933 / 2 ^ 90) \<le> horner cos_d a 15 42 \<and> horner cos_d a 15 42 \<le> (172514447393307958371782967 / 2 ^ 89)"
    by (rule horner_step[where lo = "(1150113936789359574331269181 / 2 ^ 90)" and hi = "(1150113936789359574331269183 / 2 ^ 90)"])
       (use h16 a0 in \<open>simp_all add: a_def cos_d_def\<close>)
  have h14: "(- 1127532484527807693456906535 / 2 ^ 90) \<le> horner cos_d a 14 42 \<and> horner cos_d a 14 42 \<le> (- 563766242263903846728453267 / 2 ^ 89)"
    by (rule horner_step[where lo = "(345028894786615916743565933 / 2 ^ 90)" and hi = "(172514447393307958371782967 / 2 ^ 89)"])
       (use h15 a0 in \<open>simp_all add: a_def cos_d_def\<close>)
  have h13: "(- 386576643313047126447103071 / 2 ^ 90) \<le> horner cos_d a 13 42 \<and> horner cos_d a 13 42 \<le> (- 386576643313047126447103069 / 2 ^ 90)"
    by (rule horner_step[where lo = "(- 1127532484527807693456906535 / 2 ^ 90)" and hi = "(- 563766242263903846728453267 / 2 ^ 89)"])
       (use h14 a0 in \<open>simp_all add: a_def cos_d_def\<close>)
  have h12: "(547603117379363822624941499 / 2 ^ 89) \<le> horner cos_d a 12 42 \<and> horner cos_d a 12 42 \<le> (136900779344840955656235375 / 2 ^ 87)"
    by (rule horner_step[where lo = "(- 386576643313047126447103071 / 2 ^ 90)" and hi = "(- 386576643313047126447103069 / 2 ^ 90)"])
       (use h13 a0 in \<open>simp_all add: a_def cos_d_def\<close>)
  have h11: "(219037891032542783960606823 / 2 ^ 89) \<le> horner cos_d a 11 42 \<and> horner cos_d a 11 42 \<le> (27379736379067847995075853 / 2 ^ 86)"
    by (rule horner_step[where lo = "(547603117379363822624941499 / 2 ^ 89)" and hi = "(136900779344840955656235375 / 2 ^ 87)"])
       (use h12 a0 in \<open>simp_all add: a_def cos_d_def\<close>)
  have h10: "(- 1046782626777956946537553643 / 2 ^ 90) \<le> horner cos_d a 10 42 \<and> horner cos_d a 10 42 \<le> (- 1046782626777956946537553641 / 2 ^ 90)"
    by (rule horner_step[where lo = "(219037891032542783960606823 / 2 ^ 89)" and hi = "(27379736379067847995075853 / 2 ^ 86)"])
       (use h11 a0 in \<open>simp_all add: a_def cos_d_def\<close>)
  have h9: "(- 62805995344646719537557165 / 2 ^ 87) \<le> horner cos_d a 9 42 \<and> horner cos_d a 9 42 \<le> (- 251223981378586878150228659 / 2 ^ 89)"
    by (rule horner_step[where lo = "(- 1046782626777956946537553643 / 2 ^ 90)" and hi = "(- 1046782626777956946537553641 / 2 ^ 90)"])
       (use h10 a0 in \<open>simp_all add: a_def cos_d_def\<close>)
  have h8: "(969971898069982782535632399 / 2 ^ 90) \<le> horner cos_d a 8 42 \<and> horner cos_d a 8 42 \<le> (969971898069982782535632401 / 2 ^ 90)"
    by (rule horner_step[where lo = "(- 62805995344646719537557165 / 2 ^ 87)" and hi = "(- 251223981378586878150228659 / 2 ^ 89)"])
       (use h9 a0 in \<open>simp_all add: a_def cos_d_def\<close>)
  have h7: "(290987111154758467056886533 / 2 ^ 89) \<le> horner cos_d a 7 42 \<and> horner cos_d a 7 42 \<le> (145493555577379233528443267 / 2 ^ 88)"
    by (rule horner_step[where lo = "(969971898069982782535632399 / 2 ^ 90)" and hi = "(969971898069982782535632401 / 2 ^ 90)"])
       (use h8 a0 in \<open>simp_all add: a_def cos_d_def\<close>)
  have h6: "(- 838878115230303304787381171 / 2 ^ 90) \<le> horner cos_d a 6 42 \<and> horner cos_d a 6 42 \<le> (- 838878115230303304787381169 / 2 ^ 90)"
    by (rule horner_step[where lo = "(290987111154758467056886533 / 2 ^ 89)" and hi = "(145493555577379233528443267 / 2 ^ 88)"])
       (use h7 a0 in \<open>simp_all add: a_def cos_d_def\<close>)
  have h5: "(- 671092210258934633987314429 / 2 ^ 90) \<le> horner cos_d a 5 42 \<and> horner cos_d a 5 42 \<le> (- 671092210258934633987314427 / 2 ^ 90)"
    by (rule horner_step[where lo = "(- 838878115230303304787381171 / 2 ^ 90)" and hi = "(- 838878115230303304787381169 / 2 ^ 90)"])
       (use h6 a0 in \<open>simp_all add: a_def cos_d_def\<close>)
  have h4: "(296850693966935521151192215 / 2 ^ 89) \<le> horner cos_d a 4 42 \<and> horner cos_d a 4 42 \<le> (593701387933871042302384433 / 2 ^ 90)"
    by (rule horner_step[where lo = "(- 671092210258934633987314429 / 2 ^ 90)" and hi = "(- 671092210258934633987314427 / 2 ^ 90)"])
       (use h5 a0 in \<open>simp_all add: a_def cos_d_def\<close>)
  have h3: "(712430750240078558506379379 / 2 ^ 90) \<le> horner cos_d a 3 42 \<and> horner cos_d a 3 42 \<le> (89053843780009819813297423 / 2 ^ 87)"
    by (rule horner_step[where lo = "(296850693966935521151192215 / 2 ^ 89)" and hi = "(593701387933871042302384433 / 2 ^ 90)"])
       (use h4 a0 in \<open>simp_all add: a_def cos_d_def\<close>)
  have h2: "(- 98068303082589403389103601 / 2 ^ 90) \<le> horner cos_d a 2 42 \<and> horner cos_d a 2 42 \<le> (- 12258537885323675423637949 / 2 ^ 87)"
    by (rule horner_step[where lo = "(712430750240078558506379379 / 2 ^ 90)" and hi = "(89053843780009819813297423 / 2 ^ 87)"])
       (use h3 a0 in \<open>simp_all add: a_def cos_d_def\<close>)
  have h1: "(- 117680160700049843586635853 / 2 ^ 89) \<le> horner cos_d a 1 42 \<and> horner cos_d a 1 42 \<le> (- 235360321400099687173271683 / 2 ^ 90)"
    by (rule horner_step[where lo = "(- 98068303082589403389103601 / 2 ^ 90)" and hi = "(- 12258537885323675423637949 / 2 ^ 87)"])
       (use h2 a0 in \<open>simp_all add: a_def cos_d_def numeral_2_eq_2[symmetric]\<close>)
  have h0: "(108227805090666146756720857 / 2 ^ 90) \<le> horner cos_d a 0 42 \<and> horner cos_d a 0 42 \<le> (108227805090666146756720969 / 2 ^ 90)"
    by (rule horner_step[where lo = "(- 117680160700049843586635853 / 2 ^ 89)" and hi = "(- 235360321400099687173271683 / 2 ^ 90)"])
       (use h1 a0 in \<open>simp_all add: a_def cos_d_def\<close>)
  have "\<bar>a\<bar> \<le> 5" by (simp add: a_def)
  then have "\<bar>a\<bar> ^ 42 \<le> 5 ^ 42" by (rule power_mono) simp
  then have "\<bar>a\<bar> ^ 42 / fact 42 \<le> 5 ^ 42 / fact 42" by (rule divide_right_mono) simp
  also have "\<dots> \<le> (100169 / 2 ^ 89)" by (simp add: fact_numeral power_divide)
  finally have r: "\<bar>a\<bar> ^ 42 / fact 42 \<le> (100169 / 2 ^ 89)" .
  have "\<bar>cos a - horner cos_d a 0 42\<bar> \<le> (100169 / 2 ^ 89)"
    using cos_taylor[of a 42] r by linarith
  moreover have "((108227805090666146756520519 / 2 ^ 90) :: real) \<le> (108227805090666146756720857 / 2 ^ 90) - (100169 / 2 ^ 89)" "((108227805090666146756720969 / 2 ^ 90) :: real) + (100169 / 2 ^ 89) \<le> (108227805090666146756921307 / 2 ^ 90)" by simp_all
  ultimately have "(108227805090666146756520519 / 2 ^ 90) \<le> cos a \<and> cos a \<le> (108227805090666146756921307 / 2 ^ 90)"
    using h0 by linarith
  then show ?thesis by (simp add: a_def)
qed

lemma sin_angle_2:
  "(- 1233200017463163044228827377 / 2 ^ 90) \<le> sin (5404236753554427 / 2 ^ 50 :: real) \<and> sin (5404236753554427 / 2 ^ 50 :: real) \<le> (- 308300004365790761057106639 / 2 ^ 88)"
proof -
  define a where "a = (5404236753554427 / 2 ^ 50 :: real)"
  have a0: "0 \<le> a" by (simp add: a_def)
  have h42: "0 \<le> horner sin_d a 42 42 \<and> horner sin_d a 42 42 \<le> 0"
    by (simp add: horner_end)
  have h41: "1 \<le> horner sin_d a 41 42 \<and> horner sin_d a 41 42 \<le> 1"
    by (rule horner_step[where lo = "0" and hi = "0"])
       (use h42 a0 in \<open>simp_all add: a_def sin_d_def\<close>)
  have h40: "(72463672558384314446109321 / 2 ^ 89) \<le> horner sin_d a 40 42 \<and> horner sin_d a 40 42 \<le> (144927345116768628892218643 / 2 ^ 90)"
    by (rule horner_step[where lo = "1" and hi = "1"])
       (use h41 a0 in \<open>simp_all add: a_def sin_d_def\<close>)
  have h39: "(- 1220549024322258316206635151 / 2 ^ 90) \<le> horner sin_d a 39 42 \<and> horner sin_d a 39 42 \<le> (- 1220549024322258316206635149 / 2 ^ 90)"
    by (rule horner_step[where lo = "(72463672558384314446109321 / 2 ^ 89)" and hi = "(144927345116768628892218643 / 2 ^ 90)"])
       (use h40 a0 in \<open>simp_all add: a_def sin_d_def\<close>)
  have h38: "(- 150219116843825814571865761 / 2 ^ 90) \<le> horner sin_d a 38 42 \<and> horner sin_d a 38 42 \<le> (- 150219116843825814571865759 / 2 ^ 90)"
    by (rule horner_step[where lo = "(- 1220549024322258316206635151 / 2 ^ 90)" and hi = "(- 1220549024322258316206635149 / 2 ^ 90)"])
       (use h39 a0 in \<open>simp_all add: a_def sin_d_def\<close>)
  have h37: "(609482641831440292462395313 / 2 ^ 89) \<le> horner sin_d a 37 42 \<and> horner sin_d a 37 42 \<le> (1218965283662880584924790627 / 2 ^ 90)"
    by (rule horner_step[where lo = "(- 150219116843825814571865761 / 2 ^ 90)" and hi = "(- 150219116843825814571865759 / 2 ^ 90)"])
       (use h38 a0 in \<open>simp_all add: a_def sin_d_def\<close>)
  have h36: "(9883350875360373708037067 / 2 ^ 86) \<le> horner sin_d a 36 42 \<and> horner sin_d a 36 42 \<le> (158133614005765979328593073 / 2 ^ 90)"
    by (rule horner_step[where lo = "(609482641831440292462395313 / 2 ^ 89)" and hi = "(1218965283662880584924790627 / 2 ^ 90)"])
       (use h37 a0 in \<open>simp_all add: a_def sin_d_def\<close>)
  have h35: "(- 608427940226080629511053891 / 2 ^ 89) \<le> horner sin_d a 35 42 \<and> horner sin_d a 35 42 \<le> (- 1216855880452161259022107781 / 2 ^ 90)"
    by (rule horner_step[where lo = "(9883350875360373708037067 / 2 ^ 86)" and hi = "(158133614005765979328593073 / 2 ^ 90)"])
       (use h36 a0 in \<open>simp_all add: a_def sin_d_def\<close>)
  have h34: "(- 166880535369387009924160689 / 2 ^ 90) \<le> horner sin_d a 34 42 \<and> horner sin_d a 34 42 \<le> (- 10430033460586688120260043 / 2 ^ 86)"
    by (rule horner_step[where lo = "(- 608427940226080629511053891 / 2 ^ 89)" and hi = "(- 1216855880452161259022107781 / 2 ^ 90)"])
       (use h35 a0 in \<open>simp_all add: a_def sin_d_def\<close>)
  have h33: "(1214380795247500229692861653 / 2 ^ 90) \<le> horner sin_d a 33 42 \<and> horner sin_d a 33 42 \<le> (607190397623750114846430827 / 2 ^ 89)"
    by (rule horner_step[where lo = "(- 166880535369387009924160689 / 2 ^ 90)" and hi = "(- 10430033460586688120260043 / 2 ^ 86)"])
       (use h34 a0 in \<open>simp_all add: a_def sin_d_def\<close>)
  have h32: "(88317250166140629862731349 / 2 ^ 89) \<le> horner sin_d a 32 42 \<and> horner sin_d a 32 42 \<le> (176634500332281259725462699 / 2 ^ 90)"
    by (rule horner_step[where lo = "(1214380795247500229692861653 / 2 ^ 90)" and hi = "(607190397623750114846430827 / 2 ^ 89)"])
       (use h33 a0 in \<open>simp_all add: a_def sin_d_def\<close>)
  have h31: "(- 75715329385418421189621029 / 2 ^ 86) \<le> horner sin_d a 31 42 \<and> horner sin_d a 31 42 \<le> (- 1211445270166694739033936463 / 2 ^ 90)"
    by (rule horner_step[where lo = "(88317250166140629862731349 / 2 ^ 89)" and hi = "(176634500332281259725462699 / 2 ^ 90)"])
       (use h32 a0 in \<open>simp_all add: a_def sin_d_def\<close>)
  have h30: "(- 23446968574425494958551897 / 2 ^ 87) \<le> horner sin_d a 30 42 \<and> horner sin_d a 30 42 \<le> (- 187575748595403959668415175 / 2 ^ 90)"
    by (rule horner_step[where lo = "(- 75715329385418421189621029 / 2 ^ 86)" and hi = "(- 1211445270166694739033936463 / 2 ^ 90)"])
       (use h31 a0 in \<open>simp_all add: a_def sin_d_def\<close>)
  have h29: "(1207928379324193905270684627 / 2 ^ 90) \<le> horner sin_d a 29 42 \<and> horner sin_d a 29 42 \<le> (301982094831048476317671157 / 2 ^ 88)"
    by (rule horner_step[where lo = "(- 23446968574425494958551897 / 2 ^ 87)" and hi = "(- 187575748595403959668415175 / 2 ^ 90)"])
       (use h30 a0 in \<open>simp_all add: a_def sin_d_def\<close>)
  have h28: "(199929909967157927597223119 / 2 ^ 90) \<le> horner sin_d a 28 42 \<and> horner sin_d a 28 42 \<le> (12495619372947370474826445 / 2 ^ 86)"
    by (rule horner_step[where lo = "(1207928379324193905270684627 / 2 ^ 90)" and hi = "(301982094831048476317671157 / 2 ^ 88)"])
       (use h29 a0 in \<open>simp_all add: a_def sin_d_def\<close>)
  have h27: "(- 601833432769685167301234269 / 2 ^ 89) \<le> horner sin_d a 27 42 \<and> horner sin_d a 27 42 \<le> (- 1203666865539370334602468537 / 2 ^ 90)"
    by (rule horner_step[where lo = "(199929909967157927597223119 / 2 ^ 90)" and hi = "(12495619372947370474826445 / 2 ^ 86)"])
       (use h28 a0 in \<open>simp_all add: a_def sin_d_def\<close>)
  have h26: "(- 26747742760529922196782375 / 2 ^ 87) \<le> horner sin_d a 26 42 \<and> horner sin_d a 26 42 \<le> (- 213981942084239377574258999 / 2 ^ 90)"
    by (rule horner_step[where lo = "(- 601833432769685167301234269 / 2 ^ 89)" and hi = "(- 1203666865539370334602468537 / 2 ^ 90)"])
       (use h27 a0 in \<open>simp_all add: a_def sin_d_def\<close>)
  have h25: "(1198436285990910988509174375 / 2 ^ 90) \<le> horner sin_d a 25 42 \<and> horner sin_d a 25 42 \<le> (149804535748863873563646797 / 2 ^ 87)"
    by (rule horner_step[where lo = "(- 26747742760529922196782375 / 2 ^ 87)" and hi = "(- 213981942084239377574258999 / 2 ^ 90)"])
       (use h26 a0 in \<open>simp_all add: a_def sin_d_def\<close>)
  have h24: "(28762030195507584652440885 / 2 ^ 87) \<le> horner sin_d a 24 42 \<and> horner sin_d a 24 42 \<le> (230096241564060677219527081 / 2 ^ 90)"
    by (rule horner_step[where lo = "(1198436285990910988509174375 / 2 ^ 90)" and hi = "(149804535748863873563646797 / 2 ^ 87)"])
       (use h25 a0 in \<open>simp_all add: a_def sin_d_def\<close>)
  have h23: "(- 595960748015502328978622801 / 2 ^ 89) \<le> horner sin_d a 23 42 \<and> horner sin_d a 23 42 \<le> (- 1191921496031004657957245601 / 2 ^ 90)"
    by (rule horner_step[where lo = "(28762030195507584652440885 / 2 ^ 87)" and hi = "(230096241564060677219527081 / 2 ^ 90)"])
       (use h24 a0 in \<open>simp_all add: a_def sin_d_def\<close>)
  have h22: "(- 124372511443372950696026165 / 2 ^ 89) \<le> horner sin_d a 22 42 \<and> horner sin_d a 22 42 \<le> (- 248745022886745901392052329 / 2 ^ 90)"
    by (rule horner_step[where lo = "(- 595960748015502328978622801 / 2 ^ 89)" and hi = "(- 1191921496031004657957245601 / 2 ^ 90)"])
       (use h23 a0 in \<open>simp_all add: a_def sin_d_def\<close>)
  have h21: "(147958653677647506903333195 / 2 ^ 87) \<le> horner sin_d a 21 42 \<and> horner sin_d a 21 42 \<le> (1183669229421180055226665561 / 2 ^ 90)"
    by (rule horner_step[where lo = "(- 124372511443372950696026165 / 2 ^ 89)" and hi = "(- 248745022886745901392052329 / 2 ^ 90)"])
       (use h22 a0 in \<open>simp_all add: a_def sin_d_def\<close>)
  have h20: "(135274410798670537619760243 / 2 ^ 89) \<le> horner sin_d a 20 42 \<and> horner sin_d a 20 42 \<le> (270548821597341075239520487 / 2 ^ 90)"
    by (rule horner_step[where lo = "(147958653677647506903333195 / 2 ^ 87)" and hi = "(1183669229421180055226665561 / 2 ^ 90)"])
       (use h21 a0 in \<open>simp_all add: a_def sin_d_def\<close>)
  have h19: "(- 293252329229344172451220895 / 2 ^ 88) \<le> horner sin_d a 19 42 \<and> horner sin_d a 19 42 \<le> (- 1173009316917376689804883579 / 2 ^ 90)"
    by (rule horner_step[where lo = "(135274410798670537619760243 / 2 ^ 89)" and hi = "(270548821597341075239520487 / 2 ^ 90)"])
       (use h20 a0 in \<open>simp_all add: a_def sin_d_def\<close>)
  have h18: "(- 148167327827938342763804669 / 2 ^ 89) \<le> horner sin_d a 18 42 \<and> horner sin_d a 18 42 \<le> (- 296334655655876685527609337 / 2 ^ 90)"
    by (rule horner_step[where lo = "(- 293252329229344172451220895 / 2 ^ 88)" and hi = "(- 1173009316917376689804883579 / 2 ^ 90)"])
       (use h19 a0 in \<open>simp_all add: a_def sin_d_def\<close>)
  have h17: "(579459337572223133223960721 / 2 ^ 89) \<le> horner sin_d a 17 42 \<and> horner sin_d a 17 42 \<le> (1158918675144446266447921443 / 2 ^ 90)"
    by (rule horner_step[where lo = "(- 148167327827938342763804669 / 2 ^ 89)" and hi = "(- 296334655655876685527609337 / 2 ^ 90)"])
       (use h18 a0 in \<open>simp_all add: a_def sin_d_def\<close>)
  have h16: "(163609541564265702333123211 / 2 ^ 89) \<le> horner sin_d a 16 42 \<and> horner sin_d a 16 42 \<le> (327219083128531404666246423 / 2 ^ 90)"
    by (rule horner_step[where lo = "(579459337572223133223960721 / 2 ^ 89)" and hi = "(1158918675144446266447921443 / 2 ^ 90)"])
       (use h17 a0 in \<open>simp_all add: a_def sin_d_def\<close>)
  have h15: "(- 1139775818338630420207933735 / 2 ^ 90) \<le> horner sin_d a 15 42 \<and> horner sin_d a 15 42 \<le> (- 569887909169315210103966867 / 2 ^ 89)"
    by (rule horner_step[where lo = "(163609541564265702333123211 / 2 ^ 89)" and hi = "(327219083128531404666246423 / 2 ^ 90)"])
       (use h16 a0 in \<open>simp_all add: a_def sin_d_def\<close>)
  have h14: "(- 364722673886213068558815875 / 2 ^ 90) \<le> horner sin_d a 14 42 \<and> horner sin_d a 14 42 \<le> (- 182361336943106534279407937 / 2 ^ 89)"
    by (rule horner_step[where lo = "(- 1139775818338630420207933735 / 2 ^ 90)" and hi = "(- 569887909169315210103966867 / 2 ^ 89)"])
       (use h15 a0 in \<open>simp_all add: a_def sin_d_def\<close>)
  have h13: "(1112894181231776534006133297 / 2 ^ 90) \<le> horner sin_d a 13 42 \<and> horner sin_d a 13 42 \<le> (556447090615888267003066649 / 2 ^ 89)"
    by (rule horner_step[where lo = "(- 364722673886213068558815875 / 2 ^ 90)" and hi = "(- 182361336943106534279407937 / 2 ^ 89)"])
       (use h14 a0 in \<open>simp_all add: a_def sin_d_def\<close>)
  have h12: "(205454239502710719719153019 / 2 ^ 89) \<le> horner sin_d a 12 42 \<and> horner sin_d a 12 42 \<le> (51363559875677679929788255 / 2 ^ 87)"
    by (rule horner_step[where lo = "(1112894181231776534006133297 / 2 ^ 90)" and hi = "(556447090615888267003066649 / 2 ^ 89)"])
       (use h13 a0 in \<open>simp_all add: a_def sin_d_def\<close>)
  have h11: "(- 1073579165885923663884593001 / 2 ^ 90) \<le> horner sin_d a 11 42 \<and> horner sin_d a 11 42 \<le> (- 1073579165885923663884592999 / 2 ^ 90)"
    by (rule horner_step[where lo = "(205454239502710719719153019 / 2 ^ 89)" and hi = "(51363559875677679929788255 / 2 ^ 87)"])
       (use h12 a0 in \<open>simp_all add: a_def sin_d_def\<close>)
  have h10: "(- 468463731332540862591992115 / 2 ^ 90) \<le> horner sin_d a 10 42 \<and> horner sin_d a 10 42 \<le> (- 468463731332540862591992113 / 2 ^ 90)"
    by (rule horner_step[where lo = "(- 1073579165885923663884593001 / 2 ^ 90)" and hi = "(- 1073579165885923663884592999 / 2 ^ 90)"])
       (use h11 a0 in \<open>simp_all add: a_def sin_d_def\<close>)
  have h9: "(253270223338366030136777921 / 2 ^ 88) \<le> horner sin_d a 9 42 \<and> horner sin_d a 9 42 \<le> (506540446676732060273555843 / 2 ^ 89)"
    by (rule horner_step[where lo = "(- 468463731332540862591992115 / 2 ^ 90)" and hi = "(- 468463731332540862591992113 / 2 ^ 90)"])
       (use h10 a0 in \<open>simp_all add: a_def sin_d_def\<close>)
  have h8: "(270150765865440986670127093 / 2 ^ 89) \<le> horner sin_d a 8 42 \<and> horner sin_d a 8 42 \<le> (135075382932720493335063547 / 2 ^ 88)"
    by (rule horner_step[where lo = "(253270223338366030136777921 / 2 ^ 88)" and hi = "(506540446676732060273555843 / 2 ^ 89)"])
       (use h9 a0 in \<open>simp_all add: a_def sin_d_def\<close>)
  have h7: "(- 456882043502666909562633579 / 2 ^ 89) \<le> horner sin_d a 7 42 \<and> horner sin_d a 7 42 \<le> (- 228441021751333454781316789 / 2 ^ 88)"
    by (rule horner_step[where lo = "(270150765865440986670127093 / 2 ^ 89)" and hi = "(135075382932720493335063547 / 2 ^ 88)"])
       (use h8 a0 in \<open>simp_all add: a_def sin_d_def\<close>)
  have h6: "(- 626571488416964254017511811 / 2 ^ 90) \<le> horner sin_d a 6 42 \<and> horner sin_d a 6 42 \<le> (- 4895089753257533234511811 / 2 ^ 83)"
    by (rule horner_step[where lo = "(- 456882043502666909562633579 / 2 ^ 89)" and hi = "(- 228441021751333454781316789 / 2 ^ 88)"])
       (use h7 a0 in \<open>simp_all add: a_def sin_d_def\<close>)
  have h5: "(736690528286357988051632391 / 2 ^ 90) \<le> horner sin_d a 5 42 \<and> horner sin_d a 5 42 \<le> (736690528286357988051632395 / 2 ^ 90)"
    by (rule horner_step[where lo = "(- 626571488416964254017511811 / 2 ^ 90)" and hi = "(- 4895089753257533234511811 / 2 ^ 83)"])
       (use h6 a0 in \<open>simp_all add: a_def sin_d_def\<close>)
  have h4: "(707212071830654143957060005 / 2 ^ 90) \<le> horner sin_d a 4 42 \<and> horner sin_d a 4 42 \<le> (353606035915327071978530005 / 2 ^ 89)"
    by (rule horner_step[where lo = "(736690528286357988051632391 / 2 ^ 90)" and hi = "(736690528286357988051632395 / 2 ^ 90)"])
       (use h5 a0 in \<open>simp_all add: a_def sin_d_def\<close>)
  have h3: "(- 194649277639242912622050569 / 2 ^ 89) \<le> horner sin_d a 3 42 \<and> horner sin_d a 3 42 \<le> (- 389298555278485825244101131 / 2 ^ 90)"
    by (rule horner_step[where lo = "(707212071830654143957060005 / 2 ^ 90)" and hi = "(353606035915327071978530005 / 2 ^ 89)"])
       (use h4 a0 in \<open>simp_all add: a_def sin_d_def\<close>)
  have h2: "(- 19464629542809446211743833 / 2 ^ 85) \<le> horner sin_d a 2 42 \<and> horner sin_d a 2 42 \<le> (- 155717036342475569693950661 / 2 ^ 88)"
    by (rule horner_step[where lo = "(- 194649277639242912622050569 / 2 ^ 89)" and hi = "(- 389298555278485825244101131 / 2 ^ 90)"])
       (use h3 a0 in \<open>simp_all add: a_def sin_d_def\<close>)
  have h1: "(- 256920606571666576343061989 / 2 ^ 90) \<le> horner sin_d a 1 42 \<and> horner sin_d a 1 42 \<le> (- 256920606571666576343061959 / 2 ^ 90)"
    by (rule horner_step[where lo = "(- 19464629542809446211743833 / 2 ^ 85)" and hi = "(- 155717036342475569693950661 / 2 ^ 88)"])
       (use h2 a0 in \<open>simp_all add: a_def sin_d_def numeral_2_eq_2[symmetric]\<close>)
  have h0: "(- 1233200017463163044228627039 / 2 ^ 90) \<le> horner sin_d a 0 42 \<and> horner sin_d a 0 42 \<le> (- 616600008731581522114313447 / 2 ^ 89)"
    by (rule horner_step[where lo = "(- 256920606571666576343061989 / 2 ^ 90)" and hi = "(- 256920606571666576343061959 / 2 ^ 90)"])
       (use h1 a0 in \<open>simp_all add: a_def sin_d_def\<close>)
  have "\<bar>a\<bar> \<le> 5" by (simp add: a_def)
  then have "\<bar>a\<bar> ^ 42 \<le> 5 ^ 42" by (rule power_mono) simp
  then have "\<bar>a\<bar> ^ 42 / fact 42 \<le> 5 ^ 42 / fact 42" by (rule divide_right_mono) simp
  also have "\<dots> \<le> (100169 / 2 ^ 89)" by (simp add: fact_numeral power_divide)
  finally have r: "\<bar>a\<bar> ^ 42 / fact 42 \<le> (100169 / 2 ^ 89)" .
  have "\<bar>sin a - horner sin_d a 0 42\<bar> \<le> (100169 / 2 ^ 89)"
    using sin_taylor[of a 42] r by linarith
  moreover have "((- 1233200017463163044228827377 / 2 ^ 90) :: real) \<le> (- 1233200017463163044228627039 / 2 ^ 90) - (100169 / 2 ^ 89)" "((- 616600008731581522114313447 / 2 ^ 89) :: real) + (100169 / 2 ^ 89) \<le> (- 308300004365790761057106639 / 2 ^ 88)" by simp_all
  ultimately have "(- 1233200017463163044228827377 / 2 ^ 90) \<le> sin a \<and> sin a \<le> (- 308300004365790761057106639 / 2 ^ 88)"
    using h0 by linarith
  then show ?thesis by (simp add: a_def)
qed

lemma cos_lipschitz: "\<bar>cos x - cos y\<bar> \<le> \<bar>x - y\<bar>" for x y :: real
proof -
  have "\<bar>cos x - cos y\<bar> = 2 * (\<bar>sin ((x + y) / 2)\<bar> * \<bar>sin ((y - x) / 2)\<bar>)"
    by (simp add: cos_diff_cos abs_mult)
  also have "\<bar>sin ((x + y) / 2)\<bar> * \<bar>sin ((y - x) / 2)\<bar> \<le> 1 * \<bar>(y - x) / 2\<bar>"
    by (intro mult_mono abs_sin_x_le_abs_x) simp_all
  finally show ?thesis by simp
qed

lemma sin_lipschitz: "\<bar>sin x - sin y\<bar> \<le> \<bar>x - y\<bar>" for x y :: real
proof -
  have "\<bar>sin x - sin y\<bar> = 2 * (\<bar>sin ((x - y) / 2)\<bar> * \<bar>cos ((x + y) / 2)\<bar>)"
    by (simp add: sin_diff_sin abs_mult)
  also have "\<bar>sin ((x - y) / 2)\<bar> * \<bar>cos ((x + y) / 2)\<bar> \<le> \<bar>(x - y) / 2\<bar> * 1"
    by (intro mult_mono abs_sin_x_le_abs_x) simp_all
  finally show ?thesis by simp
qed

lemma sin_below_pi:
  "(320018823 / 2 ^ 88) \<le> sin (905502432259640355 / 2 ^ 58 :: real) \<and> sin (905502432259640355 / 2 ^ 58 :: real) \<le> (160009415 / 2 ^ 87)"
proof -
  define a where "a = (905502432259640355 / 2 ^ 58 :: real)"
  have a0: "0 \<le> a" by (simp add: a_def)
  have h46: "0 \<le> horner sin_d a 46 46 \<and> horner sin_d a 46 46 \<le> 0"
    by (simp add: horner_end)
  have h45: "1 \<le> horner sin_d a 45 46 \<and> horner sin_d a 45 46 \<le> 1"
    by (rule horner_step[where lo = "0" and hi = "0"])
       (use h46 a0 in \<open>simp_all add: a_def sin_d_def\<close>)
  have h44: "(86424518511191349009929557 / 2 ^ 90) \<le> horner sin_d a 44 46 \<and> horner sin_d a 44 46 \<le> (43212259255595674504964779 / 2 ^ 89)"
    by (rule horner_step[where lo = "1" and hi = "1"])
       (use h45 a0 in \<open>simp_all add: a_def sin_d_def\<close>)
  have h43: "(- 307942335773363285560618115 / 2 ^ 88) \<le> horner sin_d a 43 46 \<and> horner sin_d a 43 46 \<le> (- 1231769343093453142242472459 / 2 ^ 90)"
    by (rule horner_step[where lo = "(86424518511191349009929557 / 2 ^ 90)" and hi = "(43212259255595674504964779 / 2 ^ 89)"])
       (use h44 a0 in \<open>simp_all add: a_def sin_d_def\<close>)
  have h42: "(- 89993430678593439830165383 / 2 ^ 90) \<le> horner sin_d a 42 46 \<and> horner sin_d a 42 46 \<le> (- 44996715339296719915082691 / 2 ^ 89)"
    by (rule horner_step[where lo = "(- 307942335773363285560618115 / 2 ^ 88)" and hi = "(- 1231769343093453142242472459 / 2 ^ 90)"])
       (use h43 a0 in \<open>simp_all add: a_def sin_d_def\<close>)
  have h41: "(1231208546411780001761703279 / 2 ^ 90) \<le> horner sin_d a 41 46 \<and> horner sin_d a 41 46 \<le> (76950534150736250110106455 / 2 ^ 86)"
    by (rule horner_step[where lo = "(- 89993430678593439830165383 / 2 ^ 90)" and hi = "(- 44996715339296719915082691 / 2 ^ 89)"])
       (use h42 a0 in \<open>simp_all add: a_def sin_d_def\<close>)
  have h40: "(94340383523029659529874801 / 2 ^ 90) \<le> horner sin_d a 40 46 \<and> horner sin_d a 40 46 \<le> (94340383523029659529874803 / 2 ^ 90)"
    by (rule horner_step[where lo = "(1231208546411780001761703279 / 2 ^ 90)" and hi = "(76950534150736250110106455 / 2 ^ 86)"])
       (use h41 a0 in \<open>simp_all add: a_def sin_d_def\<close>)
  have h39: "(- 615265281445030218013331485 / 2 ^ 89) \<le> horner sin_d a 39 46 \<and> horner sin_d a 39 46 \<le> (- 1230530562890060436026662969 / 2 ^ 90)"
    by (rule horner_step[where lo = "(94340383523029659529874801 / 2 ^ 90)" and hi = "(94340383523029659529874803 / 2 ^ 90)"])
       (use h40 a0 in \<open>simp_all add: a_def sin_d_def\<close>)
  have h38: "(- 99123737856234023512541423 / 2 ^ 90) \<le> horner sin_d a 38 46 \<and> horner sin_d a 38 46 \<le> (- 49561868928117011756270711 / 2 ^ 89)"
    by (rule horner_step[where lo = "(- 615265281445030218013331485 / 2 ^ 89)" and hi = "(- 1230530562890060436026662969 / 2 ^ 90)"])
       (use h39 a0 in \<open>simp_all add: a_def sin_d_def\<close>)
  have h37: "(1229745133847340662036706271 / 2 ^ 90) \<le> horner sin_d a 37 46 \<and> horner sin_d a 37 46 \<le> (38429535432729395688647071 / 2 ^ 85)"
    by (rule horner_step[where lo = "(- 99123737856234023512541423 / 2 ^ 90)" and hi = "(- 49561868928117011756270711 / 2 ^ 89)"])
       (use h38 a0 in \<open>simp_all add: a_def sin_d_def\<close>)
  have h36: "(104415088602232497598555969 / 2 ^ 90) \<le> horner sin_d a 36 46 \<and> horner sin_d a 36 46 \<le> (52207544301116248799277985 / 2 ^ 89)"
    by (rule horner_step[where lo = "(1229745133847340662036706271 / 2 ^ 90)" and hi = "(38429535432729395688647071 / 2 ^ 85)"])
       (use h37 a0 in \<open>simp_all add: a_def sin_d_def\<close>)
  have h35: "(- 614414051930513735130165319 / 2 ^ 89) \<le> horner sin_d a 35 46 \<and> horner sin_d a 35 46 \<le> (- 1228828103861027470260330637 / 2 ^ 90)"
    by (rule horner_step[where lo = "(104415088602232497598555969 / 2 ^ 90)" and hi = "(52207544301116248799277985 / 2 ^ 89)"])
       (use h36 a0 in \<open>simp_all add: a_def sin_d_def\<close>)
  have h34: "(- 110299352674699409692013783 / 2 ^ 90) \<le> horner sin_d a 34 46 \<and> horner sin_d a 34 46 \<le> (- 55149676337349704846006891 / 2 ^ 89)"
    by (rule horner_step[where lo = "(- 614414051930513735130165319 / 2 ^ 89)" and hi = "(- 1228828103861027470260330637 / 2 ^ 90)"])
       (use h35 a0 in \<open>simp_all add: a_def sin_d_def\<close>)
  have h33: "(306937100732679293895574011 / 2 ^ 88) \<le> horner sin_d a 33 46 \<and> horner sin_d a 33 46 \<le> (1227748402930717175582296045 / 2 ^ 90)"
    by (rule horner_step[where lo = "(- 110299352674699409692013783 / 2 ^ 90)" and hi = "(- 55149676337349704846006891 / 2 ^ 89)"])
       (use h34 a0 in \<open>simp_all add: a_def sin_d_def\<close>)
  have h32: "(29220343659876836758655769 / 2 ^ 88) \<le> horner sin_d a 32 46 \<and> horner sin_d a 32 46 \<le> (116881374639507347034623077 / 2 ^ 90)"
    by (rule horner_step[where lo = "(306937100732679293895574011 / 2 ^ 88)" and hi = "(1227748402930717175582296045 / 2 ^ 90)"])
       (use h33 a0 in \<open>simp_all add: a_def sin_d_def\<close>)
  have h31: "(- 1226465237163225504607648159 / 2 ^ 90) \<le> horner sin_d a 31 46 \<and> horner sin_d a 31 46 \<le> (- 613232618581612752303824079 / 2 ^ 89)"
    by (rule horner_step[where lo = "(29220343659876836758655769 / 2 ^ 88)" and hi = "(116881374639507347034623077 / 2 ^ 90)"])
       (use h32 a0 in \<open>simp_all add: a_def sin_d_def\<close>)
  have h30: "(- 124292070288879119673475739 / 2 ^ 90) \<le> horner sin_d a 30 46 \<and> horner sin_d a 30 46 \<le> (- 62146035144439559836737869 / 2 ^ 89)"
    by (rule horner_step[where lo = "(- 1226465237163225504607648159 / 2 ^ 90)" and hi = "(- 613232618581612752303824079 / 2 ^ 89)"])
       (use h31 a0 in \<open>simp_all add: a_def sin_d_def\<close>)
  have h29: "(1224924204121413313149334853 / 2 ^ 90) \<le> horner sin_d a 29 46 \<and> horner sin_d a 29 46 \<le> (612462102060706656574667427 / 2 ^ 89)"
    by (rule horner_step[where lo = "(- 124292070288879119673475739 / 2 ^ 90)" and hi = "(- 62146035144439559836737869 / 2 ^ 89)"])
       (use h30 a0 in \<open>simp_all add: a_def sin_d_def\<close>)
  have h28: "(132696995892143324017922985 / 2 ^ 90) \<le> horner sin_d a 28 46 \<and> horner sin_d a 28 46 \<le> (132696995892143324017922987 / 2 ^ 90)"
    by (rule horner_step[where lo = "(1224924204121413313149334853 / 2 ^ 90)" and hi = "(612462102060706656574667427 / 2 ^ 89)"])
       (use h29 a0 in \<open>simp_all add: a_def sin_d_def\<close>)
  have h27: "(- 1223051471162230544971910545 / 2 ^ 90) \<le> horner sin_d a 27 46 \<and> horner sin_d a 27 46 \<le> (- 1223051471162230544971910543 / 2 ^ 90)"
    by (rule horner_step[where lo = "(132696995892143324017922985 / 2 ^ 90)" and hi = "(132696995892143324017922987 / 2 ^ 90)"])
       (use h28 a0 in \<open>simp_all add: a_def sin_d_def\<close>)
  have h26: "(- 142308500620942679181278983 / 2 ^ 90) \<le> horner sin_d a 26 46 \<and> horner sin_d a 26 46 \<le> (- 71154250310471339590639491 / 2 ^ 89)"
    by (rule horner_step[where lo = "(- 1223051471162230544971910545 / 2 ^ 90)" and hi = "(- 1223051471162230544971910543 / 2 ^ 90)"])
       (use h27 a0 in \<open>simp_all add: a_def sin_d_def\<close>)
  have h25: "(1220744833897144426816628885 / 2 ^ 90) \<le> horner sin_d a 25 46 \<and> horner sin_d a 25 46 \<le> (1220744833897144426816628887 / 2 ^ 90)"
    by (rule horner_step[where lo = "(- 142308500620942679181278983 / 2 ^ 90)" and hi = "(- 71154250310471339590639491 / 2 ^ 89)"])
       (use h26 a0 in \<open>simp_all add: a_def sin_d_def\<close>)
  have h24: "(153403320083158453465018445 / 2 ^ 90) \<le> horner sin_d a 24 46 \<and> horner sin_d a 24 46 \<le> (76701660041579226732509223 / 2 ^ 89)"
    by (rule horner_step[where lo = "(1220744833897144426816628885 / 2 ^ 90)" and hi = "(1220744833897144426816628887 / 2 ^ 90)"])
       (use h25 a0 in \<open>simp_all add: a_def sin_d_def\<close>)
  have h23: "(- 1217859591643316350431428925 / 2 ^ 90) \<le> horner sin_d a 23 46 \<and> horner sin_d a 23 46 \<le> (- 304464897910829087607857231 / 2 ^ 88)"
    by (rule horner_step[where lo = "(153403320083158453465018445 / 2 ^ 90)" and hi = "(76701660041579226732509223 / 2 ^ 89)"])
       (use h24 a0 in \<open>simp_all add: a_def sin_d_def\<close>)
  have h22: "(- 166348641139587312798214917 / 2 ^ 90) \<le> horner sin_d a 22 46 \<and> horner sin_d a 22 46 \<le> (- 41587160284896828199553729 / 2 ^ 88)"
    by (rule horner_step[where lo = "(- 1217859591643316350431428925 / 2 ^ 90)" and hi = "(- 304464897910829087607857231 / 2 ^ 88)"])
       (use h23 a0 in \<open>simp_all add: a_def sin_d_def\<close>)
  have h21: "(18971648576235506885541393 / 2 ^ 84) \<le> horner sin_d a 21 46 \<and> horner sin_d a 21 46 \<le> (1214185508879072440674649153 / 2 ^ 90)"
    by (rule horner_step[where lo = "(- 166348641139587312798214917 / 2 ^ 90)" and hi = "(- 41587160284896828199553729 / 2 ^ 88)"])
       (use h22 a0 in \<open>simp_all add: a_def sin_d_def\<close>)
  have h20: "(22705215921367134804755623 / 2 ^ 87) \<le> horner sin_d a 20 46 \<and> horner sin_d a 20 46 \<le> (181641727370937078438044985 / 2 ^ 90)"
    by (rule horner_step[where lo = "(18971648576235506885541393 / 2 ^ 84)" and hi = "(1214185508879072440674649153 / 2 ^ 90)"])
       (use h21 a0 in \<open>simp_all add: a_def sin_d_def\<close>)
  have h19: "(- 1209407823470685475209900415 / 2 ^ 90) \<le> horner sin_d a 19 46 \<and> horner sin_d a 19 46 \<le> (- 604703911735342737604950207 / 2 ^ 89)"
    by (rule horner_step[where lo = "(22705215921367134804755623 / 2 ^ 87)" and hi = "(181641727370937078438044985 / 2 ^ 90)"])
       (use h20 a0 in \<open>simp_all add: a_def sin_d_def\<close>)
  have h18: "(- 199971933337343526598394597 / 2 ^ 90) \<le> horner sin_d a 18 46 \<and> horner sin_d a 18 46 \<le> (- 49992983334335881649598649 / 2 ^ 88)"
    by (rule horner_step[where lo = "(- 1209407823470685475209900415 / 2 ^ 90)" and hi = "(- 604703911735342737604950207 / 2 ^ 89)"])
       (use h19 a0 in \<open>simp_all add: a_def sin_d_def\<close>)
  have h17: "(300759588200556925840662779 / 2 ^ 88) \<le> horner sin_d a 17 46 \<and> horner sin_d a 17 46 \<le> (601519176401113851681325559 / 2 ^ 89)"
    by (rule horner_step[where lo = "(- 199971933337343526598394597 / 2 ^ 90)" and hi = "(- 49992983334335881649598649 / 2 ^ 88)"])
       (use h18 a0 in \<open>simp_all add: a_def sin_d_def\<close>)
  have h16: "(222320967714720258809833673 / 2 ^ 90) \<le> horner sin_d a 16 46 \<and> horner sin_d a 16 46 \<le> (111160483857360129404916837 / 2 ^ 89)"
    by (rule horner_step[where lo = "(300759588200556925840662779 / 2 ^ 88)" and hi = "(601519176401113851681325559 / 2 ^ 89)"])
       (use h17 a0 in \<open>simp_all add: a_def sin_d_def\<close>)
  have h15: "(- 1194287419353409101878876873 / 2 ^ 90) \<le> horner sin_d a 15 46 \<and> horner sin_d a 15 46 \<le> (- 149285927419176137734859609 / 2 ^ 87)"
    by (rule horner_step[where lo = "(222320967714720258809833673 / 2 ^ 90)" and hi = "(111160483857360129404916837 / 2 ^ 89)"])
       (use h16 a0 in \<open>simp_all add: a_def sin_d_def\<close>)
  have h14: "(- 250130972194358845896447425 / 2 ^ 90) \<le> horner sin_d a 14 46 \<and> horner sin_d a 14 46 \<le> (- 3908296440536856967131991 / 2 ^ 84)"
    by (rule horner_step[where lo = "(- 1194287419353409101878876873 / 2 ^ 90)" and hi = "(- 149285927419176137734859609 / 2 ^ 87)"])
       (use h15 a0 in \<open>simp_all add: a_def sin_d_def\<close>)
  have h13: "(590905390189794759085793749 / 2 ^ 89) \<le> horner sin_d a 13 46 \<and> horner sin_d a 13 46 \<le> (1181810780379589518171587499 / 2 ^ 90)"
    by (rule horner_step[where lo = "(- 250130972194358845896447425 / 2 ^ 90)" and hi = "(- 3908296440536856967131991 / 2 ^ 84)"])
       (use h14 a0 in \<open>simp_all add: a_def sin_d_def\<close>)
  have h12: "(285597543505672229817828891 / 2 ^ 90) \<le> horner sin_d a 12 46 \<and> horner sin_d a 12 46 \<le> (71399385876418057454457223 / 2 ^ 88)"
    by (rule horner_step[where lo = "(590905390189794759085793749 / 2 ^ 89)" and hi = "(1181810780379589518171587499 / 2 ^ 90)"])
       (use h13 a0 in \<open>simp_all add: a_def sin_d_def\<close>)
  have h11: "(- 145396347154831792270643793 / 2 ^ 87) \<le> horner sin_d a 11 46 \<and> horner sin_d a 11 46 \<le> (- 581585388619327169082575171 / 2 ^ 89)"
    by (rule horner_step[where lo = "(285597543505672229817828891 / 2 ^ 90)" and hi = "(71399385876418057454457223 / 2 ^ 88)"])
       (use h12 a0 in \<open>simp_all add: a_def sin_d_def\<close>)
  have h10: "(- 332200797149389668616013507 / 2 ^ 90) \<le> horner sin_d a 10 46 \<and> horner sin_d a 10 46 \<le> (- 166100398574694834308006753 / 2 ^ 89)"
    by (rule horner_step[where lo = "(- 145396347154831792270643793 / 2 ^ 87)" and hi = "(- 581585388619327169082575171 / 2 ^ 89)"])
       (use h11 a0 in \<open>simp_all add: a_def sin_d_def\<close>)
  have h9: "(566788040450630351950298355 / 2 ^ 89) \<le> horner sin_d a 9 46 \<and> horner sin_d a 9 46 \<le> (1133576080901260703900596711 / 2 ^ 90)"
    by (rule horner_step[where lo = "(- 332200797149389668616013507 / 2 ^ 90)" and hi = "(- 166100398574694834308006753 / 2 ^ 89)"])
       (use h10 a0 in \<open>simp_all add: a_def sin_d_def\<close>)
  have h8: "(49461587333951524339418193 / 2 ^ 87) \<le> horner sin_d a 8 46 \<and> horner sin_d a 8 46 \<le> (395692698671612194715345545 / 2 ^ 90)"
    by (rule horner_step[where lo = "(566788040450630351950298355 / 2 ^ 89)" and hi = "(1133576080901260703900596711 / 2 ^ 90)"])
       (use h9 a0 in \<open>simp_all add: a_def sin_d_def\<close>)
  have h7: "(- 541275939941074099427104155 / 2 ^ 89) \<le> horner sin_d a 7 46 \<and> horner sin_d a 7 46 \<le> (- 270637969970537049713552077 / 2 ^ 88)"
    by (rule horner_step[where lo = "(49461587333951524339418193 / 2 ^ 87)" and hi = "(395692698671612194715345545 / 2 ^ 90)"])
       (use h8 a0 in \<open>simp_all add: a_def sin_d_def\<close>)
  have h6: "(- 60731018445849590451744291 / 2 ^ 87) \<le> horner sin_d a 6 46 \<and> horner sin_d a 6 46 \<le> (- 242924073783398361806977163 / 2 ^ 89)"
    by (rule horner_step[where lo = "(- 541275939941074099427104155 / 2 ^ 89)" and hi = "(- 270637969970537049713552077 / 2 ^ 88)"])
       (use h7 a0 in \<open>simp_all add: a_def sin_d_def\<close>)
  have h5: "(491775272046351940324380191 / 2 ^ 89) \<le> horner sin_d a 5 46 \<and> horner sin_d a 5 46 \<le> (15367977251448498135136881 / 2 ^ 84)"
    by (rule horner_step[where lo = "(- 60731018445849590451744291 / 2 ^ 87)" and hi = "(- 242924073783398361806977163 / 2 ^ 89)"])
       (use h6 a0 in \<open>simp_all add: a_def sin_d_def\<close>)
  have h4: "(617983032751176504385167595 / 2 ^ 90) \<le> horner sin_d a 4 46 \<and> horner sin_d a 4 46 \<le> (617983032751176504385167597 / 2 ^ 90)"
    by (rule horner_step[where lo = "(491775272046351940324380191 / 2 ^ 89)" and hi = "(15367977251448498135136881 / 2 ^ 84)"])
       (use h5 a0 in \<open>simp_all add: a_def sin_d_def\<close>)
  have h3: "(- 752577300351821100687891743 / 2 ^ 90) \<le> horner sin_d a 3 46 \<and> horner sin_d a 3 46 \<le> (- 188144325087955275171972935 / 2 ^ 88)"
    by (rule horner_step[where lo = "(617983032751176504385167595 / 2 ^ 90)" and hi = "(617983032751176504385167597 / 2 ^ 90)"])
       (use h4 a0 in \<open>simp_all add: a_def sin_d_def\<close>)
  have h2: "(- 788097106014573495827078497 / 2 ^ 90) \<le> horner sin_d a 2 46 \<and> horner sin_d a 2 46 \<le> (- 788097106014573495827078493 / 2 ^ 90)"
    by (rule horner_step[where lo = "(- 752577300351821100687891743 / 2 ^ 90)" and hi = "(- 188144325087955275171972935 / 2 ^ 88)"])
       (use h3 a0 in \<open>simp_all add: a_def sin_d_def\<close>)
  have h1: "(407460621 / 2 ^ 90) \<le> horner sin_d a 1 46 \<and> horner sin_d a 1 46 \<le> (407460629 / 2 ^ 90)"
    by (rule horner_step[where lo = "(- 788097106014573495827078497 / 2 ^ 90)" and hi = "(- 788097106014573495827078493 / 2 ^ 90)"])
       (use h2 a0 in \<open>simp_all add: a_def sin_d_def numeral_2_eq_2[symmetric]\<close>)
  have h0: "(1280075293 / 2 ^ 90) \<le> horner sin_d a 0 46 \<and> horner sin_d a 0 46 \<le> (1280075319 / 2 ^ 90)"
    by (rule horner_step[where lo = "(407460621 / 2 ^ 90)" and hi = "(407460629 / 2 ^ 90)"])
       (use h1 a0 in \<open>simp_all add: a_def sin_d_def\<close>)
  have "\<bar>a\<bar> \<le> 4" by (simp add: a_def)
  then have "\<bar>a\<bar> ^ 46 \<le> 4 ^ 46" by (rule power_mono) simp
  then have "\<bar>a\<bar> ^ 46 / fact 46 \<le> 4 ^ 46 / fact 46" by (rule divide_right_mono) simp
  also have "\<dots> \<le> (1 / 2 ^ 90)" by (simp add: fact_numeral power_divide)
  finally have r: "\<bar>a\<bar> ^ 46 / fact 46 \<le> (1 / 2 ^ 90)" .
  have "\<bar>sin a - horner sin_d a 0 46\<bar> \<le> (1 / 2 ^ 90)"
    using sin_taylor[of a 46] r by linarith
  moreover have "((320018823 / 2 ^ 88) :: real) \<le> (1280075293 / 2 ^ 90) - (1 / 2 ^ 90)" "((1280075319 / 2 ^ 90) :: real) + (1 / 2 ^ 90) \<le> (160009415 / 2 ^ 87)" by simp_all
  ultimately have "(320018823 / 2 ^ 88) \<le> sin a \<and> sin a \<le> (160009415 / 2 ^ 87)"
    using h0 by linarith
  then show ?thesis by (simp add: a_def)
qed

lemma sin_above_pi:
  "(- 1941150185 / 2 ^ 90) \<le> sin (3622009729038561423 / 2 ^ 60 :: real) \<and> sin (3622009729038561423 / 2 ^ 60 :: real) \<le> (- 485287537 / 2 ^ 88)"
proof -
  define a where "a = (3622009729038561423 / 2 ^ 60 :: real)"
  have a0: "0 \<le> a" by (simp add: a_def)
  have h46: "0 \<le> horner sin_d a 46 46 \<and> horner sin_d a 46 46 \<le> 0"
    by (simp add: horner_end)
  have h45: "1 \<le> horner sin_d a 45 46 \<and> horner sin_d a 45 46 \<le> 1"
    by (rule horner_step[where lo = "0" and hi = "0"])
       (use h46 a0 in \<open>simp_all add: a_def sin_d_def\<close>)
  have h44: "(86424518511191349081512345 / 2 ^ 90) \<le> horner sin_d a 44 46 \<and> horner sin_d a 44 46 \<le> (43212259255595674540756173 / 2 ^ 89)"
    by (rule horner_step[where lo = "1" and hi = "1"])
       (use h45 a0 in \<open>simp_all add: a_def sin_d_def\<close>)
  have h43: "(- 615884671546726571116125231 / 2 ^ 89) \<le> horner sin_d a 43 46 \<and> horner sin_d a 43 46 \<le> (- 1231769343093453142232250461 / 2 ^ 90)"
    by (rule horner_step[where lo = "(86424518511191349081512345 / 2 ^ 90)" and hi = "(43212259255595674540756173 / 2 ^ 89)"])
       (use h44 a0 in \<open>simp_all add: a_def sin_d_def\<close>)
  have h42: "(- 44996715339296719951978685 / 2 ^ 89) \<le> horner sin_d a 42 46 \<and> horner sin_d a 42 46 \<le> (- 89993430678593439903957369 / 2 ^ 90)"
    by (rule horner_step[where lo = "(- 615884671546726571116125231 / 2 ^ 89)" and hi = "(- 1231769343093453142232250461 / 2 ^ 90)"])
       (use h43 a0 in \<open>simp_all add: a_def sin_d_def\<close>)
  have h41: "(615604273205890000875304081 / 2 ^ 89) \<le> horner sin_d a 41 46 \<and> horner sin_d a 41 46 \<le> (1231208546411780001750608163 / 2 ^ 90)"
    by (rule horner_step[where lo = "(- 44996715339296719951978685 / 2 ^ 89)" and hi = "(- 89993430678593439903957369 / 2 ^ 90)"])
       (use h42 a0 in \<open>simp_all add: a_def sin_d_def\<close>)
  have h40: "(92129280784208651960121 / 2 ^ 80) \<le> horner sin_d a 40 46 \<and> horner sin_d a 40 46 \<le> (94340383523029659607163905 / 2 ^ 90)"
    by (rule horner_step[where lo = "(615604273205890000875304081 / 2 ^ 89)" and hi = "(1231208546411780001750608163 / 2 ^ 90)"])
       (use h41 a0 in \<open>simp_all add: a_def sin_d_def\<close>)
  have h39: "(- 153816320361257554501806957 / 2 ^ 87) \<le> horner sin_d a 39 46 \<and> horner sin_d a 39 46 \<le> (- 615265281445030218007227827 / 2 ^ 89)"
    by (rule horner_step[where lo = "(92129280784208651960121 / 2 ^ 80)" and hi = "(94340383523029659607163905 / 2 ^ 90)"])
       (use h40 a0 in \<open>simp_all add: a_def sin_d_def\<close>)
  have h38: "(- 99123737856234023593659243 / 2 ^ 90) \<le> horner sin_d a 38 46 \<and> horner sin_d a 38 46 \<le> (- 99123737856234023593659241 / 2 ^ 90)"
    by (rule horner_step[where lo = "(- 153816320361257554501806957 / 2 ^ 87)" and hi = "(- 615265281445030218007227827 / 2 ^ 89)"])
       (use h39 a0 in \<open>simp_all add: a_def sin_d_def\<close>)
  have h37: "(307436283461835165505803097 / 2 ^ 88) \<le> horner sin_d a 37 46 \<and> horner sin_d a 37 46 \<le> (1229745133847340662023212389 / 2 ^ 90)"
    by (rule horner_step[where lo = "(- 99123737856234023593659243 / 2 ^ 90)" and hi = "(- 99123737856234023593659241 / 2 ^ 90)"])
       (use h38 a0 in \<open>simp_all add: a_def sin_d_def\<close>)
  have h36: "(104415088602232497683894059 / 2 ^ 90) \<le> horner sin_d a 36 46 \<and> horner sin_d a 36 46 \<le> (26103772150558124420973515 / 2 ^ 88)"
    by (rule horner_step[where lo = "(307436283461835165505803097 / 2 ^ 88)" and hi = "(1229745133847340662023212389 / 2 ^ 90)"])
       (use h37 a0 in \<open>simp_all add: a_def sin_d_def\<close>)
  have h35: "(- 1228828103861027470245336347 / 2 ^ 90) \<le> horner sin_d a 35 46 \<and> horner sin_d a 35 46 \<le> (- 614414051930513735122668173 / 2 ^ 89)"
    by (rule horner_step[where lo = "(104415088602232497683894059 / 2 ^ 90)" and hi = "(26103772150558124420973515 / 2 ^ 88)"])
       (use h36 a0 in \<open>simp_all add: a_def sin_d_def\<close>)
  have h34: "(- 55149676337349704891012741 / 2 ^ 89) \<le> horner sin_d a 34 46 \<and> horner sin_d a 34 46 \<le> (- 110299352674699409782025481 / 2 ^ 90)"
    by (rule horner_step[where lo = "(- 1228828103861027470245336347 / 2 ^ 90)" and hi = "(- 614414051930513735122668173 / 2 ^ 89)"])
       (use h35 a0 in \<open>simp_all add: a_def sin_d_def\<close>)
  have h33: "(1227748402930717175565537561 / 2 ^ 90) \<le> horner sin_d a 33 46 \<and> horner sin_d a 33 46 \<le> (613874201465358587782768781 / 2 ^ 89)"
    by (rule horner_step[where lo = "(- 55149676337349704891012741 / 2 ^ 89)" and hi = "(- 110299352674699409782025481 / 2 ^ 90)"])
       (use h34 a0 in \<open>simp_all add: a_def sin_d_def\<close>)
  have h32: "(7305085914969209195614809 / 2 ^ 86) \<le> horner sin_d a 32 46 \<and> horner sin_d a 32 46 \<le> (116881374639507347129836945 / 2 ^ 90)"
    by (rule horner_step[where lo = "(1227748402930717175565537561 / 2 ^ 90)" and hi = "(613874201465358587782768781 / 2 ^ 89)"])
       (use h33 a0 in \<open>simp_all add: a_def sin_d_def\<close>)
  have h31: "(- 306616309290806376147199083 / 2 ^ 88) \<le> horner sin_d a 31 46 \<and> horner sin_d a 31 46 \<le> (- 613232618581612752294398165 / 2 ^ 89)"
    by (rule horner_step[where lo = "(7305085914969209195614809 / 2 ^ 86)" and hi = "(116881374639507347129836945 / 2 ^ 90)"])
       (use h32 a0 in \<open>simp_all add: a_def sin_d_def\<close>)
  have h30: "(- 124292070288879119774512587 / 2 ^ 90) \<le> horner sin_d a 30 46 \<and> horner sin_d a 30 46 \<le> (- 62146035144439559887256293 / 2 ^ 89)"
    by (rule horner_step[where lo = "(- 306616309290806376147199083 / 2 ^ 88)" and hi = "(- 613232618581612752294398165 / 2 ^ 89)"])
       (use h31 a0 in \<open>simp_all add: a_def sin_d_def\<close>)
  have h29: "(1224924204121413313127973681 / 2 ^ 90) \<le> horner sin_d a 29 46 \<and> horner sin_d a 29 46 \<le> (612462102060706656563986841 / 2 ^ 89)"
    by (rule horner_step[where lo = "(- 124292070288879119774512587 / 2 ^ 90)" and hi = "(- 62146035144439559887256293 / 2 ^ 89)"])
       (use h30 a0 in \<open>simp_all add: a_def sin_d_def\<close>)
  have h28: "(132696995892143324125517781 / 2 ^ 90) \<le> horner sin_d a 28 46 \<and> horner sin_d a 28 46 \<le> (66348497946071662062758891 / 2 ^ 89)"
    by (rule horner_step[where lo = "(1224924204121413313127973681 / 2 ^ 90)" and hi = "(612462102060706656563986841 / 2 ^ 89)"])
       (use h29 a0 in \<open>simp_all add: a_def sin_d_def\<close>)
  have h27: "(- 1223051471162230544947506691 / 2 ^ 90) \<le> horner sin_d a 27 46 \<and> horner sin_d a 27 46 \<le> (- 611525735581115272473753345 / 2 ^ 89)"
    by (rule horner_step[where lo = "(132696995892143324125517781 / 2 ^ 90)" and hi = "(66348497946071662062758891 / 2 ^ 89)"])
       (use h28 a0 in \<open>simp_all add: a_def sin_d_def\<close>)
  have h26: "(- 142308500620942679296309249 / 2 ^ 90) \<le> horner sin_d a 26 46 \<and> horner sin_d a 26 46 \<le> (- 69486572568819667625151 / 2 ^ 79)"
    by (rule horner_step[where lo = "(- 1223051471162230544947506691 / 2 ^ 90)" and hi = "(- 611525735581115272473753345 / 2 ^ 89)"])
       (use h27 a0 in \<open>simp_all add: a_def sin_d_def\<close>)
  have h25: "(1220744833897144426788487459 / 2 ^ 90) \<le> horner sin_d a 25 46 \<and> horner sin_d a 25 46 \<le> (305186208474286106697121865 / 2 ^ 88)"
    by (rule horner_step[where lo = "(- 142308500620942679296309249 / 2 ^ 90)" and hi = "(- 69486572568819667625151 / 2 ^ 79)"])
       (use h26 a0 in \<open>simp_all add: a_def sin_d_def\<close>)
  have h24: "(153403320083158453588541373 / 2 ^ 90) \<le> horner sin_d a 24 46 \<and> horner sin_d a 24 46 \<le> (76701660041579226794270687 / 2 ^ 89)"
    by (rule horner_step[where lo = "(1220744833897144426788487459 / 2 ^ 90)" and hi = "(305186208474286106697121865 / 2 ^ 88)"])
       (use h25 a0 in \<open>simp_all add: a_def sin_d_def\<close>)
  have h23: "(- 1217859591643316350398627791 / 2 ^ 90) \<le> horner sin_d a 23 46 \<and> horner sin_d a 23 46 \<le> (- 608929795821658175199313895 / 2 ^ 89)"
    by (rule horner_step[where lo = "(153403320083158453588541373 / 2 ^ 90)" and hi = "(76701660041579226794270687 / 2 ^ 89)"])
       (use h24 a0 in \<open>simp_all add: a_def sin_d_def\<close>)
  have h22: "(- 166348641139587312931516075 / 2 ^ 90) \<le> horner sin_d a 22 46 \<and> horner sin_d a 22 46 \<le> (- 83174320569793656465758037 / 2 ^ 89)"
    by (rule horner_step[where lo = "(- 1217859591643316350398627791 / 2 ^ 90)" and hi = "(- 608929795821658175199313895 / 2 ^ 89)"])
       (use h23 a0 in \<open>simp_all add: a_def sin_d_def\<close>)
  have h21: "(1214185508879072440635938639 / 2 ^ 90) \<le> horner sin_d a 21 46 \<and> horner sin_d a 21 46 \<le> (75886594304942027539746165 / 2 ^ 86)"
    by (rule horner_step[where lo = "(- 166348641139587312931516075 / 2 ^ 90)" and hi = "(- 83174320569793656465758037 / 2 ^ 89)"])
       (use h22 a0 in \<open>simp_all add: a_def sin_d_def\<close>)
  have h20: "(90820863685468539291351099 / 2 ^ 89) \<le> horner sin_d a 20 46 \<and> horner sin_d a 20 46 \<le> (181641727370937078582702199 / 2 ^ 90)"
    by (rule horner_step[where lo = "(1214185508879072440635938639 / 2 ^ 90)" and hi = "(75886594304942027539746165 / 2 ^ 86)"])
       (use h21 a0 in \<open>simp_all add: a_def sin_d_def\<close>)
  have h19: "(- 604703911735342737581772675 / 2 ^ 89) \<le> horner sin_d a 19 46 \<and> horner sin_d a 19 46 \<le> (- 1209407823470685475163545349 / 2 ^ 90)"
    by (rule horner_step[where lo = "(90820863685468539291351099 / 2 ^ 89)" and hi = "(181641727370937078582702199 / 2 ^ 90)"])
       (use h20 a0 in \<open>simp_all add: a_def sin_d_def\<close>)
  have h18: "(- 99985966668671763378180285 / 2 ^ 89) \<le> horner sin_d a 18 46 \<and> horner sin_d a 18 46 \<le> (- 199971933337343526756360569 / 2 ^ 90)"
    by (rule horner_step[where lo = "(- 604703911735342737581772675 / 2 ^ 89)" and hi = "(- 1209407823470685475163545349 / 2 ^ 90)"])
       (use h19 a0 in \<open>simp_all add: a_def sin_d_def\<close>)
  have h17: "(300759588200556925826543213 / 2 ^ 88) \<le> horner sin_d a 17 46 \<and> horner sin_d a 17 46 \<le> (601519176401113851653086427 / 2 ^ 89)"
    by (rule horner_step[where lo = "(- 99985966668671763378180285 / 2 ^ 89)" and hi = "(- 199971933337343526756360569 / 2 ^ 90)"])
       (use h18 a0 in \<open>simp_all add: a_def sin_d_def\<close>)
  have h16: "(222320967714720258983538179 / 2 ^ 90) \<le> horner sin_d a 16 46 \<and> horner sin_d a 16 46 \<le> (55580241928680064745884545 / 2 ^ 88)"
    by (rule horner_step[where lo = "(300759588200556925826543213 / 2 ^ 88)" and hi = "(601519176401113851653086427 / 2 ^ 89)"])
       (use h17 a0 in \<open>simp_all add: a_def sin_d_def\<close>)
  have h15: "(- 597143709676704550904306971 / 2 ^ 89) \<le> horner sin_d a 15 46 \<and> horner sin_d a 15 46 \<le> (- 1194287419353409101808613941 / 2 ^ 90)"
    by (rule horner_step[where lo = "(222320967714720258983538179 / 2 ^ 90)" and hi = "(55580241928680064745884545 / 2 ^ 88)"])
       (use h16 a0 in \<open>simp_all add: a_def sin_d_def\<close>)
  have h14: "(- 125065486097179423044453717 / 2 ^ 89) \<le> horner sin_d a 14 46 \<and> horner sin_d a 14 46 \<le> (- 250130972194358846088907433 / 2 ^ 90)"
    by (rule horner_step[where lo = "(- 597143709676704550904306971 / 2 ^ 89)" and hi = "(- 1194287419353409101808613941 / 2 ^ 90)"])
       (use h15 a0 in \<open>simp_all add: a_def sin_d_def\<close>)
  have h13: "(1181810780379589518081909423 / 2 ^ 90) \<le> horner sin_d a 13 46 \<and> horner sin_d a 13 46 \<le> (73863173773724344880119339 / 2 ^ 86)"
    by (rule horner_step[where lo = "(- 125065486097179423044453717 / 2 ^ 89)" and hi = "(- 250130972194358846088907433 / 2 ^ 90)"])
       (use h14 a0 in \<open>simp_all add: a_def sin_d_def\<close>)
  have h12: "(35699692938209028754088615 / 2 ^ 87) \<le> horner sin_d a 12 46 \<and> horner sin_d a 12 46 \<le> (285597543505672230032708921 / 2 ^ 90)"
    by (rule horner_step[where lo = "(1181810780379589518081909423 / 2 ^ 90)" and hi = "(73863173773724344880119339 / 2 ^ 86)"])
       (use h13 a0 in \<open>simp_all add: a_def sin_d_def\<close>)
  have h11: "(- 290792694309663584511741447 / 2 ^ 88) \<le> horner sin_d a 11 46 \<and> horner sin_d a 11 46 \<le> (- 1163170777238654338046965787 / 2 ^ 90)"
    by (rule horner_step[where lo = "(35699692938209028754088615 / 2 ^ 87)" and hi = "(285597543505672230032708921 / 2 ^ 90)"])
       (use h12 a0 in \<open>simp_all add: a_def sin_d_def\<close>)
  have h10: "(- 41525099643673708607176481 / 2 ^ 87) \<le> horner sin_d a 10 46 \<and> horner sin_d a 10 46 \<le> (- 332200797149389668857411847 / 2 ^ 90)"
    by (rule horner_step[where lo = "(- 290792694309663584511741447 / 2 ^ 88)" and hi = "(- 1163170777238654338046965787 / 2 ^ 90)"])
       (use h11 a0 in \<open>simp_all add: a_def sin_d_def\<close>)
  have h9: "(566788040450630351869158853 / 2 ^ 89) \<le> horner sin_d a 9 46 \<and> horner sin_d a 9 46 \<le> (283394020225315175934579427 / 2 ^ 88)"
    by (rule horner_step[where lo = "(- 41525099643673708607176481 / 2 ^ 87)" and hi = "(- 332200797149389668857411847 / 2 ^ 90)"])
       (use h10 a0 in \<open>simp_all add: a_def sin_d_def\<close>)
  have h8: "(197846349335806097493219829 / 2 ^ 89) \<le> horner sin_d a 8 46 \<and> horner sin_d a 8 46 \<le> (98923174667903048746609915 / 2 ^ 88)"
    by (rule horner_step[where lo = "(566788040450630351869158853 / 2 ^ 89)" and hi = "(283394020225315175934579427 / 2 ^ 88)"])
       (use h9 a0 in \<open>simp_all add: a_def sin_d_def\<close>)
  have h7: "(- 1082551879882148198619046635 / 2 ^ 90) \<le> horner sin_d a 7 46 \<and> horner sin_d a 7 46 \<le> (- 1082551879882148198619046633 / 2 ^ 90)"
    by (rule horner_step[where lo = "(197846349335806097493219829 / 2 ^ 89)" and hi = "(98923174667903048746609915 / 2 ^ 88)"])
       (use h8 a0 in \<open>simp_all add: a_def sin_d_def\<close>)
  have h6: "(- 60731018445849590488853399 / 2 ^ 87) \<le> horner sin_d a 6 46 \<and> horner sin_d a 6 46 \<le> (- 242924073783398361955413595 / 2 ^ 89)"
    by (rule horner_step[where lo = "(- 1082551879882148198619046635 / 2 ^ 90)" and hi = "(- 1082551879882148198619046633 / 2 ^ 90)"])
       (use h7 a0 in \<open>simp_all add: a_def sin_d_def\<close>)
  have h5: "(983550544092703880282615067 / 2 ^ 90) \<le> horner sin_d a 5 46 \<and> horner sin_d a 5 46 \<le> (983550544092703880282615069 / 2 ^ 90)"
    by (rule horner_step[where lo = "(- 60731018445849590488853399 / 2 ^ 87)" and hi = "(- 242924073783398361955413595 / 2 ^ 89)"])
       (use h6 a0 in \<open>simp_all add: a_def sin_d_def\<close>)
  have h4: "(308991516375588252333484087 / 2 ^ 89) \<le> horner sin_d a 4 46 \<and> horner sin_d a 4 46 \<le> (617983032751176504666968177 / 2 ^ 90)"
    by (rule horner_step[where lo = "(983550544092703880282615067 / 2 ^ 90)" and hi = "(983550544092703880282615069 / 2 ^ 90)"])
       (use h5 a0 in \<open>simp_all add: a_def sin_d_def\<close>)
  have h3: "(- 376288650175910550032277479 / 2 ^ 89) \<le> horner sin_d a 3 46 \<and> horner sin_d a 3 46 \<le> (- 376288650175910550032277477 / 2 ^ 89)"
    by (rule horner_step[where lo = "(308991516375588252333484087 / 2 ^ 89)" and hi = "(617983032751176504666968177 / 2 ^ 90)"])
       (use h4 a0 in \<open>simp_all add: a_def sin_d_def\<close>)
  have h2: "(- 394048553007286747913539249 / 2 ^ 89) \<le> horner sin_d a 2 46 \<and> horner sin_d a 2 46 \<le> (- 197024276503643373956769623 / 2 ^ 88)"
    by (rule horner_step[where lo = "(- 376288650175910550032277479 / 2 ^ 89)" and hi = "(- 376288650175910550032277477 / 2 ^ 89)"])
       (use h3 a0 in \<open>simp_all add: a_def sin_d_def\<close>)
  have h1: "(- 308943647 / 2 ^ 89) \<le> horner sin_d a 1 46 \<and> horner sin_d a 1 46 \<le> (- 617887283 / 2 ^ 90)"
    by (rule horner_step[where lo = "(- 394048553007286747913539249 / 2 ^ 89)" and hi = "(- 197024276503643373956769623 / 2 ^ 88)"])
       (use h2 a0 in \<open>simp_all add: a_def sin_d_def numeral_2_eq_2[symmetric]\<close>)
  have h0: "(- 242643773 / 2 ^ 87) \<le> horner sin_d a 0 46 \<and> horner sin_d a 0 46 \<le> (- 1941150149 / 2 ^ 90)"
    by (rule horner_step[where lo = "(- 308943647 / 2 ^ 89)" and hi = "(- 617887283 / 2 ^ 90)"])
       (use h1 a0 in \<open>simp_all add: a_def sin_d_def\<close>)
  have "\<bar>a\<bar> \<le> 4" by (simp add: a_def)
  then have "\<bar>a\<bar> ^ 46 \<le> 4 ^ 46" by (rule power_mono) simp
  then have "\<bar>a\<bar> ^ 46 / fact 46 \<le> 4 ^ 46 / fact 46" by (rule divide_right_mono) simp
  also have "\<dots> \<le> (1 / 2 ^ 90)" by (simp add: fact_numeral power_divide)
  finally have r: "\<bar>a\<bar> ^ 46 / fact 46 \<le> (1 / 2 ^ 90)" .
  have "\<bar>sin a - horner sin_d a 0 46\<bar> \<le> (1 / 2 ^ 90)"
    using sin_taylor[of a 46] r by linarith
  moreover have "((- 1941150185 / 2 ^ 90) :: real) \<le> (- 242643773 / 2 ^ 87) - (1 / 2 ^ 90)" "((- 1941150149 / 2 ^ 90) :: real) + (1 / 2 ^ 90) \<le> (- 485287537 / 2 ^ 88)" by simp_all
  ultimately have "(- 1941150185 / 2 ^ 90) \<le> sin a \<and> sin a \<le> (- 485287537 / 2 ^ 88)"
    using h0 by linarith
  then show ?thesis by (simp add: a_def)
qed


text \<open>\<open>pi\<close> lies between two points where the sine is positive and negative.\<close>

lemma pi_bounds: "905502432259640355 / 2 ^ 58 \<le> pi \<and> pi \<le> 3622009729038561423 / 2 ^ 60"
proof
  show "905502432259640355 / 2 ^ 58 \<le> pi"
  proof (rule ccontr)
    assume "\<not> 905502432259640355 / 2 ^ 58 \<le> pi"
    then have "pi < 905502432259640355 / 2 ^ 58" by simp
    moreover have "(905502432259640355 / 2 ^ 58 :: real) < 4" by simp
    then have "905502432259640355 / 2 ^ 58 < 2 * pi" using pi_ge_two by linarith
    ultimately have "sin (905502432259640355 / 2 ^ 58 :: real) < 0" by (rule sin_lt_zero)
    moreover have "0 < sin (905502432259640355 / 2 ^ 58 :: real)"
      using sin_below_pi by (simp del: sin_gt_zero_02)
    ultimately show False by simp
  qed
  show "pi \<le> 3622009729038561423 / 2 ^ 60"
  proof (rule ccontr)
    assume "\<not> pi \<le> 3622009729038561423 / 2 ^ 60"
    then have "3622009729038561423 / 2 ^ 60 < pi" by simp
    moreover have "(0 :: real) < 3622009729038561423 / 2 ^ 60" by simp
    ultimately have "0 < sin (3622009729038561423 / 2 ^ 60 :: real)" by (intro sin_gt_zero)
    moreover have "sin (3622009729038561423 / 2 ^ 60 :: real) < 0" using sin_above_pi by simp
    ultimately show False by simp
  qed
qed

section \<open>The phyllotaxis positions\<close>

text \<open>The engine of the examples is accurate: it rounds values of at most one.\<close>

lemma accurate_rounding_engine: "accurate rounding_engine"
proof -
  have "\<exists>c. fl (cos a) = Fin c \<and> \<bar>c - cos a\<bar> \<le> 1 / 2 ^ 52" for a :: real
  proof -
    have "\<bar>cos a\<bar> \<le> 2 ^ 0" by simp
    from fl_error_1[OF this] obtain c where c: "fl (cos a) = Fin c" "\<bar>c - cos a\<bar> \<le> (\<bar>cos a\<bar> + 1) / 2 ^ 53"
      by auto
    have "(\<bar>cos a\<bar> + 1) / 2 ^ 53 \<le> (1 + 1) / 2 ^ 53" by (intro divide_right_mono add_mono) simp_all
    then have "\<bar>c - cos a\<bar> \<le> (1 + 1) / 2 ^ 53" using c(2) by linarith
    then have "\<bar>c - cos a\<bar> \<le> 1 / 2 ^ 52" by simp
    then show ?thesis using c(1) by blast
  qed
  moreover have "\<exists>s. fl (sin a) = Fin s \<and> \<bar>s - sin a\<bar> \<le> 1 / 2 ^ 52" for a :: real
  proof -
    have "\<bar>sin a\<bar> \<le> 2 ^ 0" by simp
    from fl_error_1[OF this] obtain c where c: "fl (sin a) = Fin c" "\<bar>c - sin a\<bar> \<le> (\<bar>sin a\<bar> + 1) / 2 ^ 53"
      by auto
    have "(\<bar>sin a\<bar> + 1) / 2 ^ 53 \<le> (1 + 1) / 2 ^ 53" by (intro divide_right_mono add_mono) simp_all
    then have "\<bar>c - sin a\<bar> \<le> (1 + 1) / 2 ^ 53" using c(2) by linarith
    then have "\<bar>c - sin a\<bar> \<le> 1 / 2 ^ 52" by simp
    then show ?thesis using c(1) by blast
  qed
  ultimately show ?thesis by (simp add: accurate_def rounding_engine_def)
qed

text \<open>The radius: two roundings.\<close>

lemma radius_error:
  assumes "i < 2 ^ 32"
  shows "\<exists>r. fmul initialRadius (Math_sqrt (fadd (Fin (1 / 2)) (num_of_nat i))) = Fin r \<and>
           \<bar>r - spec_radius i\<bar> \<le> 3 * spec_radius i / 2 ^ 53 \<and> \<bar>r\<bar> \<le> 2 * spec_radius i \<and>
           5 \<le> spec_radius i \<and> spec_radius i \<le> 2 ^ 21"
proof -
  define h where "h = 1 / 2 + real i"
  have i53: "i < 2 ^ 53" using assms by (rule less_trans) simp
  have n: "num_of_nat i = Fin (real i)" using i53 by (rule num_of_nat_small)
  have ri: "real i < 2 ^ 32" using assms
    by (metis of_nat_less_iff of_nat_numeral of_nat_power)
  have hl: "1 / 2 \<le> h" and hu: "h \<le> 2 ^ 33" using ri by (simp_all add: h_def)
  have he: "fl h = Fin h"
  proof (rule fl_exact[where m = "2 * int i + 1" and e = "- 1"])
    show "h = real_of_int (2 * int i + 1) * 2 powr real_of_int (- 1)"
      by (simp add: h_def powr_minus_divide field_simps)
    have "int i < int (2 ^ 32)" using assms by (simp only: of_nat_less_iff)
    then show "\<bar>2 * int i + 1\<bar> < 2 ^ 53" by simp
    show "- 1074 \<le> (- 1 :: int)" by simp
    have "\<bar>h\<bar> \<le> 2 ^ 33" using hl hu by simp
    also have "(2::real) ^ 33 < 2 ^ 1024" by (rule power_strict_increasing) simp_all
    finally show "\<bar>h\<bar> < 2 ^ 1024" .
  qed
  define q where "q = sqrt h"
  have ql: "1 / 2 \<le> q"
    unfolding q_def by (rule real_le_rsqrt) (use hl in \<open>simp add: power2_eq_square\<close>)
  have qu: "q \<le> 2 ^ 17"
    unfolding q_def using hl hu by (intro real_le_lsqrt) simp_all
  have "1 / 2 \<le> \<bar>q\<bar>" "\<bar>q\<bar> \<le> 2 ^ 17" using ql qu by simp_all
  from fl_error[OF this] obtain s where s: "fl q = Fin s" "\<bar>s - q\<bar> \<le> \<bar>q\<bar> / 2 ^ 53" by auto
  have sq: "\<bar>s - q\<bar> \<le> q / 2 ^ 53" using s(2) ql by simp
  have "q / 2 ^ 53 \<le> q / 2" using ql by simp
  then have sl: "1 / 4 \<le> s" and su: "s \<le> 2 * q" using sq ql by linarith+
  have "1 / 2 \<le> \<bar>10 * s\<bar>" using sl by simp
  moreover have "\<bar>10 * s\<bar> \<le> 2 ^ 22" using su sl qu by simp
  ultimately obtain r where r: "fl (10 * s) = Fin r" "\<bar>r - 10 * s\<bar> \<le> \<bar>10 * s\<bar> / 2 ^ 53"
    using fl_error[of "10 * s" 22] by auto
  have R: "spec_radius i = 10 * q" by (simp add: spec_radius_def q_def h_def)
  have e1: "(r - 10 * s) + 10 * (s - q) = r - 10 * q" by simp
  have e2: "\<bar>10 * (s - q)\<bar> = 10 * \<bar>s - q\<bar>" by (simp only: abs_mult abs_numeral)
  have "\<bar>r - 10 * q\<bar> \<le> \<bar>r - 10 * s\<bar> + 10 * \<bar>s - q\<bar>"
    using abs_triangle_ineq[of "r - 10 * s" "10 * (s - q)"] unfolding e1 e2 .
  also have "\<dots> \<le> 10 * s / 2 ^ 53 + 10 * (q / 2 ^ 53)" using r(2) sq sl by simp
  also have "\<dots> \<le> 10 * (2 * q) / 2 ^ 53 + 10 * (q / 2 ^ 53)" using su by simp
  finally have e: "\<bar>r - 10 * q\<bar> \<le> 3 * (10 * q) / 2 ^ 53" by simp
  then have "\<bar>r\<bar> \<le> 10 * q + 3 * (10 * q) / 2 ^ 53" using ql by linarith
  then have b: "\<bar>r\<bar> \<le> 2 * (10 * q)" using ql by simp
  have "fmul initialRadius (Math_sqrt (fadd (Fin (1 / 2)) (num_of_nat i))) = Fin r"
    using hl by (simp add: initialRadius_def n he s r h_def[symmetric] q_def[symmetric])
  then show ?thesis using e b ql qu unfolding R by simp
qed

text \<open>The angle: the rounding of the product and the error of \<open>initialAngle\<close>.\<close>

lemma angle_error:
  assumes "i < 2 ^ 32"
    and "initialAngle = Fin A" "\<bar>A - pi * (3 - sqrt 5)\<bar> \<le> 1 / 2 ^ 50" "0 \<le> A" "A \<le> 3"
  shows "\<exists>a. fmul (num_of_nat i) initialAngle = Fin a \<and> fl a = Fin a \<and>
           \<bar>a - spec_angle i\<bar> \<le> (11 * real i + 1) / 2 ^ 53"
proof -
  have i53: "i < 2 ^ 53" using assms(1) by (rule less_trans) simp
  have n: "num_of_nat i = Fin (real i)" using i53 by (rule num_of_nat_small)
  have ri: "real i < 2 ^ 32" using assms(1)
    by (metis of_nat_less_iff of_nat_numeral of_nat_power)
  have p: "real i * A \<le> real i * 3" using assms(5) by (intro mult_left_mono) simp_all
  have p0: "0 \<le> real i * A" using assms(4) by simp
  have "\<bar>real i * A\<bar> \<le> 2 ^ 34" using p p0 ri by simp
  from fl_error_1[OF this] obtain a where
    a: "fl (real i * A) = Fin a" "\<bar>a - real i * A\<bar> \<le> (\<bar>real i * A\<bar> + 1) / 2 ^ 53" by auto
  have a1: "\<bar>a - real i * A\<bar> \<le> (real i * 3 + 1) / 2 ^ 53"
  proof -
    have "(\<bar>real i * A\<bar> + 1) / 2 ^ 53 \<le> (real i * 3 + 1) / 2 ^ 53"
      using p p0 by (intro divide_right_mono) simp_all
    then show ?thesis using a(2) by linarith
  qed
  have "\<bar>real i * A - spec_angle i\<bar> = real i * \<bar>A - pi * (3 - sqrt 5)\<bar>"
    by (simp add: spec_angle_def abs_mult flip: right_diff_distrib)
  also have "\<dots> \<le> real i * (1 / 2 ^ 50)" using assms(3) by (intro mult_left_mono) simp_all
  finally have a2: "\<bar>real i * A - spec_angle i\<bar> \<le> real i * 8 / 2 ^ 53" by simp
  have "\<bar>a - spec_angle i\<bar> \<le> \<bar>a - real i * A\<bar> + \<bar>real i * A - spec_angle i\<bar>" by simp
  also have "\<dots> \<le> (real i * 3 + 1) / 2 ^ 53 + real i * 8 / 2 ^ 53" using a1 a2 by (rule add_mono)
  also have "\<dots> = (11 * real i + 1) / 2 ^ 53" by (simp add: field_simps)
  finally have "\<bar>a - spec_angle i\<bar> \<le> (11 * real i + 1) / 2 ^ 53" .
  moreover have "fmul (num_of_nat i) initialAngle = Fin a" by (simp add: n assms(2) a(1))
  moreover have "fl a = Fin a" using a(1) by (rule fl_idem)
  ultimately show ?thesis by blast
qed

text \<open>The product of the radius and of a value that the engine returned for the angle.\<close>

lemma product_error:
  assumes r: "\<bar>r - R\<bar> \<le> 3 * R / 2 ^ 53" "\<bar>r\<bar> \<le> 2 * R" "5 \<le> R" "R \<le> 2 ^ 21"
    and a: "\<bar>a - t\<bar> \<le> (11 * real i + 1) / 2 ^ 53" "real i < 2 ^ 32"
    and c: "\<bar>c - f a\<bar> \<le> 1 / 2 ^ 52"
    and f: "\<bar>f a - f t\<bar> \<le> \<bar>a - t\<bar>" "\<bar>f t\<bar> \<le> 1"
  shows "\<exists>x. fmul (Fin r) (Fin c) = Fin x \<and> \<bar>x - R * f t\<bar> \<le> R * real (i + 1) / 2 ^ 48"
proof -
  define w where "w = R * real i"
  have w0: "0 \<le> w" using r(3) by (simp add: w_def)
  have ct: "\<bar>c - f t\<bar> \<le> (11 * real i + 3) / 2 ^ 53"
  proof -
    have "\<bar>c - f t\<bar> \<le> \<bar>c - f a\<bar> + \<bar>f a - f t\<bar>" by simp
    also have "\<dots> \<le> 1 / 2 ^ 52 + (11 * real i + 1) / 2 ^ 53" using c f(1) a(1) by linarith
    also have "\<dots> = (11 * real i + 3) / 2 ^ 53" by (simp add: field_simps)
    finally show ?thesis .
  qed
  have t1: "\<bar>r * c - r * f t\<bar> \<le> 2 * R * ((11 * real i + 3) / 2 ^ 53)"
  proof -
    have "\<bar>r * c - r * f t\<bar> = \<bar>r\<bar> * \<bar>c - f t\<bar>" by (simp add: abs_mult flip: right_diff_distrib)
    also have "\<dots> \<le> 2 * R * ((11 * real i + 3) / 2 ^ 53)"
      using r(2) ct by (intro mult_mono) simp_all
    finally show ?thesis .
  qed
  have t2: "\<bar>r * f t - R * f t\<bar> \<le> 3 * R / 2 ^ 53"
  proof -
    have "\<bar>r * f t - R * f t\<bar> = \<bar>r - R\<bar> * \<bar>f t\<bar>" by (simp add: abs_mult flip: left_diff_distrib)
    also have "\<dots> \<le> 3 * R / 2 ^ 53 * 1" using r(1,3) f(2) by (intro mult_mono) simp_all
    finally show ?thesis by simp
  qed
  have "\<bar>r * c\<bar> \<le> \<bar>r * c - r * f t\<bar> + \<bar>r * f t - R * f t\<bar> + \<bar>R * f t\<bar>" by simp
  moreover have "\<bar>R * f t\<bar> \<le> R * 1" unfolding abs_mult using f(2) r(3) by (intro mult_mono) simp_all
  ultimately have rc: "\<bar>r * c\<bar> \<le> 2 * R * ((11 * real i + 3) / 2 ^ 53) + 3 * R / 2 ^ 53 + R"
    using t1 t2 by linarith
  have small: "(11 * real i + 3) / 2 ^ 53 \<le> 1" using a(2) by simp
  have "2 * R * ((11 * real i + 3) / 2 ^ 53) \<le> 2 * R * 1"
    using small r(3) by (intro mult_left_mono) simp_all
  moreover have "3 * R / 2 ^ 53 \<le> 3 * R" using r(3) by simp
  ultimately have rc6: "\<bar>r * c\<bar> \<le> 6 * R" using rc by linarith
  then have "\<bar>r * c\<bar> \<le> 2 ^ 24" using r(4) by simp
  from fl_error_1[OF this] obtain x where
    x: "fl (r * c) = Fin x" "\<bar>x - r * c\<bar> \<le> (\<bar>r * c\<bar> + 1) / 2 ^ 53" by auto
  have "(\<bar>r * c\<bar> + 1) / 2 ^ 53 \<le> (6 * R + R) / 2 ^ 53"
    using rc6 r(3) by (intro divide_right_mono add_mono) simp_all
  then have t0: "\<bar>x - r * c\<bar> \<le> 7 * R / 2 ^ 53" using x(2) by simp
  have "\<bar>x - R * f t\<bar> \<le> \<bar>x - r * c\<bar> + \<bar>r * c - r * f t\<bar> + \<bar>r * f t - R * f t\<bar>" by simp
  also have "\<dots> \<le> 7 * R / 2 ^ 53 + 2 * R * ((11 * real i + 3) / 2 ^ 53) + 3 * R / 2 ^ 53"
    using t0 t1 t2 by linarith
  also have "\<dots> = (22 * w + 16 * R) / 2 ^ 53" by (simp add: w_def field_simps)
  also have "\<dots> \<le> (32 * w + 32 * R) / 2 ^ 53"
    using w0 r(3) by (intro divide_right_mono) simp_all
  also have "\<dots> = R * real (i + 1) / 2 ^ 48" by (simp add: w_def field_simps)
  finally have "\<bar>x - R * f t\<bar> \<le> R * real (i + 1) / 2 ^ 48" .
  then show ?thesis using x(1) by simp
qed

text \<open>
  The position that the code computes for the index \<open>i\<close> is within the tolerance of
  the phyllotaxis position of the specification.
\<close>

lemma phyllotaxis_error:
  assumes "accurate M" "i < 2 ^ 32"
    and A: "initialAngle = Fin A" "\<bar>A - pi * (3 - sqrt 5)\<bar> \<le> 1 / 2 ^ 50" "0 \<le> A" "A \<le> 3"
  shows "\<exists>x y. phyllotaxis_x M i = Fin x \<and> phyllotaxis_y M i = Fin y \<and>
           \<bar>x - fst (spec_phyllotaxis i)\<bar> \<le> phyllotaxis_tolerance i \<and>
           \<bar>y - snd (spec_phyllotaxis i)\<bar> \<le> phyllotaxis_tolerance i"
proof -
  have ri: "real i < 2 ^ 32" using assms(2)
    by (metis of_nat_less_iff of_nat_numeral of_nat_power)
  obtain r where r: "fmul initialRadius (Math_sqrt (fadd (Fin (1 / 2)) (num_of_nat i))) = Fin r"
    "\<bar>r - spec_radius i\<bar> \<le> 3 * spec_radius i / 2 ^ 53" "\<bar>r\<bar> \<le> 2 * spec_radius i"
    "5 \<le> spec_radius i" "spec_radius i \<le> 2 ^ 21"
    using radius_error[OF assms(2)] by blast
  obtain a where a: "fmul (num_of_nat i) initialAngle = Fin a"
    "\<bar>a - spec_angle i\<bar> \<le> (11 * real i + 1) / 2 ^ 53" and b: "fl a = Fin a"
    using angle_error[OF assms(2) A] by blast
  obtain c where c: "Math_cos M (Fin a) = Fin c" "\<bar>c - cos a\<bar> \<le> 1 / 2 ^ 52"
    using assms(1) b unfolding accurate_def by blast
  obtain s where s: "Math_sin M (Fin a) = Fin s" "\<bar>s - sin a\<bar> \<le> 1 / 2 ^ 52"
    using assms(1) b unfolding accurate_def by blast
  obtain x where x: "fmul (Fin r) (Fin c) = Fin x"
    "\<bar>x - spec_radius i * cos (spec_angle i)\<bar> \<le> spec_radius i * real (i + 1) / 2 ^ 48"
    using product_error[OF r(2-5) a(2) ri c(2) cos_lipschitz] by auto
  obtain y where y: "fmul (Fin r) (Fin s) = Fin y"
    "\<bar>y - spec_radius i * sin (spec_angle i)\<bar> \<le> spec_radius i * real (i + 1) / 2 ^ 48"
    using product_error[OF r(2-5) a(2) ri s(2) sin_lipschitz] by auto
  have "phyllotaxis_x M i = Fin x"
    by (simp only: phyllotaxis_x_def Let_def r(1) a(1) c(1) x(1))
  moreover have "phyllotaxis_y M i = Fin y"
    by (simp only: phyllotaxis_y_def Let_def r(1) a(1) s(1) y(1))
  ultimately show ?thesis
    using x(2) y(2) by (simp add: spec_phyllotaxis_def phyllotaxis_tolerance_def)
qed

lemma sqrt_5_bounds: "1289005428511123393 / 2 ^ 59 \<le> sqrt 5 \<and> sqrt 5 \<le> 2578010857022246787 / 2 ^ 60"
proof
  show "1289005428511123393 / 2 ^ 59 \<le> sqrt 5" by (rule real_le_rsqrt) (simp add: power2_eq_square)
  show "sqrt 5 \<le> 2578010857022246787 / 2 ^ 60" by (rule real_le_lsqrt) (simp_all add: power2_eq_square)
qed

lemma Math_sqrt_5: "Math_sqrt (Fin 5) = Fin (629397181890197 / 2 ^ 48)"
  using fl_sqrt_eval[of 5 5035177455121576 51] by (simp add: power2_eq_square)

lemma fsub_3_sqrt_5: "fsub (Fin 3) (Fin (629397181890197 / 2 ^ 48)) = Fin (215027748241771 / 2 ^ 48)"
  by (simp, subst fl_eval[where k = 53]) (simp_all add: round_half_even_def)

lemma fmul_PI: "fmul (Fin (884279719003555 / 2 ^ 48)) (Fin (215027748241771 / 2 ^ 48)) = Fin (5404236753554427 / 2 ^ 51)"
  by (simp, subst fl_eval[where k = 51]) (simp_all add: round_half_even_def)

lemma initialAngle_value: "initialAngle = Fin (5404236753554427 / 2 ^ 51)"
  by (simp only: initialAngle_def Math_PI_def Math_sqrt_5 fsub_3_sqrt_5 fmul_PI)

text \<open>\<open>initialAngle\<close> is within \<open>2 ^ - 50\<close> of \<open>pi (3 - sqrt 5)\<close>.\<close>

lemma initialAngle_error: "\<bar>5404236753554427 / 2 ^ 51 - pi * (3 - sqrt 5)\<bar> \<le> 1 / 2 ^ 50"
proof -
  define t where "t = 3 - sqrt 5"
  have p: "905502432259640355 / 2 ^ 58 \<le> pi" "pi \<le> 3622009729038561423 / 2 ^ 60" using pi_bounds by simp_all
  have "1289005428511123393 / 2 ^ 59 \<le> sqrt 5" "sqrt 5 \<le> 2578010857022246787 / 2 ^ 60" using sqrt_5_bounds by simp_all
  then have t: "3 - 2578010857022246787 / 2 ^ 60 \<le> t" "t \<le> 3 - 1289005428511123393 / 2 ^ 59"
    by (simp_all add: t_def)
  have "(0::real) \<le> 3 - 2578010857022246787 / 2 ^ 60" by simp
  then have t0: "0 \<le> t" using t(1) by (rule order_trans)
  have "pi * t \<le> 3622009729038561423 / 2 ^ 60 * (3 - 1289005428511123393 / 2 ^ 59)"
    using p(2) t(2) _ t0 by (rule mult_mono) simp
  moreover have "905502432259640355 / 2 ^ 58 * (3 - 2578010857022246787 / 2 ^ 60) \<le> pi * t"
    using p(1) t(1) pi_ge_zero by (rule mult_mono) simp
  moreover have "3622009729038561423 / 2 ^ 60 * (3 - 1289005428511123393 / 2 ^ 59) \<le> (5404236753554427 / 2 ^ 51 + 1 / 2 ^ 50 :: real)" by simp
  moreover have "(5404236753554427 / 2 ^ 51 - 1 / 2 ^ 50 :: real) \<le> 905502432259640355 / 2 ^ 58 * (3 - 2578010857022246787 / 2 ^ 60)" by simp
  ultimately have "\<bar>5404236753554427 / 2 ^ 51 - pi * t\<bar> \<le> 1 / 2 ^ 50" by linarith
  then show ?thesis by (simp only: t_def)
qed

lemma phyllotaxis_accuracy:
  assumes "accurate M" "i < 2 ^ 32"
  shows "\<exists>x y. phyllotaxis_x M i = Fin x \<and> phyllotaxis_y M i = Fin y \<and>
           \<bar>x - fst (spec_phyllotaxis i)\<bar> \<le> phyllotaxis_tolerance i \<and>
           \<bar>y - snd (spec_phyllotaxis i)\<bar> \<le> phyllotaxis_tolerance i"
  by (rule phyllotaxis_error[OF assms initialAngle_value initialAngle_error]) simp_all

text \<open>A product of two enclosed factors, the first of them positive, lies between the products of the bounds.\<close>

lemma product_enclosed:
  fixes q c :: real
  assumes "0 \<le> qlo" "qlo \<le> q" "q \<le> qhi" "clo \<le> c" "c \<le> chi"
    and "lo \<le> qlo * clo" "lo \<le> qhi * clo" "qlo * chi \<le> hi" "qhi * chi \<le> hi"
  shows "lo \<le> q * c \<and> q * c \<le> hi"
proof (cases "0 \<le> c")
  case True
  have "qlo * clo \<le> qlo * c" using assms(1,4) by (rule mult_left_mono[rotated])
  also have "\<dots> \<le> q * c" using assms(2) True by (rule mult_right_mono)
  finally have l: "lo \<le> q * c" using assms(6) by simp
  have "q * c \<le> qhi * c" using assms(3) True by (rule mult_right_mono)
  also have "\<dots> \<le> qhi * chi" using assms(1,2,3,5) by (intro mult_left_mono) simp_all
  finally show ?thesis using l assms(9) by simp
next
  case False
  then have c: "c \<le> 0" by simp
  have "qhi * clo \<le> qhi * c" using assms(1,2,3,4) by (intro mult_left_mono) simp_all
  also have "\<dots> \<le> q * c" using assms(3) c by (rule mult_right_mono_neg)
  finally have l: "lo \<le> q * c" using assms(7) by simp
  have "q * c \<le> qlo * c" using assms(2) c by (rule mult_right_mono_neg)
  also have "\<dots> \<le> qlo * chi" using assms(1,5) by (intro mult_left_mono) simp_all
  finally show ?thesis using l assms(8) by simp
qed

lemma spec_radius_bounds:
  "10 * (101904826760412361 / 2 ^ 57) \<le> spec_radius 0" "spec_radius 0 \<le> 10 * (815238614083298889 / 2 ^ 60)"
  "10 * (1412034699884310141 / 2 ^ 60) \<le> spec_radius 1" "spec_radius 1 \<le> 10 * (706017349942155071 / 2 ^ 59)"
  "10 * (911464479486486857 / 2 ^ 59) \<le> spec_radius 2" "spec_radius 2 \<le> 10 * (1822928958972973715 / 2 ^ 60)"
proof -
  have "101904826760412361 / 2 ^ 57 \<le> sqrt (1 / 2)" by (rule real_le_rsqrt) (simp add: power2_eq_square)
  then show "10 * (101904826760412361 / 2 ^ 57) \<le> spec_radius 0" by (simp add: spec_radius_def)
  have "sqrt (1 / 2) \<le> 815238614083298889 / 2 ^ 60" by (rule real_le_lsqrt) (simp_all add: power2_eq_square)
  then show "spec_radius 0 \<le> 10 * (815238614083298889 / 2 ^ 60)" by (simp add: spec_radius_def)
  have "1412034699884310141 / 2 ^ 60 \<le> sqrt (3 / 2)" by (rule real_le_rsqrt) (simp add: power2_eq_square)
  then show "10 * (1412034699884310141 / 2 ^ 60) \<le> spec_radius 1" by (simp add: spec_radius_def)
  have "sqrt (3 / 2) \<le> 706017349942155071 / 2 ^ 59" by (rule real_le_lsqrt) (simp_all add: power2_eq_square)
  then show "spec_radius 1 \<le> 10 * (706017349942155071 / 2 ^ 59)" by (simp add: spec_radius_def)
  have "911464479486486857 / 2 ^ 59 \<le> sqrt (5 / 2)" by (rule real_le_rsqrt) (simp add: power2_eq_square)
  then show "10 * (911464479486486857 / 2 ^ 59) \<le> spec_radius 2" by (simp add: spec_radius_def)
  have "sqrt (5 / 2) \<le> 1822928958972973715 / 2 ^ 60" by (rule real_le_lsqrt) (simp_all add: power2_eq_square)
  then show "spec_radius 2 \<le> 10 * (1822928958972973715 / 2 ^ 60)" by (simp add: spec_radius_def)
qed

lemma enclosed_close: "l - e \<le> v \<and> v \<le> l + e \<Longrightarrow> \<bar>v - l\<bar> \<le> e" for v :: real
  by (auto simp: abs_le_iff)

lemma close_lower: "\<bar>v - w\<bar> \<le> d \<Longrightarrow> lo \<le> w \<and> w \<le> hi \<Longrightarrow> l \<le> lo - d \<Longrightarrow> l \<le> v" for v :: real
  by (auto simp: abs_le_iff)

lemma close_upper: "\<bar>v - w\<bar> \<le> d \<Longrightarrow> lo \<le> w \<and> w \<le> hi \<Longrightarrow> hi + d \<le> h \<Longrightarrow> v \<le> h" for v :: real
  by (auto simp: abs_le_iff)

lemma spec_phyllotaxis_fst_snd:
  "fst (spec_phyllotaxis i) = spec_radius i * cos (spec_angle i)"
  "snd (spec_phyllotaxis i) = spec_radius i * sin (spec_angle i)"
  by (simp_all add: spec_phyllotaxis_def)

lemma spec_angle_near:
  "\<bar>spec_angle 1 - 5404236753554427 / 2 ^ 51\<bar> \<le> 1 / 2 ^ 50"
  "\<bar>spec_angle 2 - 5404236753554427 / 2 ^ 50\<bar> \<le> 1 / 2 ^ 49"
proof -
  define t where "t = pi * (3 - sqrt 5) - 5404236753554427 / 2 ^ 51"
  have t: "\<bar>t\<bar> \<le> 1 / 2 ^ 50"
    using initialAngle_error unfolding t_def by (simp only: abs_minus_commute)
  have "spec_angle 1 - 5404236753554427 / 2 ^ 51 = t" by (simp add: spec_angle_def t_def)
  then show "\<bar>spec_angle 1 - 5404236753554427 / 2 ^ 51\<bar> \<le> 1 / 2 ^ 50" using t by simp
  have "spec_angle 2 - 5404236753554427 / 2 ^ 50 = 2 * t" by (simp add: spec_angle_def t_def)
  then have "\<bar>spec_angle 2 - 5404236753554427 / 2 ^ 50\<bar> = 2 * \<bar>t\<bar>"
    by (simp only: abs_mult abs_numeral)
  also have "\<dots> \<le> 2 * (1 / 2 ^ 50)" using t by (intro mult_left_mono) simp_all
  finally show "\<bar>spec_angle 2 - 5404236753554427 / 2 ^ 50\<bar> \<le> 1 / 2 ^ 49" by simp
qed

lemma spec_angle_bounds:
  "- 228204614474023248907732545 / 2 ^ 88 \<le> cos (spec_angle 1)" "cos (spec_angle 1) \<le> - 114102307237011349574947329 / 2 ^ 87"
  "418108240707501400773818595 / 2 ^ 89 \<le> sin (spec_angle 1)" "sin (spec_angle 1) \<le> 836216481415005000578988741 / 2 ^ 90"
  "108227805090663947733264967 / 2 ^ 90 \<le> cos (spec_angle 2)" "cos (spec_angle 2) \<le> 108227805090668345780176859 / 2 ^ 90"
  "- 1233200017463165243252082929 / 2 ^ 90 \<le> sin (spec_angle 2)" "sin (spec_angle 2) \<le> - 308300004365790211301292751 / 2 ^ 88"
proof -
  have d: "\<bar>cos (spec_angle 1) - cos (5404236753554427 / 2 ^ 51)\<bar> \<le> 1 / 2 ^ 50"
    using cos_lipschitz[of "spec_angle 1" "5404236753554427 / 2 ^ 51"] spec_angle_near(1) by (rule order_trans)
  show "- 228204614474023248907732545 / 2 ^ 88 \<le> cos (spec_angle 1)"
    by (rule close_lower[OF d cos_angle_1]) simp
  show "cos (spec_angle 1) \<le> - 114102307237011349574947329 / 2 ^ 87"
    by (rule close_upper[OF d cos_angle_1]) simp
  have d: "\<bar>sin (spec_angle 1) - sin (5404236753554427 / 2 ^ 51)\<bar> \<le> 1 / 2 ^ 50"
    using sin_lipschitz[of "spec_angle 1" "5404236753554427 / 2 ^ 51"] spec_angle_near(1) by (rule order_trans)
  show "418108240707501400773818595 / 2 ^ 89 \<le> sin (spec_angle 1)"
    by (rule close_lower[OF d sin_angle_1]) simp
  show "sin (spec_angle 1) \<le> 836216481415005000578988741 / 2 ^ 90"
    by (rule close_upper[OF d sin_angle_1]) simp
  have d: "\<bar>cos (spec_angle 2) - cos (5404236753554427 / 2 ^ 50)\<bar> \<le> 1 / 2 ^ 49"
    using cos_lipschitz[of "spec_angle 2" "5404236753554427 / 2 ^ 50"] spec_angle_near(2) by (rule order_trans)
  show "108227805090663947733264967 / 2 ^ 90 \<le> cos (spec_angle 2)"
    by (rule close_lower[OF d cos_angle_2]) simp
  show "cos (spec_angle 2) \<le> 108227805090668345780176859 / 2 ^ 90"
    by (rule close_upper[OF d cos_angle_2]) simp
  have d: "\<bar>sin (spec_angle 2) - sin (5404236753554427 / 2 ^ 50)\<bar> \<le> 1 / 2 ^ 49"
    using sin_lipschitz[of "spec_angle 2" "5404236753554427 / 2 ^ 50"] spec_angle_near(2) by (rule order_trans)
  show "- 1233200017463165243252082929 / 2 ^ 90 \<le> sin (spec_angle 2)"
    by (rule close_lower[OF d sin_angle_2]) simp
  show "sin (spec_angle 2) \<le> - 308300004365790211301292751 / 2 ^ 88"
    by (rule close_upper[OF d sin_angle_2]) simp
qed

text \<open>
  The phyllotaxis positions of the first three indices are within \<open>10 ^ - 13\<close> of
  the numbers that the specification writes.
\<close>

lemma spec_phyllotaxis_values:
  "\<bar>fst (spec_phyllotaxis 0) - 70710678118654755 / 10 ^ 16\<bar> \<le> 1 / 10 ^ 13"
  "snd (spec_phyllotaxis 0) = 0"
  "\<bar>fst (spec_phyllotaxis 1) - (- 903088751750192 / 10 ^ 14)\<bar> \<le> 1 / 10 ^ 13"
  "\<bar>snd (spec_phyllotaxis 1) - (827303273571596 / 10 ^ 14)\<bar> \<le> 1 / 10 ^ 13"
  "\<bar>fst (spec_phyllotaxis 2) - (13823220809823638 / 10 ^ 16)\<bar> \<le> 1 / 10 ^ 13"
  "\<bar>snd (spec_phyllotaxis 2) - (- 15750847141167634 / 10 ^ 15)\<bar> \<le> 1 / 10 ^ 13"
proof -
  have "fst (spec_phyllotaxis 0) = spec_radius 0" by (simp add: spec_phyllotaxis_def spec_angle_def)
  moreover have "70710678118654755 / 10 ^ 16 - 1 / 10 ^ 13 \<le> spec_radius 0 \<and> spec_radius 0 \<le> 70710678118654755 / 10 ^ 16 + 1 / 10 ^ 13"
    using spec_radius_bounds(1,2) by simp
  ultimately show "\<bar>fst (spec_phyllotaxis 0) - 70710678118654755 / 10 ^ 16\<bar> \<le> 1 / 10 ^ 13"
    by (simp only: enclosed_close)
  show "snd (spec_phyllotaxis 0) = 0" by (simp add: spec_phyllotaxis_def spec_angle_def)
  have "(- 903088751750192 / 10 ^ 14) - 1 / 10 ^ 13 \<le> spec_radius 1 * cos (spec_angle 1) \<and> spec_radius 1 * cos (spec_angle 1) \<le> (- 903088751750192 / 10 ^ 14) + 1 / 10 ^ 13"
    by (rule product_enclosed[OF _ spec_radius_bounds(3,4) spec_angle_bounds(1,2)]) simp_all
  then show "\<bar>fst (spec_phyllotaxis 1) - (- 903088751750192 / 10 ^ 14)\<bar> \<le> 1 / 10 ^ 13"
    unfolding spec_phyllotaxis_fst_snd by (rule enclosed_close)
  have "(827303273571596 / 10 ^ 14) - 1 / 10 ^ 13 \<le> spec_radius 1 * sin (spec_angle 1) \<and> spec_radius 1 * sin (spec_angle 1) \<le> (827303273571596 / 10 ^ 14) + 1 / 10 ^ 13"
    by (rule product_enclosed[OF _ spec_radius_bounds(3,4) spec_angle_bounds(3,4)]) simp_all
  then show "\<bar>snd (spec_phyllotaxis 1) - (827303273571596 / 10 ^ 14)\<bar> \<le> 1 / 10 ^ 13"
    unfolding spec_phyllotaxis_fst_snd by (rule enclosed_close)
  have "(13823220809823638 / 10 ^ 16) - 1 / 10 ^ 13 \<le> spec_radius 2 * cos (spec_angle 2) \<and> spec_radius 2 * cos (spec_angle 2) \<le> (13823220809823638 / 10 ^ 16) + 1 / 10 ^ 13"
    by (rule product_enclosed[OF _ spec_radius_bounds(5,6) spec_angle_bounds(5,6)]) simp_all
  then show "\<bar>fst (spec_phyllotaxis 2) - (13823220809823638 / 10 ^ 16)\<bar> \<le> 1 / 10 ^ 13"
    unfolding spec_phyllotaxis_fst_snd by (rule enclosed_close)
  have "(- 15750847141167634 / 10 ^ 15) - 1 / 10 ^ 13 \<le> spec_radius 2 * sin (spec_angle 2) \<and> spec_radius 2 * sin (spec_angle 2) \<le> (- 15750847141167634 / 10 ^ 15) + 1 / 10 ^ 13"
    by (rule product_enclosed[OF _ spec_radius_bounds(5,6) spec_angle_bounds(7,8)]) simp_all
  then show "\<bar>snd (spec_phyllotaxis 2) - (- 15750847141167634 / 10 ^ 15)\<bar> \<le> 1 / 10 ^ 13"
    unfolding spec_phyllotaxis_fst_snd by (rule enclosed_close)
qed

lemma phyllotaxis_tolerance_small:
  "phyllotaxis_tolerance 0 \<le> 2 / 10 ^ 13" "phyllotaxis_tolerance 1 \<le> 2 / 10 ^ 13"
  "phyllotaxis_tolerance 2 \<le> 2 / 10 ^ 13"
proof -
  have "spec_radius 0 \<le> 16" "spec_radius 1 \<le> 16" "spec_radius 2 \<le> 16"
    using spec_radius_bounds(2,4,6) by simp_all
  then show "phyllotaxis_tolerance 0 \<le> 2 / 10 ^ 13" "phyllotaxis_tolerance 1 \<le> 2 / 10 ^ 13"
    "phyllotaxis_tolerance 2 \<le> 2 / 10 ^ 13"
    by (simp_all add: phyllotaxis_tolerance_def)
qed

section \<open>The initialization of the nodes\<close>

lemma not_NaN_cases: "\<not> isNaN v \<Longrightarrow> \<not> is_infinite v \<Longrightarrow> is_finite v"
  by (cases v rule: ToNumber.cases; cases "the v")
     (auto simp: isNaN_def is_infinite_def is_finite_def)

lemma close_toD:
  assumes "close_to t w v"
  shows "\<exists>a. v = Some (Fin a) \<and> \<bar>a - w\<bar> \<le> t"
proof (cases v)
  case None
  then show ?thesis using assms by (simp add: close_to_def)
next
  case (Some n)
  then show ?thesis using assms by (cases n) (simp_all add: close_to_def)
qed

text \<open>With the engine of the examples, the first node is seeded at \<open>(7.0710678118654755, 0)\<close>.\<close>

lemma phyllotaxis_0:
  "phyllotaxis_x rounding_engine 0 = Fin (124395540479019 / 2 ^ 44)"
  "phyllotaxis_y rounding_engine 0 = Fin 0"
proof -
  have h: "fl (1 / 2) = Fin (1 / 2)"
    by (subst fl_eval[where k = 53]) (simp_all add: round_half_even_def)
  have r: "fl (10 * (6369051672525773 / 2 ^ 53)) = Fin (124395540479019 / 2 ^ 44)"
    by (subst fl_eval[where k = 50]) (simp_all add: round_half_even_def)
  have r1: "fl (124395540479019 / 2 ^ 44) = Fin (124395540479019 / 2 ^ 44)"
    by (subst fl_eval[where k = 50]) (simp_all add: round_half_even_def)
  show "phyllotaxis_x rounding_engine 0 = Fin (124395540479019 / 2 ^ 44)"
    using h r r1 fl_sqrt_half
    by (simp add: phyllotaxis_x_def initialRadius_def num_of_nat_def fl_zero initialAngle_value fl_one
          rounding_engine_def)
  show "phyllotaxis_y rounding_engine 0 = Fin 0"
    using h r fl_sqrt_half
    by (simp add: phyllotaxis_y_def initialRadius_def num_of_nat_def fl_zero initialAngle_value
          rounding_engine_def)
qed

text \<open>A node of which a coordinate is \<open>NaN\<close> where the loop tests it is placed at the phyllotaxis position.\<close>

lemma initializeNode_at_phyllotaxis:
  assumes "accurate M" "i < 2 ^ 32" "isNaN (given_x nd) \<or> isNaN (given_y nd)"
  shows "at_phyllotaxis i (initializeNode M i nd)"
proof -
  obtain x y where p: "phyllotaxis_x M i = Fin x" "phyllotaxis_y M i = Fin y"
    "\<bar>x - fst (spec_phyllotaxis i)\<bar> \<le> phyllotaxis_tolerance i"
    "\<bar>y - snd (spec_phyllotaxis i)\<bar> \<le> phyllotaxis_tolerance i"
    using phyllotaxis_accuracy[OF assms(1,2)] by blast
  show ?thesis
    using assms(3) p by (simp add: at_phyllotaxis_def close_to_def initializeNode_fields)
qed

text \<open>
  Claim C1, as the code has it.  The engine is one whose cosine and sine are
  within \<open>2 ^ - 52\<close> of the exact value, and the array is within the length that an
  array can have.  After \<open>nodes(arr)\<close>, the node at index \<open>i\<close> has \<open>index\<close> equal
  to \<open>i\<close>; none of its \<open>x\<close>, \<open>y\<close>, \<open>vx\<close>, \<open>vy\<close> is \<open>NaN\<close> or absent, and each is
  finite unless an infinity was given for it (for a coordinate: by the node's
  own coordinate or by the fixed coordinate that overrides it).  Let the given
  \<open>x\<close> be \<open>fx\<close> where \<open>fx\<close> is present and the \<open>x\<close> of the node otherwise, and the
  same for \<open>y\<close>.  Where neither the given \<open>x\<close> nor the given \<open>y\<close> is \<open>NaN\<close> or
  absent, the coordinates are the given ones, so that \<open>x\<close> equals a present \<open>fx\<close>
  and \<open>y\<close> a present \<open>fy\<close>.  Otherwise both coordinates are the phyllotaxis
  position: each is within \<open>R (i + 1) / 2 ^ 48\<close> of \<open>R cos t\<close> and \<open>R sin t\<close>, where
  \<open>R = 10 sqrt (0.5 + i)\<close> and \<open>t = i pi (3 - sqrt 5)\<close>.
\<close>

theorem nodes_initialized:
  assumes "accurate M" "i < length arr" "length arr < 2 ^ 32"
  shows "\<exists>self'. nodes_set M self arr = Normal self' \<and> length (priv_nodes self') = length arr \<and>
     node_index (priv_nodes self' ! i) = Some (Fin (real i)) \<and>
     \<not> isNaN (node_x (priv_nodes self' ! i)) \<and> \<not> isNaN (node_y (priv_nodes self' ! i)) \<and>
     \<not> isNaN (node_vx (priv_nodes self' ! i)) \<and> \<not> isNaN (node_vy (priv_nodes self' ! i)) \<and>
     (\<not> is_infinite (given_x (arr ! i)) \<longrightarrow> is_finite (node_x (priv_nodes self' ! i))) \<and>
     (\<not> is_infinite (given_y (arr ! i)) \<longrightarrow> is_finite (node_y (priv_nodes self' ! i))) \<and>
     (\<not> is_infinite (node_vx (arr ! i)) \<longrightarrow> is_finite (node_vx (priv_nodes self' ! i))) \<and>
     (\<not> is_infinite (node_vy (arr ! i)) \<longrightarrow> is_finite (node_vy (priv_nodes self' ! i))) \<and>
     (\<forall>f. node_fx (arr ! i) = Some f \<and> f \<noteq> NaN \<and> \<not> isNaN (given_y (arr ! i)) \<longrightarrow>
          node_x (priv_nodes self' ! i) = Some f) \<and>
     (\<forall>f. node_fy (arr ! i) = Some f \<and> f \<noteq> NaN \<and> \<not> isNaN (given_x (arr ! i)) \<longrightarrow>
          node_y (priv_nodes self' ! i) = Some f) \<and>
     (\<not> isNaN (given_x (arr ! i)) \<and> \<not> isNaN (given_y (arr ! i)) \<longrightarrow>
          node_x (priv_nodes self' ! i) = given_x (arr ! i) \<and>
          node_y (priv_nodes self' ! i) = given_y (arr ! i)) \<and>
     (isNaN (given_x (arr ! i)) \<or> isNaN (given_y (arr ! i)) \<longrightarrow>
          at_phyllotaxis i (priv_nodes self' ! i))"
proof -
  obtain self' where s: "nodes_set M self arr = Normal self'" "length (priv_nodes self') = length arr"
    "priv_nodes self' ! i = initializeNode M i (arr ! i)"
    using nodes_set_nth[OF assms(2)] by blast
  have i32: "i < 2 ^ 32" using assms(2,3) by simp
  then have "i < 2 ^ 53" by (rule less_trans) simp
  then have idx: "num_of_nat i = Fin (real i)" by (rule num_of_nat_small)
  obtain a b where p: "phyllotaxis_x M i = Fin a" "phyllotaxis_y M i = Fin b"
    using phyllotaxis_accuracy[OF assms(1) i32] by blast
  let ?nd = "initializeNode M i (arr ! i)"
  have nx: "\<not> isNaN (node_x ?nd)" and ny: "\<not> isNaN (node_y ?nd)"
    and nvx: "\<not> isNaN (node_vx ?nd)" and nvy: "\<not> isNaN (node_vy ?nd)"
    by (auto simp: initializeNode_fields p isNaN_def)
  have fx: "\<not> is_infinite (given_x (arr ! i)) \<longrightarrow> is_finite (node_x ?nd)"
    and fy: "\<not> is_infinite (given_y (arr ! i)) \<longrightarrow> is_finite (node_y ?nd)"
    and fvx: "\<not> is_infinite (node_vx (arr ! i)) \<longrightarrow> is_finite (node_vx ?nd)"
    and fvy: "\<not> is_infinite (node_vy (arr ! i)) \<longrightarrow> is_finite (node_vy ?nd)"
    by (auto simp: initializeNode_fields p intro: not_NaN_cases) (simp_all add: is_finite_def)
  have sx: "\<forall>f. node_fx (arr ! i) = Some f \<and> f \<noteq> NaN \<and> \<not> isNaN (given_y (arr ! i)) \<longrightarrow>
          node_x ?nd = Some f"
    and sy: "\<forall>f. node_fy (arr ! i) = Some f \<and> f \<noteq> NaN \<and> \<not> isNaN (given_x (arr ! i)) \<longrightarrow>
          node_y ?nd = Some f"
    by (auto simp: initializeNode_fields given_x_def given_y_def isNaN_def)
  have k: "\<not> isNaN (given_x (arr ! i)) \<and> \<not> isNaN (given_y (arr ! i)) \<longrightarrow>
          node_x ?nd = given_x (arr ! i) \<and> node_y ?nd = given_y (arr ! i)"
    by (simp add: initializeNode_fields)
  have ph: "isNaN (given_x (arr ! i)) \<or> isNaN (given_y (arr ! i)) \<longrightarrow> at_phyllotaxis i ?nd"
    using initializeNode_at_phyllotaxis[OF assms(1) i32] by blast
  show ?thesis
    using s idx nx ny nvx nvy fx fy fvx fvy sx sy k ph by (simp add: initializeNode_fields(1))
qed

theorem nodes_initialized_witness:
  "accurate rounding_engine \<and>
   (0::nat) < length [pinned_node, empty_node] \<and> (1::nat) < length [pinned_node, empty_node] \<and>
   length [pinned_node, empty_node] < (2::nat) ^ 32 \<and>
   (\<exists>self'. nodes_set rounding_engine example_simulation [pinned_node, empty_node] = Normal self' \<and>
      length (priv_nodes self') = 2 \<and>
      node_index (priv_nodes self' ! 0) = Some (Fin 0) \<and>
      node_x (priv_nodes self' ! 0) = Some (Fin 2) \<and>
      node_y (priv_nodes self' ! 0) = Some (Fin 4) \<and>
      is_finite (node_vx (priv_nodes self' ! 0)) \<and>
      is_finite (node_vy (priv_nodes self' ! 0)) \<and>
      node_index (priv_nodes self' ! 1) = Some (Fin 1) \<and>
      at_phyllotaxis 1 (priv_nodes self' ! 1) \<and>
      is_finite (node_x (priv_nodes self' ! 1)) \<and>
      is_finite (node_y (priv_nodes self' ! 1)))"
  using nodes_initialized[OF accurate_rounding_engine, of 0 "[pinned_node, empty_node]" example_simulation]
    nodes_initialized[OF accurate_rounding_engine, of 1 "[pinned_node, empty_node]" example_simulation]
    accurate_rounding_engine
  by (auto simp: pinned_node_def empty_node_def given_x_def given_y_def is_infinite_def isNaN_def)

text \<open>
  The claim as it is worded fails on the node \<open>{fx: 5}\<close>: its \<open>y\<close> is absent, so
  both coordinates become the phyllotaxis position and \<open>x\<close> is not \<open>fx\<close>.  It
  also fails on the node \<open>{x: Infinity, y: 0}\<close>, of which \<open>x\<close> stays infinite.
\<close>

theorem nodes_fixed_or_finite_counterexample:
  "node_fx fixed_x_node = Some (Fin 5) \<and>
   map node_x (returned_nodes (nodes_set rounding_engine example_simulation [fixed_x_node, infinite_node]))
     = [Some (Fin (124395540479019 / 2 ^ 44)), Some PInf] \<and>
   (124395540479019 / 2 ^ 44 :: real) \<noteq> 5"
  by (simp add: returned_nodes_nodes_set enumerate_eq_zip initializeNode_fields fixed_x_node_def
        infinite_node_def empty_node_def given_x_def given_y_def isNaN_def phyllotaxis_0 upt_rec)

text \<open>
  Claim C10, as the code has it.  The engine and the array are as for the claim
  C1.  In the initialization that \<open>nodes(arr)\<close> runs, a node of which \<open>vx\<close> or
  \<open>vy\<close> is \<open>NaN\<close> (or absent) gets both velocities set to zero, so a finite \<open>vx\<close>
  beside a \<open>NaN\<close> \<open>vy\<close> is discarded.  The coordinates are tested after a present
  \<open>fx\<close> or \<open>fy\<close> has been copied over them: a node of which the given \<open>x\<close> or the
  given \<open>y\<close> is \<open>NaN\<close> (or absent) gets both coordinates replaced by its
  phyllotaxis position, within \<open>R (i + 1) / 2 ^ 48\<close> of \<open>(R cos t, R sin t)\<close>, so a
  finite coordinate beside a \<open>NaN\<close> one is discarded; this is the case of every
  node with no \<open>fx\<close> and no \<open>fy\<close> of which \<open>x\<close> or \<open>y\<close> is \<open>NaN\<close>.  A node of which
  neither given coordinate is \<open>NaN\<close> keeps them, whatever its own \<open>x\<close> and \<open>y\<close>.
\<close>

theorem nodes_NaN_resets_pair:
  assumes "accurate M" "i < length arr" "length arr < 2 ^ 32"
  shows "\<exists>self'. nodes_set M self arr = Normal self' \<and>
     (isNaN (node_vx (arr ! i)) \<or> isNaN (node_vy (arr ! i)) \<longrightarrow>
        node_vx (priv_nodes self' ! i) = Some (Fin 0) \<and>
        node_vy (priv_nodes self' ! i) = Some (Fin 0)) \<and>
     (isNaN (given_x (arr ! i)) \<or> isNaN (given_y (arr ! i)) \<longrightarrow>
        at_phyllotaxis i (priv_nodes self' ! i)) \<and>
     (node_fx (arr ! i) = None \<and> node_fy (arr ! i) = None \<and>
      (isNaN (node_x (arr ! i)) \<or> isNaN (node_y (arr ! i))) \<longrightarrow>
        at_phyllotaxis i (priv_nodes self' ! i)) \<and>
     (\<not> isNaN (given_x (arr ! i)) \<and> \<not> isNaN (given_y (arr ! i)) \<longrightarrow>
        node_x (priv_nodes self' ! i) = given_x (arr ! i) \<and>
        node_y (priv_nodes self' ! i) = given_y (arr ! i))"
proof -
  obtain self' where s: "nodes_set M self arr = Normal self'"
    "priv_nodes self' ! i = initializeNode M i (arr ! i)"
    using nodes_set_nth[OF assms(2)] by blast
  have i32: "i < 2 ^ 32" using assms(2,3) by simp
  let ?nd = "initializeNode M i (arr ! i)"
  have v: "isNaN (node_vx (arr ! i)) \<or> isNaN (node_vy (arr ! i)) \<longrightarrow>
        node_vx ?nd = Some (Fin 0) \<and> node_vy ?nd = Some (Fin 0)"
    by (simp add: initializeNode_fields)
  have ph: "isNaN (given_x (arr ! i)) \<or> isNaN (given_y (arr ! i)) \<longrightarrow> at_phyllotaxis i ?nd"
    using initializeNode_at_phyllotaxis[OF assms(1) i32] by blast
  have free: "node_fx (arr ! i) = None \<and> node_fy (arr ! i) = None \<and>
      (isNaN (node_x (arr ! i)) \<or> isNaN (node_y (arr ! i))) \<longrightarrow> at_phyllotaxis i ?nd"
    using ph by (auto simp: given_x_def given_y_def)
  have k: "\<not> isNaN (given_x (arr ! i)) \<and> \<not> isNaN (given_y (arr ! i)) \<longrightarrow>
          node_x ?nd = given_x (arr ! i) \<and> node_y ?nd = given_y (arr ! i)"
    by (simp add: initializeNode_fields)
  show ?thesis using s v ph free k by simp
qed

theorem nodes_NaN_resets_pair_witness:
  "accurate rounding_engine \<and>
   (0::nat) < length [half_given_node] \<and> length [half_given_node] < (2::nat) ^ 32 \<and>
   node_vx half_given_node = Some (Fin 7) \<and> node_x half_given_node = Some (Fin 3) \<and>
   (\<exists>self'. nodes_set rounding_engine example_simulation [half_given_node] = Normal self' \<and>
      node_vx (priv_nodes self' ! 0) = Some (Fin 0) \<and>
      node_vy (priv_nodes self' ! 0) = Some (Fin 0) \<and>
      at_phyllotaxis 0 (priv_nodes self' ! 0))"
  using nodes_NaN_resets_pair[OF accurate_rounding_engine, of 0 "[half_given_node]" example_simulation]
    accurate_rounding_engine
  by (simp add: half_given_node_def empty_node_def isNaN_def given_x_def given_y_def)

text \<open>
  The claim as it is worded fails on the node \<open>{x: NaN, y: 1, fx: 0, fy: 0}\<close>:
  its \<open>x\<close> is \<open>NaN\<close>, but \<open>fx\<close> and \<open>fy\<close> are copied over the coordinates before
  they are tested, so the node stays at \<open>(0, 0)\<close>, which is not the phyllotaxis
  position \<open>(7.07..., 0)\<close> of the index \<open>0\<close>.
\<close>

theorem nodes_NaN_fixed_counterexample:
  "node_x fixed_NaN_node = Some NaN \<and> isNaN (node_x fixed_NaN_node) \<and>
   map (\<lambda>nd. (node_x nd, node_y nd))
     (returned_nodes (nodes_set rounding_engine example_simulation [fixed_NaN_node]))
     = [(Some (Fin 0), Some (Fin 0))] \<and>
   \<not> at_phyllotaxis 0 (hd (returned_nodes (nodes_set rounding_engine example_simulation [fixed_NaN_node])))"
proof -
  have r: "returned_nodes (nodes_set rounding_engine example_simulation [fixed_NaN_node])
      = [initializeNode rounding_engine 0 fixed_NaN_node]"
    by (simp add: returned_nodes_nodes_set enumerate_eq_zip upt_rec)
  have x: "node_x (initializeNode rounding_engine 0 fixed_NaN_node) = Some (Fin 0)"
    and y: "node_y (initializeNode rounding_engine 0 fixed_NaN_node) = Some (Fin 0)"
    by (simp_all add: initializeNode_fields fixed_NaN_node_def empty_node_def given_x_def
          given_y_def isNaN_def)
  have "7 \<le> spec_radius 0" using spec_radius_bounds(1) by simp
  moreover have "phyllotaxis_tolerance 0 \<le> 1" using phyllotaxis_tolerance_small(1) by simp
  moreover have "fst (spec_phyllotaxis 0) = spec_radius 0"
    by (simp add: spec_phyllotaxis_def spec_angle_def)
  ultimately have "\<not> close_to (phyllotaxis_tolerance 0) (fst (spec_phyllotaxis 0)) (Some (Fin 0))"
    by (simp add: close_to_def)
  then have n: "\<not> at_phyllotaxis 0 (initializeNode rounding_engine 0 fixed_NaN_node)"
    by (simp add: at_phyllotaxis_def x)
  show ?thesis
    unfolding r using x y n by (simp add: fixed_NaN_node_def empty_node_def isNaN_def)
qed

text \<open>
  Claim C5.  The engine is one whose cosine and sine are within \<open>2 ^ - 52\<close> of
  the exact value.  \<open>forceSimulation()\<close> returns a new simulation, and on a new
  simulation \<open>nodes([a, b, c])\<close> with three empty objects gives the node at index
  \<open>i\<close> that index, zero velocity and the position \<open>(R cos t, R sin t)\<close> with
  \<open>R = 10 sqrt (0.5 + i)\<close> and \<open>t = i pi (3 - sqrt 5)\<close>, within \<open>R (i + 1) / 2 ^ 48\<close>.
  Within the tolerance \<open>10 ^ - 12\<close> of the specification, the coordinates are
  \<open>7.0710678118654755\<close> and \<open>0\<close> for \<open>a\<close>, \<open>-9.03088751750192\<close> and
  \<open>8.27303273571596\<close> for \<open>b\<close>, and \<open>1.3823220809823638\<close> and
  \<open>-15.750847141167634\<close> for \<open>c\<close>.
\<close>

theorem phyllotaxis_seeding:
  assumes "accurate M"
  shows "forceSimulation M lcg e None = Normal (new_Simulation M lcg e) \<and>
   (\<exists>self'. nodes_set M (new_Simulation M lcg e) [empty_node, empty_node, empty_node] = Normal self' \<and>
      map node_index (priv_nodes self') = [Some (Fin 0), Some (Fin 1), Some (Fin 2)] \<and>
      map node_vx (priv_nodes self') = [Some (Fin 0), Some (Fin 0), Some (Fin 0)] \<and>
      map node_vy (priv_nodes self') = [Some (Fin 0), Some (Fin 0), Some (Fin 0)] \<and>
      at_phyllotaxis 0 (priv_nodes self' ! 0) \<and>
      at_phyllotaxis 1 (priv_nodes self' ! 1) \<and>
      at_phyllotaxis 2 (priv_nodes self' ! 2) \<and>
      close_to (1 / 10 ^ 12) (70710678118654755 / 10 ^ 16) (node_x (priv_nodes self' ! 0)) \<and>
      close_to (1 / 10 ^ 12) 0 (node_y (priv_nodes self' ! 0)) \<and>
      close_to (1 / 10 ^ 12) (- 903088751750192 / 10 ^ 14) (node_x (priv_nodes self' ! 1)) \<and>
      close_to (1 / 10 ^ 12) (827303273571596 / 10 ^ 14) (node_y (priv_nodes self' ! 1)) \<and>
      close_to (1 / 10 ^ 12) (13823220809823638 / 10 ^ 16) (node_x (priv_nodes self' ! 2)) \<and>
      close_to (1 / 10 ^ 12) (- 15750847141167634 / 10 ^ 15) (node_y (priv_nodes self' ! 2)))"
proof -
  let ?arr = "[empty_node, empty_node, empty_node]"
  let ?nd = "\<lambda>i. initializeNode M i empty_node"
  have f: "forceSimulation M lcg e None = Normal (new_Simulation M lcg e)"
    by (simp add: forceSimulation_def nodes_set_eq initializeNodes_array_eq new_Simulation_def)
  have n: "nodes_set M (new_Simulation M lcg e) ?arr =
      Normal ((new_Simulation M lcg e)\<lparr>priv_nodes := [?nd 0, ?nd 1, ?nd 2]\<rparr>)"
    by (simp add: nodes_set_eq initializeNodes_array_eq new_Simulation_def enumerate_eq_zip upt_rec
          numeral_2_eq_2)
  have g: "isNaN (given_x empty_node) \<or> isNaN (given_y empty_node)"
    by (simp add: empty_node_def given_x_def isNaN_def)
  have idx: "node_index (?nd 0) = Some (Fin 0)" "node_index (?nd 1) = Some (Fin 1)"
    "node_index (?nd 2) = Some (Fin 2)"
    by (simp_all add: initializeNode_fields num_of_nat_def fl_zero fl_one fl_numeral)
  have v: "node_vx (?nd i) = Some (Fin 0)" "node_vy (?nd i) = Some (Fin 0)" for i
    by (simp_all add: initializeNode_fields empty_node_def isNaN_def)
  have p: "at_phyllotaxis 0 (?nd 0)" "at_phyllotaxis 1 (?nd 1)" "at_phyllotaxis 2 (?nd 2)"
    by (rule initializeNode_at_phyllotaxis[OF assms _ g], simp)+
  have c: "close_to (1 / 10 ^ 12) l v"
    if h: "close_to (phyllotaxis_tolerance i) w v" "phyllotaxis_tolerance i \<le> 2 / 10 ^ 13"
      "\<bar>w - l\<bar> \<le> 1 / 10 ^ 13" for i l w v
  proof -
    obtain a where a: "v = Some (Fin a)" "\<bar>a - w\<bar> \<le> phyllotaxis_tolerance i"
      using close_toD[OF h(1)] by blast
    have "\<bar>a - l\<bar> \<le> \<bar>a - w\<bar> + \<bar>w - l\<bar>" by simp
    also have "\<dots> \<le> 2 / 10 ^ 13 + 1 / 10 ^ 13" using a(2) h(2,3) by linarith
    also have "\<dots> \<le> (1 / 10 ^ 12 :: real)" by simp
    finally show ?thesis by (simp add: close_to_def a(1))
  qed
  note px = p[unfolded at_phyllotaxis_def, THEN conjunct1]
  note py = p[unfolded at_phyllotaxis_def, THEN conjunct2]
  have z: "\<bar>snd (spec_phyllotaxis 0) - 0\<bar> \<le> 1 / 10 ^ 13"
    by (simp add: spec_phyllotaxis_values(2))
  have x0: "close_to (1 / 10 ^ 12) (70710678118654755 / 10 ^ 16) (node_x (?nd 0))"
    by (rule c[OF px(1) phyllotaxis_tolerance_small(1) spec_phyllotaxis_values(1)])
  have y0: "close_to (1 / 10 ^ 12) 0 (node_y (?nd 0))"
    by (rule c[OF py(1) phyllotaxis_tolerance_small(1) z])
  have x1: "close_to (1 / 10 ^ 12) (- 903088751750192 / 10 ^ 14) (node_x (?nd 1))"
    by (rule c[OF px(2) phyllotaxis_tolerance_small(2) spec_phyllotaxis_values(3)])
  have y1: "close_to (1 / 10 ^ 12) (827303273571596 / 10 ^ 14) (node_y (?nd 1))"
    by (rule c[OF py(2) phyllotaxis_tolerance_small(2) spec_phyllotaxis_values(4)])
  have x2: "close_to (1 / 10 ^ 12) (13823220809823638 / 10 ^ 16) (node_x (?nd 2))"
    by (rule c[OF px(3) phyllotaxis_tolerance_small(3) spec_phyllotaxis_values(5)])
  have y2: "close_to (1 / 10 ^ 12) (- 15750847141167634 / 10 ^ 15) (node_y (?nd 2))"
    by (rule c[OF py(3) phyllotaxis_tolerance_small(3) spec_phyllotaxis_values(6)])
  show ?thesis
    unfolding n using f idx v p x0 y0 x1 y1 x2 y2 by simp
qed

theorem phyllotaxis_seeding_witness:
  "accurate rounding_engine \<and>
   forceSimulation rounding_engine () (0::nat) None = Normal (new_Simulation rounding_engine () 0) \<and>
   (\<exists>self'. nodes_set rounding_engine (new_Simulation rounding_engine () (0::nat))
               [empty_node, empty_node, empty_node] = Normal self' \<and>
      map node_index (priv_nodes self') = [Some (Fin 0), Some (Fin 1), Some (Fin 2)] \<and>
      map node_vx (priv_nodes self') = [Some (Fin 0), Some (Fin 0), Some (Fin 0)] \<and>
      map node_vy (priv_nodes self') = [Some (Fin 0), Some (Fin 0), Some (Fin 0)] \<and>
      at_phyllotaxis 0 (priv_nodes self' ! 0) \<and>
      at_phyllotaxis 1 (priv_nodes self' ! 1) \<and>
      at_phyllotaxis 2 (priv_nodes self' ! 2) \<and>
      close_to (1 / 10 ^ 12) (70710678118654755 / 10 ^ 16) (node_x (priv_nodes self' ! 0)) \<and>
      close_to (1 / 10 ^ 12) 0 (node_y (priv_nodes self' ! 0)) \<and>
      close_to (1 / 10 ^ 12) (- 903088751750192 / 10 ^ 14) (node_x (priv_nodes self' ! 1)) \<and>
      close_to (1 / 10 ^ 12) (827303273571596 / 10 ^ 14) (node_y (priv_nodes self' ! 1)) \<and>
      close_to (1 / 10 ^ 12) (13823220809823638 / 10 ^ 16) (node_x (priv_nodes self' ! 2)) \<and>
      close_to (1 / 10 ^ 12) (- 15750847141167634 / 10 ^ 15) (node_y (priv_nodes self' ! 2)))"
  using accurate_rounding_engine phyllotaxis_seeding[OF accurate_rounding_engine, of "()" "0::nat"]
  by (rule conjI)

section \<open>tick and the fixed nodes\<close>

text \<open>
  Claim C2.  At the end of a call of \<open>tick\<close> that runs at least one iteration
  (\<open>tick()\<close> runs one), every node with \<open>fx\<close> defined has \<open>x\<close> equal to \<open>fx\<close> and
  \<open>vx\<close> equal to zero, and the same for \<open>fy\<close>, \<open>y\<close> and \<open>vy\<close>.  Whatever the
  registered forces do, this holds of every node below the length that the array
  had when \<open>tick\<close> was called; with forces that keep the number of nodes the call
  returns and it holds of every node.  (The stored \<open>x\<close> is the value of \<open>fx\<close>,
  also where that value is \<open>NaN\<close>.)
\<close>

theorem tick_fixed_nodes:
  assumes "iterations = None \<or> (\<exists>k. iterations = Some (Suc k))"
  shows "(\<forall>self'. tick self iterations = Normal self' \<longrightarrow>
            (\<forall>i < length (priv_nodes self). fixed_snapped (priv_nodes self' ! i))) \<and>
         ((\<forall>(name, f) \<in> set (forces self). keeps_length f) \<longrightarrow>
            (\<exists>self'. tick self iterations = Normal self' \<and>
               (\<forall>nd \<in> set (priv_nodes self'). fixed_snapped nd)))"
proof -
  obtain k where k: "tick self iterations = tick_loop (Suc k) (length (priv_nodes self)) self"
    using assms by (auto simp: tick_def)
  have a: "\<forall>self'. tick self iterations = Normal self' \<longrightarrow>
            (\<forall>i < length (priv_nodes self). fixed_snapped (priv_nodes self' ! i))"
    unfolding k using tick_loop_snapped by blast
  have b: "\<exists>self'. tick self iterations = Normal self' \<and>
               (\<forall>nd \<in> set (priv_nodes self'). fixed_snapped nd)"
    if f: "\<forall>(name, f) \<in> set (forces self). keeps_length f"
  proof -
    have "tick self iterations = Normal (spec_tick ((spec_tick ^^ k) self))"
      unfolding k using tick_loop_spec[OF f, of "Suc k"] by simp
    then show ?thesis using spec_tick_snapped by blast
  qed
  show ?thesis using a b by blast
qed

theorem tick_fixed_nodes_witness:
  "keeps_length set_vx_force \<and> keeps_length add_vx_force \<and>
   (\<exists>self'. tick example_simulation None = Normal self' \<and>
      list_all fixed_snapped (priv_nodes self') \<and>
      map node_fx (priv_nodes self') = [None, Some (Fin 2)] \<and>
      map node_x (priv_nodes self') = [Some (Fin 2), Some (Fin 2)] \<and>
      map node_vx (priv_nodes self') = [Some (Fin 2), Some (Fin 0)])"
proof -
  have t: "tick example_simulation None = Normal (spec_tick example_simulation)"
    using tick_loop_spec[OF example_forces_keep_length, of 1] by (simp add: tick_def)
  obtain self' where s: "tick example_simulation None = Normal self'"
    and f: "\<forall>nd \<in> set (priv_nodes self'). fixed_snapped nd"
    using tick_fixed_nodes[of None example_simulation] example_forces_keep_length by blast
  have "self' = spec_tick example_simulation" using s t by simp
  then have "map node_fx (priv_nodes self') = [None, Some (Fin 2)]"
    "map node_x (priv_nodes self') = [Some (Fin 2), Some (Fin 2)]"
    "map node_vx (priv_nodes self') = [Some (Fin 2), Some (Fin 0)]"
    by (simp_all add: example_spec_tick free_node_def pinned_node_def empty_node_def)
  then show ?thesis using s f example_keeps_length by (auto simp: list_all_iff)
qed

text \<open>
  Claim C3.  Each iteration of \<open>tick\<close> performs the three steps of the
  specification in their order: alpha moves towards its target by
  \<open>(alphaTarget - alpha) * alphaDecay\<close>; every registered force is called, in
  the order of the force map, with the new alpha; then every node is
  integrated: where \<open>fx\<close> is absent \<open>vx\<close> is multiplied by the stored velocity
  decay and \<open>x\<close> grows by the new \<open>vx\<close> (where it is present \<open>x\<close> is \<open>fx\<close> and
  \<open>vx\<close> is zero), and the same for \<open>y\<close>.  So \<open>tick(k)\<close> is \<open>spec_tick\<close> applied
  \<open>k\<close> times, for forces that keep the number of nodes.
\<close>

theorem tick_iteration_steps:
  assumes "\<forall>(name, f) \<in> set (forces self). keeps_length f"
  shows "tick_iteration (length (priv_nodes self)) self = Normal (spec_tick self) \<and>
         tick self (Some k) = Normal ((spec_tick ^^ k) self) \<and>
         tick self None = Normal (spec_tick self)"
proof -
  have "tick self (Some k) = Normal ((spec_tick ^^ k) self)"
    using tick_loop_spec[OF assms, of k] by (simp add: tick_def)
  moreover have "tick self None = Normal (spec_tick self)"
    using tick_loop_spec[OF assms, of 1] by (simp add: tick_def)
  ultimately show ?thesis using tick_iteration_spec[OF assms] by simp
qed

theorem tick_iteration_steps_witness:
  "keeps_length set_vx_force \<and> keeps_length add_vx_force \<and>
   tick example_simulation None =
     Normal (example_simulation
       \<lparr> priv_alpha := Fin 1, force_state := 2,
         priv_nodes :=
           [free_node\<lparr>node_vx := Some (Fin 2), node_x := Some (Fin 2)\<rparr>,
            pinned_node\<lparr>node_vx := Some (Fin 0), node_x := Some (Fin 2),
                         node_vy := Some (Fin 0), node_y := Some (Fin 4)\<rparr>] \<rparr>)"
  using tick_iteration_steps[OF example_forces_keep_length, of 0] example_keeps_length
  by (simp add: example_spec_tick)

text \<open>
  Claim C4.  \<open>tick(k)\<close> leaves the simulation in the state that \<open>k\<close> calls of
  \<open>tick(1)\<close> leave it in, and \<open>tick()\<close> is \<open>tick(1)\<close>, for forces that keep the
  number of nodes.
\<close>

theorem tick_k_is_k_ticks:
  assumes "\<forall>(name, f) \<in> set (forces self). keeps_length f"
  shows "tick self (Some k) = tick_times k self \<and> tick self None = tick self (Some 1)"
proof -
  have "tick self (Some k) = Normal ((spec_tick ^^ k) self)"
    using tick_loop_spec[OF assms, of k] by (simp add: tick_def)
  then show ?thesis using tick_times_spec[OF assms, of k] by (simp add: tick_def)
qed

theorem tick_k_is_k_ticks_witness:
  "keeps_length set_vx_force \<and> keeps_length add_vx_force \<and>
   tick example_simulation (Some 2) = tick_times 2 example_simulation \<and>
   tick example_simulation None = tick example_simulation (Some 1) \<and>
   (\<exists>self'. tick_times 2 example_simulation = Normal self' \<and> force_state self' = 4)"
proof -
  have "tick_times 2 example_simulation = Normal ((spec_tick ^^ 2) example_simulation)"
    by (rule tick_times_spec[OF example_forces_keep_length])
  moreover have "force_state ((spec_tick ^^ 2) example_simulation) = 4"
    by (simp add: numeral_2_eq_2 example_spec_tick)
       (simp add: spec_tick_def spec_forces_def example_simulation_def set_vx_force_def add_vx_force_def
          Let_def)
  ultimately show ?thesis
    using tick_k_is_k_ticks[OF example_forces_keep_length, of 2] example_keeps_length by simp
qed

section \<open>The nearest node\<close>

lemma flt_irrefl: "\<not> flt a a"
  by (cases a) simp_all

lemma flt_trans: "flt a b \<Longrightarrow> flt b c \<Longrightarrow> flt a c"
  by (cases a; cases b; cases c) simp_all

lemma find_loop_result:
  assumes "find_loop qx qy nodes (c0, r0) = (c, r)"
  shows "(\<forall>nd \<in> set nodes. \<not> flt (distance2 qx qy nd) r) \<and>
         (c = c0 \<and> r = r0 \<or>
          (\<exists>nd \<in> set nodes. c = Some nd \<and> r = distance2 qx qy nd \<and> flt r r0))"
  using assms
proof (induction nodes arbitrary: c0 r0)
  case Nil
  then show ?case by simp
next
  case (Cons nd rest)
  let ?d = "distance2 qx qy nd"
  show ?case
  proof (cases "flt ?d r0")
    case True
    then have "find_loop qx qy rest (Some nd, ?d) = (c, r)" using Cons.prems by simp
    from Cons.IH[OF this]
    have a: "\<forall>m \<in> set rest. \<not> flt (distance2 qx qy m) r"
      and b: "c = Some nd \<and> r = ?d \<or> (\<exists>m \<in> set rest. c = Some m \<and> r = distance2 qx qy m \<and> flt r ?d)"
      by blast+
    from b have "\<not> flt ?d r" using flt_irrefl flt_trans by blast
    moreover from b True have
      "\<exists>m \<in> set (nd # rest). c = Some m \<and> r = distance2 qx qy m \<and> flt r r0"
      using flt_trans by auto
    ultimately show ?thesis using a by simp
  next
    case False
    then have "find_loop qx qy rest (c0, r0) = (c, r)" using Cons.prems by simp
    from Cons.IH[OF this]
    have a: "\<forall>m \<in> set rest. \<not> flt (distance2 qx qy m) r"
      and b: "c = c0 \<and> r = r0 \<or> (\<exists>m \<in> set rest. c = Some m \<and> r = distance2 qx qy m \<and> flt r r0)"
      by blast+
    from b False have "\<not> flt ?d r" using flt_trans by blast
    then show ?thesis using a b by auto
  qed
qed

text \<open>
  Claim C6, as the code has it.  \<open>find(x, y, radius?)\<close> compares the squared
  distance \<open>dx * dx + dy * dy\<close> of every node with the squared radius
  \<open>radius * radius\<close> (infinity when no radius is given), and the comparison is
  strict.  It returns \<open>undefined\<close> exactly when no node has a squared distance
  below the squared radius; otherwise it returns a node of the array, below the
  squared radius, such that no node has a smaller squared distance.
\<close>

theorem find_nearest:
  "(find self qx qy radius = None \<longleftrightarrow>
      (\<forall>nd \<in> set (priv_nodes self).
         \<not> flt (distance2 qx qy nd) (case radius of None \<Rightarrow> PInf | Some r \<Rightarrow> fmul r r))) \<and>
   (\<forall>c. find self qx qy radius = Some c \<longrightarrow>
      c \<in> set (priv_nodes self) \<and>
      flt (distance2 qx qy c) (case radius of None \<Rightarrow> PInf | Some r \<Rightarrow> fmul r r) \<and>
      (\<forall>nd \<in> set (priv_nodes self). \<not> flt (distance2 qx qy nd) (distance2 qx qy c)))"
proof -
  define r0 where "r0 = (case radius of None \<Rightarrow> PInf | Some r \<Rightarrow> fmul r r)"
  obtain c r where l: "find_loop qx qy (priv_nodes self) (None, r0) = (c, r)"
    by (cases "find_loop qx qy (priv_nodes self) (None, r0)")
  have f: "find self qx qy radius = c"
    using l by (simp add: find_def r0_def)
  from find_loop_result[OF l]
  have a: "\<forall>nd \<in> set (priv_nodes self). \<not> flt (distance2 qx qy nd) r"
    and b: "c = None \<and> r = r0 \<or>
            (\<exists>nd \<in> set (priv_nodes self). c = Some nd \<and> r = distance2 qx qy nd \<and> flt r r0)"
    by blast+
  have "c = None \<longleftrightarrow> (\<forall>nd \<in> set (priv_nodes self). \<not> flt (distance2 qx qy nd) r0)"
    using a b by auto
  moreover have "\<forall>c'. c = Some c' \<longrightarrow>
      c' \<in> set (priv_nodes self) \<and> flt (distance2 qx qy c') r0 \<and>
      (\<forall>nd \<in> set (priv_nodes self). \<not> flt (distance2 qx qy nd) (distance2 qx qy c'))"
    using a b by auto
  ultimately show ?thesis unfolding f r0_def by blast
qed

lemma find_simulation_distances:
  "distance2 (Fin 0) (Fin 0) node_a = Fin 25"
  "distance2 (Fin 0) (Fin 0) node_b = Fin 356"
  "distance2 (Fin 0) (Fin 0) node_c = Fin 116"
  "distance2 (Fin 0) (Fin 20) node_a = Fin 425"
  "distance2 (Fin 0) (Fin 20) node_b = Fin 116"
  "distance2 (Fin 0) (Fin 20) node_c = Fin 676"
  by (simp_all add: distance2_def node_a_def node_b_def node_c_def empty_node_def
        fl_zero fl_numeral fl_neg_numeral)

theorem find_nearest_witness:
  "find find_simulation (Fin 0) (Fin 0) None = Some node_a \<and>
   find find_simulation (Fin 0) (Fin 0) (Some (Fin 1)) = None \<and>
   find find_simulation (Fin 0) (Fin 20) None = Some node_b"
proof -
  have n: "priv_nodes find_simulation = [node_a, node_b, node_c]"
    by (simp add: find_simulation_def)
  have "find find_simulation (Fin 0) (Fin 0) (Some (Fin 1)) = None"
    using find_nearest[of find_simulation "Fin 0" "Fin 0" "Some (Fin 1)"]
    by (simp add: n find_simulation_distances fl_one)
  moreover have "find find_simulation (Fin 0) (Fin 0) None = Some node_a"
    by (simp add: find_def n find_simulation_distances)
  moreover have "find find_simulation (Fin 0) (Fin 20) None = Some node_b"
    by (simp add: find_def n find_simulation_distances)
  ultimately show ?thesis by simp
qed

text \<open>
  The claim as it is worded fails on the boundary: \<open>node_a\<close> lies at distance 5
  from the origin (its squared distance is 25), hence within distance 5, and
  \<open>find(0, 0, 5)\<close> returns \<open>undefined\<close>.  It also fails for a negative radius,
  which the code squares: \<open>find(0, 0, -6)\<close> returns \<open>node_a\<close>.
\<close>

theorem find_within_radius_counterexample:
  "priv_nodes find_simulation = [node_a, node_b, node_c] \<and>
   distance2 (Fin 0) (Fin 0) node_a = Fin (5 * 5) \<and>
   find find_simulation (Fin 0) (Fin 0) (Some (Fin 5)) = None \<and>
   find find_simulation (Fin 0) (Fin 0) (Some (Fin (- 6))) = Some node_a"
  by (simp add: find_def find_simulation_def find_simulation_distances fl_numeral)

section \<open>The scalar parameters\<close>

lemma in_unit_interval_iff: "in_unit_interval v = within_0_1 v"
  by (cases v) (simp_all add: in_unit_interval_def within_0_1_def fge_def)

text \<open>
  Claim C7.  Each of the setters \<open>alpha\<close>, \<open>alphaMin\<close>, \<open>alphaDecay\<close>,
  \<open>alphaTarget\<close> and \<open>velocityDecay\<close>, called with a value outside \<open>[0, 1]\<close>
  (\<open>NaN\<close> and the infinities included), throws and leaves the simulation as it
  was; called with a value of \<open>[0, 1]\<close> it stores the value (\<open>velocityDecay\<close>
  stores one minus the value) and returns the simulation.
\<close>

theorem scalar_setters_validate:
  "if within_0_1 v
   then alpha_set self v = Normal (self\<lparr>priv_alpha := v\<rparr>) \<and>
        alphaMin_set self v = Normal (self\<lparr>priv_alphaMin := v\<rparr>) \<and>
        alphaDecay_set self v = Normal (self\<lparr>priv_alphaDecay := v\<rparr>) \<and>
        alphaTarget_set self v = Normal (self\<lparr>priv_alphaTarget := v\<rparr>) \<and>
        velocityDecay_set self v = Normal (self\<lparr>priv_velocityDecay := fsub (Fin 1) v\<rparr>)
   else alpha_set self v = Throw (InvalidValue ''alpha'') self \<and>
        alphaMin_set self v = Throw (InvalidValue ''alphaMin'') self \<and>
        alphaDecay_set self v = Throw (InvalidValue ''alphaDecay'') self \<and>
        alphaTarget_set self v = Throw (InvalidValue ''alphaTarget'') self \<and>
        velocityDecay_set self v = Throw (InvalidValue ''velocityDecay'') self"
  by (simp add: alpha_set_def alphaMin_set_def alphaDecay_set_def alphaTarget_set_def
        velocityDecay_set_def property_set_def scalar_options_def velocityDecay_options_def
        in_unit_interval_iff)

theorem scalar_setters_validate_witness:
  "alpha_set example_simulation (Fin 2) = Throw (InvalidValue ''alpha'') example_simulation \<and>
   alphaMin_set example_simulation NaN = Throw (InvalidValue ''alphaMin'') example_simulation \<and>
   alphaDecay_set example_simulation PInf = Throw (InvalidValue ''alphaDecay'') example_simulation \<and>
   alphaTarget_set example_simulation (Fin (- 1 / 2))
     = Throw (InvalidValue ''alphaTarget'') example_simulation \<and>
   velocityDecay_set example_simulation (Fin (3 / 2))
     = Throw (InvalidValue ''velocityDecay'') example_simulation \<and>
   alpha_set example_simulation (Fin (1 / 2)) = Normal (example_simulation\<lparr>priv_alpha := Fin (1 / 2)\<rparr>) \<and>
   velocityDecay_set example_simulation (Fin 1)
     = Normal (example_simulation\<lparr>priv_velocityDecay := Fin 0\<rparr>)"
  using scalar_setters_validate[of "Fin 2" example_simulation]
    scalar_setters_validate[of NaN example_simulation]
    scalar_setters_validate[of PInf example_simulation]
    scalar_setters_validate[of "Fin (- 1 / 2)" example_simulation]
    scalar_setters_validate[of "Fin (3 / 2)" example_simulation]
    scalar_setters_validate[of "Fin (1 / 2)" example_simulation]
    scalar_setters_validate[of "Fin 1" example_simulation]
  by (simp add: within_0_1_def fl_zero)

lemma velocityDecay_roundtrip_dyadic:
  assumes "k \<le> 2 ^ 53"
  shows "velocityDecay_set self (Fin (real k / 2 ^ 53))
           = Normal (self\<lparr>priv_velocityDecay := Fin (real (2 ^ 53 - k) / 2 ^ 53)\<rparr>) \<and>
         velocityDecay_get (self\<lparr>priv_velocityDecay := Fin (real (2 ^ 53 - k) / 2 ^ 53)\<rparr>)
           = Fin (real k / 2 ^ 53)"
proof -
  have rk: "real k \<le> 2 ^ 53" using assms
    by (metis of_nat_le_iff of_nat_numeral of_nat_power)
  have d: "1 - real k / 2 ^ 53 = real (2 ^ 53 - k) / 2 ^ 53"
    using assms by (simp add: field_simps)
  have d': "1 - real (2 ^ 53 - k) / 2 ^ 53 = real k / 2 ^ 53"
    using d by linarith
  have v: "within_0_1 (Fin (real k / 2 ^ 53))" using rk by (simp add: within_0_1_def)
  have "fsub (Fin 1) (Fin (real k / 2 ^ 53)) = fl (1 - real k / 2 ^ 53)" by simp
  also have "\<dots> = fl (real (2 ^ 53 - k) / 2 ^ 53)" by (simp only: d)
  also have "\<dots> = Fin (real (2 ^ 53 - k) / 2 ^ 53)" by (rule fl_dyadic53) simp
  finally have s: "fsub (Fin 1) (Fin (real k / 2 ^ 53)) = Fin (real (2 ^ 53 - k) / 2 ^ 53)" .
  have "fsub (Fin 1) (Fin (real (2 ^ 53 - k) / 2 ^ 53)) = fl (1 - real (2 ^ 53 - k) / 2 ^ 53)" by simp
  also have "\<dots> = fl (real k / 2 ^ 53)" by (simp only: d')
  also have "\<dots> = Fin (real k / 2 ^ 53)" using assms by (rule fl_dyadic53)
  finally have g: "fsub (Fin 1) (Fin (real (2 ^ 53 - k) / 2 ^ 53)) = Fin (real k / 2 ^ 53)" .
  show ?thesis
    using v s g
    by (simp add: velocityDecay_set_def velocityDecay_get_def property_set_def property_get_def
          velocityDecay_options_def in_unit_interval_iff del: fsub.simps)
qed

text \<open>
  Claim C8, as the code has it.  The setter stores one minus the value it is
  given, computed in binary64; a new simulation stores \<open>0.6\<close> and its getter
  returns \<open>0.4\<close>; the stored value is what \<open>tick\<close> multiplies the velocity of a
  free node by.  The getter returns one minus the stored value, again computed
  in binary64: this is the value that was set whenever that value is a multiple
  of \<open>2 ^ - 53\<close> in \<open>[0, 1]\<close>, which every number of \<open>[0.5, 1]\<close> is, and \<open>0.4\<close>.
\<close>

theorem velocityDecay_stored:
  "priv_velocityDecay (new_Simulation M lcg e) = fl (6 / 10) \<and>
   velocityDecay_get (new_Simulation M lcg e) = fl (4 / 10) \<and>
   (within_0_1 v \<longrightarrow>
      velocityDecay_set self v = Normal (self\<lparr>priv_velocityDecay := fsub (Fin 1) v\<rparr>)) \<and>
   velocityDecay_get self = fsub (Fin 1) (priv_velocityDecay self) \<and>
   (forces self = [] \<and> i < length (priv_nodes self) \<and> node_fx (priv_nodes self ! i) = None \<longrightarrow>
      (\<exists>self'. tick self None = Normal self' \<and>
         node_vx (priv_nodes self' ! i)
           = Some (fmul (ToNumber (node_vx (priv_nodes self ! i))) (priv_velocityDecay self)))) \<and>
   (k \<le> 2 ^ 53 \<longrightarrow>
      (\<exists>self'. velocityDecay_set self (Fin (real k / 2 ^ 53)) = Normal self' \<and>
         velocityDecay_get self' = Fin (real k / 2 ^ 53)))"
proof -
  have a: "priv_velocityDecay (new_Simulation M lcg e) = fl (6 / 10)"
    by (simp add: new_Simulation_def)
  have g: "velocityDecay_get self = fsub (Fin 1) (priv_velocityDecay self)"
    by (simp add: velocityDecay_get_def property_get_def velocityDecay_options_def)
  have g0: "velocityDecay_get (new_Simulation M lcg e) = fsub (Fin 1) (priv_velocityDecay (new_Simulation M lcg e))"
    by (simp add: velocityDecay_get_def property_get_def velocityDecay_options_def)
  have b: "velocityDecay_get (new_Simulation M lcg e) = fl (4 / 10)"
  proof -
    have "fl (1 - 5404319552844595 / 2 ^ 53) = Fin (3602879701896397 / 2 ^ 53)"
      by (subst fl_eval[where k = 54]) (simp_all add: round_half_even_def)
    then show ?thesis by (simp add: g0 a fl_six_tenths fl_four_tenths)
  qed
  have c: "within_0_1 v \<longrightarrow>
      velocityDecay_set self v = Normal (self\<lparr>priv_velocityDecay := fsub (Fin 1) v\<rparr>)"
    by (simp add: velocityDecay_set_def property_set_def velocityDecay_options_def in_unit_interval_iff)
  have d: "\<exists>self'. tick self None = Normal self' \<and>
         node_vx (priv_nodes self' ! i)
           = Some (fmul (ToNumber (node_vx (priv_nodes self ! i))) (priv_velocityDecay self))"
    if "forces self = []" "i < length (priv_nodes self)" "node_fx (priv_nodes self ! i) = None"
  proof -
    have "\<forall>(name, f) \<in> set (forces self). keeps_length f" using that(1) by simp
    then have "tick self None = Normal (spec_tick self)"
      using tick_loop_spec[of self 1] by (simp add: tick_def)
    moreover have "node_vx (priv_nodes (spec_tick self) ! i)
        = Some (fmul (ToNumber (node_vx (priv_nodes self ! i))) (priv_velocityDecay self))"
      using that by (simp add: spec_tick_def spec_forces_def spec_integrate_def Let_def)
    ultimately show ?thesis by simp
  qed
  have r: "k \<le> 2 ^ 53 \<longrightarrow>
      (\<exists>self'. velocityDecay_set self (Fin (real k / 2 ^ 53)) = Normal self' \<and>
         velocityDecay_get self' = Fin (real k / 2 ^ 53))"
    using velocityDecay_roundtrip_dyadic[of k self] by blast
  have d': "forces self = [] \<and> i < length (priv_nodes self) \<and> node_fx (priv_nodes self ! i) = None \<longrightarrow>
      (\<exists>self'. tick self None = Normal self' \<and>
         node_vx (priv_nodes self' ! i)
           = Some (fmul (ToNumber (node_vx (priv_nodes self ! i))) (priv_velocityDecay self)))"
    using d by blast
  show ?thesis
    by (intro conjI) (rule a, rule b, rule c, rule g, rule d', rule r)
qed

theorem velocityDecay_stored_witness:
  "within_0_1 (Fin (3 / 4)) \<and>
   velocityDecay_set example_simulation (Fin (3 / 4))
     = Normal (example_simulation\<lparr>priv_velocityDecay := Fin (1 / 4)\<rparr>) \<and>
   velocityDecay_get (example_simulation\<lparr>priv_velocityDecay := Fin (1 / 4)\<rparr>) = Fin (3 / 4) \<and>
   priv_velocityDecay (new_Simulation rounding_engine () (0::nat)) = Fin (5404319552844595 / 2 ^ 53) \<and>
   velocityDecay_get (new_Simulation rounding_engine () (0::nat)) = Fin (3602879701896397 / 2 ^ 53)"
proof -
  have q: "fl (1 - 3 / 4) = Fin (1 / 4)"
    by (subst fl_eval[where k = 54]) (simp_all add: round_half_even_def)
  have q': "fl (1 - 1 / 4) = Fin (3 / 4)"
    by (subst fl_eval[where k = 53]) (simp_all add: round_half_even_def)
  have w: "within_0_1 (Fin (3 / 4))" by (simp add: within_0_1_def)
  show ?thesis
    using velocityDecay_stored[of rounding_engine "()" "0::nat" "Fin (3 / 4)" example_simulation 0 0]
      velocityDecay_stored[of rounding_engine "()" "0::nat" "Fin (3 / 4)" "example_simulation\<lparr>priv_velocityDecay := Fin (1 / 4)\<rparr>" 0 0]
      w q q'
    by (simp add: fl_six_tenths fl_four_tenths)
qed

text \<open>
  The claim as it is worded fails at \<open>0.1\<close>: \<open>velocityDecay(0.1)\<close> stores \<open>0.9\<close>, and
  one minus \<open>0.9\<close> is \<open>0.09999999999999998\<close> in binary64, so the getter does
  not return the \<open>0.1\<close> that was set.
\<close>

theorem velocityDecay_roundtrip_counterexample:
  "within_0_1 (fl (1 / 10)) \<and>
   fl (1 / 10) = Fin (3602879701896397 / 2 ^ 55) \<and>
   velocityDecay_set example_simulation (fl (1 / 10))
     = Normal (example_simulation\<lparr>priv_velocityDecay := Fin (8106479329266893 / 2 ^ 53)\<rparr>) \<and>
   velocityDecay_get (example_simulation\<lparr>priv_velocityDecay := Fin (8106479329266893 / 2 ^ 53)\<rparr>)
     = Fin (900719925474099 / 2 ^ 53) \<and>
   Fin (900719925474099 / 2 ^ 53) \<noteq> fl (1 / 10)"
proof -
  have s: "fl (1 - 3602879701896397 / 2 ^ 55) = Fin (8106479329266893 / 2 ^ 53)"
    by (subst fl_eval[where k = 53]) (simp_all add: round_half_even_def)
  have g: "fl (1 - 8106479329266893 / 2 ^ 53) = Fin (900719925474099 / 2 ^ 53)"
    by (subst fl_eval[where k = 56]) (simp_all add: round_half_even_def)
  show ?thesis
    using s g
    by (simp add: fl_tenth within_0_1_def velocityDecay_set_def velocityDecay_get_def
          property_set_def property_get_def velocityDecay_options_def in_unit_interval_iff)
qed

section \<open>The force map\<close>

lemma Map_get_map_of: "Map_get m k = map_of m k"
  by (induction m) auto

lemma Map_get_set: "Map_get (Map_set m k v) k' = (if k' = k then Some v else Map_get m k')"
  by (induction m) auto

lemma Map_get_delete: "Map_get (Map_delete m k) k' = (if k' = k then None else Map_get m k')"
  by (induction m) auto

lemma Map_set_keys:
  "map fst (Map_set m k v) = (if k \<in> set (map fst m) then map fst m else map fst m @ [k])"
  by (induction m) force+

lemma Map_delete_keys: "map fst (Map_delete m k) = filter (\<lambda>k'. k' \<noteq> k) (map fst m)"
  by (induction m) auto

text \<open>
  Claim C9.  \<open>force(name)\<close> returns the force registered under the name, or
  \<open>undefined\<close> when there is none, and never throws.  \<open>force(name, null)\<close>
  removes the force of that name, leaves the others, and returns the
  simulation.  \<open>force(name, f)\<close> calls \<open>f.initialize\<close> (when \<open>f\<close> has one) with
  the nodes and the random source of the simulation, registers \<open>f\<close> under the
  name -- in the place of the force that had the name, or after all the others
  -- and returns the simulation.
\<close>

theorem force_registry:
  "force self name None = Found (map_of (forces self) name) \<and>
   (\<exists>self'. force self name (Some None) = This self' \<and>
      force self' name None = Found None \<and>
      (\<forall>name'. name' \<noteq> name \<longrightarrow> force self' name' None = force self name' None) \<and>
      map fst (forces self') = filter (\<lambda>name'. name' \<noteq> name) (map fst (forces self)) \<and>
      self' = self\<lparr>forces := forces self'\<rparr>) \<and>
   (\<exists>self'. force self name (Some (Some f)) = This self' \<and>
      force self' name None = Found (Some f) \<and>
      (\<forall>name'. name' \<noteq> name \<longrightarrow> force self' name' None = force self name' None) \<and>
      map fst (forces self') =
        (if name \<in> set (map fst (forces self)) then map fst (forces self)
         else map fst (forces self) @ [name]) \<and>
      force_state self' =
        (case initialize f of
           None \<Rightarrow> force_state self
         | Some init \<Rightarrow> init (priv_nodes self) (priv_randomSource self) (force_state self)) \<and>
      self' = self\<lparr>forces := forces self', force_state := force_state self'\<rparr>)"
  by (auto simp: force_def Map_get_map_of[symmetric] Map_get_set Map_get_delete Map_set_keys
        Map_delete_keys initializeForce_def Let_def split: option.splits)

theorem force_registry_witness:
  "force example_simulation ''set'' None = Found (Some set_vx_force) \<and>
   force example_simulation ''link'' None = Found None \<and>
   force example_simulation ''set'' (Some None)
     = This (example_simulation\<lparr>forces := [(''add'', add_vx_force)]\<rparr>) \<and>
   force example_simulation ''link'' (Some (Some probe_force))
     = This (example_simulation
         \<lparr>forces := [(''set'', set_vx_force), (''add'', add_vx_force), (''link'', probe_force)],
          force_state := 2\<rparr>) \<and>
   force example_simulation ''set'' (Some (Some probe_force))
     = This (example_simulation
         \<lparr>forces := [(''set'', probe_force), (''add'', add_vx_force)], force_state := 2\<rparr>)"
  using force_registry[of example_simulation "''set''" probe_force]
    force_registry[of example_simulation "''link''" probe_force]
  by (simp add: force_def example_simulation_def probe_force_def initializeForce_def)

end
